theory Spec2Isabelle
  imports Main "HOL-Library.AList"
begin

section \<open>JavaScript values shared by the two servers\<close>

text \<open>
  The repository holds two variants of the chat server: \<^verbatim>\<open>server.js\<close>, which keeps a
  \<^verbatim>\<open>users\<close> map and rooms whose member set holds user names, and a second file
  (\<^verbatim>\<open>part_000\<close>), which keeps the name and the current room on the socket object and
  rooms whose member set holds socket ids. Both are embedded here; the definitions of the
  second file carry the prefix \<open>p0_\<close>.

  Socket ids and room ids are JavaScript strings. A JavaScript \<^verbatim>\<open>Map\<close> is an association
  list in insertion order: \<^verbatim>\<open>set\<close> is \<^const>\<open>AList.update\<close> (an existing key keeps its
  position, a new key goes to the end), \<^verbatim>\<open>delete\<close> is \<^const>\<open>AList.delete\<close>, \<^verbatim>\<open>get\<close> is
  \<^const>\<open>map_of\<close>. A JavaScript \<^verbatim>\<open>Set\<close> is a list in insertion order.
\<close>

type_synonym sid = string
type_synonym rid = string

text \<open>
  A JavaScript string is the list of its code units; the type \<^typ>\<open>char\<close> holds the code
  units below 256. \<^verbatim>\<open>String.prototype.trim\<close> strips the white space and the line
  terminators of ECMAScript from both ends; among the code units below 256 these are
  U+0009 to U+000D, the space U+0020 and the no-break space U+00A0.
\<close>

definition is_ws :: "char \<Rightarrow> bool" where
  "is_ws c = (c \<in> set [CHR 0x09, CHR 0x0A, CHR 0x0B, CHR 0x0C, CHR 0x0D, CHR 0x20, CHR 0xA0])"

definition trim :: "string \<Rightarrow> string" where
  "trim str = rev (dropWhile is_ws (rev (dropWhile is_ws str)))"

text \<open>Truthiness of a value that is a string, \<^verbatim>\<open>null\<close> or \<^verbatim>\<open>undefined\<close>.\<close>

definition truthy :: "string option \<Rightarrow> bool" where
  "truthy v = (case v of None \<Rightarrow> False | Some x \<Rightarrow> x \<noteq> [])"

text \<open>A value spliced into a template literal.\<close>

definition js_null :: "string option \<Rightarrow> string" where
  "js_null v = (case v of None \<Rightarrow> ''null'' | Some x \<Rightarrow> x)"

definition js_undefined :: "string option \<Rightarrow> string" where
  "js_undefined v = (case v of None \<Rightarrow> ''undefined'' | Some x \<Rightarrow> x)"

definition apos :: string where
  "apos = [CHR 0x27]"

definition dquote :: string where
  "dquote = [CHR 0x22]"

text \<open>The decimal numeral of a clock reading, as a template literal prints it.\<close>

fun string_of_nat :: "nat \<Rightarrow> string" where
  "string_of_nat n =
     (if n < 10 then [''0123456789'' ! n]
      else string_of_nat (n div 10) @ [''0123456789'' ! (n mod 10)])"

declare string_of_nat.simps [simp del]

definition set_add :: "'a \<Rightarrow> 'a list \<Rightarrow> 'a list" where
  "set_add x xs = (if x \<in> set xs then xs else xs @ [x])"

definition set_delete :: "'a \<Rightarrow> 'a list \<Rightarrow> 'a list" where
  "set_delete x xs = removeAll x xs"

subsection \<open>Events and notifications\<close>

datatype kind = System | Message | Action

text \<open>
  A history entry or a chat payload. The source builds these as object literals with
  different field sets, so a field that a literal leaves out is \<open>None\<close>.
\<close>

record event =
  ev_room :: "rid option"
  ev_user :: "string option"
  ev_text :: string
  ev_timestamp :: int
  ev_type :: "kind option"

record room_summary =
  sum_id :: rid
  sum_name :: string
  hasPin :: bool

datatype payload =
    RoomActionFeedback string
  | UsernameAccepted string
  | UsernameRejected string
  | UsernameUpdated string
  | UpdateRoomList "room_summary list"
  | UpdateUserList rid "string list"
  | UpdateUserNames "string option list"
  | RoomJoinedSuccess string rid "event list" "string list"
  | RoomJoinedSuccessNames string rid "event list" "string option list"
  | ChatMessage event
  | ChatAction event
  | UserTyping string rid
  | UserStopTyping string rid
  | EnteredLobby

text \<open>An emitted notification: the sockets it is delivered to, and the payload.\<close>

type_synonym emit = "sid list \<times> payload"

text \<open>Reading a property of \<^verbatim>\<open>undefined\<close> throws.\<close>

datatype error = TypeError

section \<open>server.js\<close>

record user =
  username :: "string option"
  currentRoomId :: "rid option"

record room =
  r_name :: string
  r_pin :: "string option"
  r_history :: "event list"
  usersInRoom :: "string list"

text \<open>
  The state of \<^verbatim>\<open>server.js\<close>: its three maps, and the connected sockets of Socket.IO with
  the rooms each is in (\<^verbatim>\<open>socket.join\<close>, \<^verbatim>\<open>socket.leave\<close>). Socket.IO makes every socket
  join the room named by its own id before the \<^verbatim>\<open>connection\<close> handler runs; the socket
  leaves that room like any other with \<^verbatim>\<open>socket.leave\<close>. Socket.IO takes a socket out of
  all rooms before the \<^verbatim>\<open>disconnect\<close> handler runs.
\<close>

record state =
  users :: "(sid \<times> user) list"
  rooms :: "(rid \<times> room) list"
  userSocketRooms :: "(sid \<times> rid list) list"
  io_sockets :: "(sid \<times> rid list) list"

definition GENERAL_ROOM_ID :: rid where
  "GENERAL_ROOM_ID = ''general''"

definition init :: state where
  "init = \<lparr>users = [],
      rooms = [(GENERAL_ROOM_ID, \<lparr>r_name = ''General'', r_pin = None, r_history = [], usersInRoom = []\<rparr>)],
      userSocketRooms = [], io_sockets = []\<rparr>"

definition in_io_room :: "rid \<Rightarrow> sid \<times> rid list \<Rightarrow> bool" where
  "in_io_room roomId e = (roomId \<in> set (snd e))"

text \<open>The recipients of \<^verbatim>\<open>io.emit\<close>, \<^verbatim>\<open>io.to(roomId).emit\<close> and \<^verbatim>\<open>socket.to(roomId).emit\<close>.\<close>

definition io_all :: "(sid \<times> rid list) list \<Rightarrow> sid list" where
  "io_all socks = map fst socks"

definition io_to :: "(sid \<times> rid list) list \<Rightarrow> rid \<Rightarrow> sid list" where
  "io_to socks roomId = map fst (filter (in_io_room roomId) socks)"

definition socket_to :: "(sid \<times> rid list) list \<Rightarrow> sid \<Rightarrow> rid \<Rightarrow> sid list" where
  "socket_to socks sock roomId = filter (\<lambda>k. k \<noteq> sock) (io_to socks roomId)"

definition getUsersInRoom :: "state \<Rightarrow> rid \<Rightarrow> string list" where
  "getUsersInRoom s roomId =
     (case map_of (rooms s) roomId of Some rm \<Rightarrow> usersInRoom rm | None \<Rightarrow> [])"

definition broadcastUserList :: "state \<Rightarrow> rid \<Rightarrow> emit" where
  "broadcastUserList s roomId =
     (io_to (io_sockets s) roomId, UpdateUserList roomId (getUsersInRoom s roomId))"

definition availableRooms :: "state \<Rightarrow> room_summary list" where
  "availableRooms s =
     map (\<lambda>(k, rm). \<lparr>sum_id = k, sum_name = r_name rm, hasPin = (r_pin rm \<noteq> None)\<rparr>) (rooms s)"

definition broadcastRoomList :: "state \<Rightarrow> emit" where
  "broadcastRoomList s = (io_all (io_sockets s), UpdateRoomList (availableRooms s))"

definition feedback :: "sid \<Rightarrow> string \<Rightarrow> emit" where
  "feedback sock msg = ([sock], RoomActionFeedback msg)"

subsection \<open>leaveRoom and joinRoom\<close>

definition leaveMessage :: "user \<Rightarrow> rid \<Rightarrow> nat \<Rightarrow> event" where
  "leaveMessage userData roomId now =
     \<lparr>ev_room = Some roomId, ev_user = None,
      ev_text = ''<strong>'' @ js_null (username userData) @ ''</strong> has left the room.'',
      ev_timestamp = int now, ev_type = Some System\<rparr>"

definition leaveRoom :: "state \<Rightarrow> sid \<Rightarrow> rid \<Rightarrow> bool \<Rightarrow> nat \<Rightarrow> error + state \<times> emit list" where
  "leaveRoom s sock roomId isDisconnect now =
     (case map_of (users s) sock of
        None \<Rightarrow> Inr (s, [])
      | Some userData \<Rightarrow>
     (case map_of (rooms s) roomId of
        None \<Rightarrow> Inr (s, [])
      | Some rm \<Rightarrow>
     (case map_of (userSocketRooms s) sock of
        None \<Rightarrow> Inl TypeError
      | Some joined \<Rightarrow>
          let s1 = s\<lparr>io_sockets := AList.map_entry sock (set_delete roomId) (io_sockets s),
                     userSocketRooms := AList.update sock (set_delete roomId joined) (userSocketRooms s)\<rparr>;
              rm' = rm\<lparr>usersInRoom :=
                          (case username userData of
                             None \<Rightarrow> usersInRoom rm
                           | Some n \<Rightarrow> set_delete n (usersInRoom rm)),
                        r_history := r_history rm @ [leaveMessage userData roomId now]\<rparr>;
              s2 = s1\<lparr>rooms := AList.update roomId rm' (rooms s1)\<rparr>;
              out1 = [(io_to (io_sockets s2) roomId, ChatMessage (leaveMessage userData roomId now)),
                      broadcastUserList s2 roomId];
              s3 = (if usersInRoom rm' = [] \<and> roomId \<noteq> GENERAL_ROOM_ID
                    then s2\<lparr>rooms := AList.delete roomId (rooms s2)\<rparr> else s2);
              out2 = (if usersInRoom rm' = [] \<and> roomId \<noteq> GENERAL_ROOM_ID
                      then [broadcastRoomList s3] else []);
              s4 = (if \<not> isDisconnect
                    then s3\<lparr>users := AList.update sock (userData\<lparr>currentRoomId := None\<rparr>) (users s3)\<rparr>
                    else s3)
          in Inr (s4, out1 @ out2))))"

definition joinMessage :: "string \<Rightarrow> rid \<Rightarrow> nat \<Rightarrow> event" where
  "joinMessage uname roomId now =
     \<lparr>ev_room = Some roomId, ev_user = None,
      ev_text = ''<strong>'' @ uname @ ''</strong> has joined the room.'',
      ev_timestamp = int now, ev_type = Some System\<rparr>"

text \<open>Lines 353 to 356: leave the previous room, if the session has one.\<close>

definition leave_previous :: "state \<Rightarrow> sid \<Rightarrow> rid option \<Rightarrow> nat \<Rightarrow> error + state \<times> emit list" where
  "leave_previous s sock cur now =
     (case cur of
        None \<Rightarrow> Inr (s, [])
      | Some c \<Rightarrow> if c = [] then Inr (s, []) else leaveRoom s sock c False now)"

text \<open>
  Lines 358 to 386, run in the state that \<^const>\<open>leaveRoom\<close> left. The objects \<^verbatim>\<open>userData\<close>
  and \<^verbatim>\<open>room\<close> were read before; \<^const>\<open>leaveRoom\<close> changed only the current room of
  \<^verbatim>\<open>userData\<close>, which is overwritten here, and no field of \<^verbatim>\<open>room\<close>, which is another
  room than the one left.
\<close>

definition enterRoom :: "state \<Rightarrow> sid \<Rightarrow> string \<Rightarrow> rid \<Rightarrow> room \<Rightarrow> nat \<Rightarrow> error + state \<times> emit list" where
  "enterRoom s sock uname roomId rm now =
     (case map_of (userSocketRooms s) sock of
        None \<Rightarrow> Inl TypeError
      | Some joined \<Rightarrow>
          let rm' = rm\<lparr>usersInRoom := set_add uname (usersInRoom rm),
                        r_history := r_history rm @ [joinMessage uname roomId now]\<rparr>;
              s' = s\<lparr>io_sockets := AList.map_entry sock (set_add roomId) (io_sockets s),
                     users := AList.update sock \<lparr>username = Some uname, currentRoomId = Some roomId\<rparr> (users s),
                     userSocketRooms := AList.update sock (set_add roomId joined) (userSocketRooms s),
                     rooms := AList.update roomId rm' (rooms s)\<rparr>
          in Inr (s',
               [([sock], RoomJoinedSuccess (r_name rm') roomId (r_history rm') (getUsersInRoom s' roomId)),
                (socket_to (io_sockets s') sock roomId, ChatMessage (joinMessage uname roomId now)),
                broadcastUserList s' roomId]))"

definition joinRoom :: "state \<Rightarrow> sid \<Rightarrow> rid \<Rightarrow> string option \<Rightarrow> nat \<Rightarrow> error + state \<times> emit list" where
  "joinRoom s sock roomId pin now =
     (case map_of (users s) sock of
        None \<Rightarrow> Inr (s, [feedback sock ''Please set your username first.''])
      | Some userData \<Rightarrow>
     (case username userData of
        None \<Rightarrow> Inr (s, [feedback sock ''Please set your username first.''])
      | Some uname \<Rightarrow>
          if uname = [] then Inr (s, [feedback sock ''Please set your username first.''])
          else
     (case map_of (rooms s) roomId of
        None \<Rightarrow> Inr (s, [feedback sock ''Room does not exist.''])
      | Some rm \<Rightarrow>
          if truthy (r_pin rm) \<and> r_pin rm \<noteq> pin \<and> roomId \<noteq> GENERAL_ROOM_ID
          then Inr (s, [feedback sock ''Incorrect PIN for this room.''])
          else if currentRoomId userData = Some roomId
          then Inr (s, [feedback sock (''You are already in '' @ apos @ r_name rm @ apos @ ''.'')])
          else
     (case leave_previous s sock (currentRoomId userData) now of
        Inl e \<Rightarrow> Inl e
      | Inr (s1, out1) \<Rightarrow>
     (case enterRoom s1 sock uname roomId rm now of
        Inl e \<Rightarrow> Inl e
      | Inr (s2, out2) \<Rightarrow> Inr (s2, out1 @ out2))))))"

subsection \<open>The event handlers\<close>

text \<open>
  Each handler takes the state, the socket it was registered on, the payload of the event
  and, where it reads the clock, the reading \<open>now\<close> of \<^verbatim>\<open>Date.now()\<close> during its run. It
  returns the new state and the notifications in the order they are emitted, or the
  exception it throws.
\<close>

definition on_connection :: "state \<Rightarrow> sid \<Rightarrow> error + state \<times> emit list" where
  "on_connection s sock =
     (let s' = s\<lparr>io_sockets := AList.update sock [sock] (io_sockets s),
                 users := AList.update sock \<lparr>username = None, currentRoomId = None\<rparr> (users s),
                 userSocketRooms := AList.update sock [] (userSocketRooms s)\<rparr>
      in Inr (s', [broadcastRoomList s']))"

definition taken_msg :: "string \<Rightarrow> string" where
  "taken_msg t = ''Username '' @ apos @ t @ apos @ '' is already taken. Please choose another.''"

definition isUsernameTaken :: "state \<Rightarrow> string \<Rightarrow> bool" where
  "isUsernameTaken s t =
     list_ex (\<lambda>u. username u = Some t \<and> currentRoomId u \<noteq> None) (map snd (users s))"

definition on_set_initial_username :: "state \<Rightarrow> sid \<Rightarrow> string \<Rightarrow> nat \<Rightarrow> error + state \<times> emit list" where
  "on_set_initial_username s sock newUsername now =
     (let trimmedUsername = trim newUsername in
      if trimmedUsername = [] then Inr (s, [feedback sock ''Username cannot be empty.''])
      else if isUsernameTaken s trimmedUsername
      then Inr (s, [feedback sock (taken_msg trimmedUsername)])
      else
        (case map_of (users s) sock of
           None \<Rightarrow> Inl TypeError
         | Some u \<Rightarrow>
             (case joinRoom (s\<lparr>users := AList.update sock (u\<lparr>username := Some trimmedUsername\<rparr>) (users s)\<rparr>)
                     sock GENERAL_ROOM_ID None now of
                Inl e \<Rightarrow> Inl e
              | Inr (s', out) \<Rightarrow> Inr (s', ([sock], UsernameAccepted trimmedUsername) # out))))"

definition renameText :: "string option \<Rightarrow> string \<Rightarrow> string" where
  "renameText oldUsername t =
     ''<strong>'' @ (if truthy oldUsername then js_null oldUsername else ''A user'')
       @ ''</strong> is now <strong>'' @ t @ ''</strong>.''"

definition isNewUsernameTaken :: "state \<Rightarrow> string option \<Rightarrow> string \<Rightarrow> bool" where
  "isNewUsernameTaken s oldUsername t =
     list_ex (\<lambda>u. username u = Some t \<and> currentRoomId u \<noteq> None \<and> username u \<noteq> oldUsername)
       (map snd (users s))"

definition on_change_username :: "state \<Rightarrow> sid \<Rightarrow> string \<Rightarrow> nat \<Rightarrow> error + state \<times> emit list" where
  "on_change_username s sock newUsername now =
     (let trimmedNewUsername = trim newUsername;
          oldUserData = map_of (users s) sock;
          oldUsername = (case oldUserData of None \<Rightarrow> None | Some u \<Rightarrow> username u)
      in
      if trimmedNewUsername = [] then Inr (s, [feedback sock ''New username cannot be empty.''])
      else if Some trimmedNewUsername = oldUsername
      then Inr (s, [feedback sock ''That is already your username.''])
      else if isNewUsernameTaken s oldUsername trimmedNewUsername
      then Inr (s, [feedback sock (taken_msg trimmedNewUsername)])
      else
        (case oldUserData of
           None \<Rightarrow> Inr (s, [])
         | Some u \<Rightarrow>
             let s1 = s\<lparr>users := AList.update sock (u\<lparr>username := Some trimmedNewUsername\<rparr>) (users s)\<rparr>;
                 out1 = [([sock], UsernameUpdated trimmedNewUsername)]
             in
             (case currentRoomId u of
                None \<Rightarrow> Inr (s1, out1)
              | Some cur \<Rightarrow>
                  if cur = [] then Inr (s1, out1)
                  else
                    (case map_of (rooms s1) cur of
                       None \<Rightarrow> Inr (s1, out1)
                     | Some rm \<Rightarrow>
                         let rm' = rm\<lparr>usersInRoom :=
                                        set_add trimmedNewUsername
                                          (if truthy oldUsername
                                           then set_delete (js_null oldUsername) (usersInRoom rm)
                                           else usersInRoom rm),
                                      r_history := r_history rm @
                                        [\<lparr>ev_room = None, ev_user = None,
                                          ev_text = renameText oldUsername trimmedNewUsername,
                                          ev_timestamp = int now, ev_type = Some System\<rparr>]\<rparr>;
                             s2 = s1\<lparr>rooms := AList.update cur rm' (rooms s1)\<rparr>
                         in Inr (s2, out1 @
                              [broadcastUserList s2 cur,
                               (io_to (io_sockets s2) cur,
                                ChatMessage \<lparr>ev_room = Some cur, ev_user = Some ''System'',
                                   ev_text = renameText oldUsername trimmedNewUsername,
                                   ev_timestamp = int now, ev_type = Some System\<rparr>)])))))"

definition room_id_of :: "nat \<Rightarrow> rid" where
  "room_id_of now = ''room-'' @ string_of_nat now"

definition on_create_room :: "state \<Rightarrow> sid \<Rightarrow> string \<Rightarrow> string \<Rightarrow> nat \<Rightarrow> error + state \<times> emit list" where
  "on_create_room s sock nm pin now =
     (let trimmedName = trim nm; trimmedPin = trim pin in
      if trimmedName = [] \<or> trimmedPin = []
      then Inr (s, [feedback sock ''Room name and PIN cannot be empty.''])
      else
        let roomId = room_id_of now in
        if map_of (rooms s) roomId \<noteq> None
        then Inr (s, [feedback sock ''Failed to create room: Room ID already exists.''])
        else
          let s1 = s\<lparr>rooms := AList.update roomId
                      \<lparr>r_name = trimmedName, r_pin = Some trimmedPin, r_history = [], usersInRoom = []\<rparr>
                      (rooms s)\<rparr>
          in
          (case joinRoom s1 sock roomId None now of
             Inl e \<Rightarrow> Inl e
           | Inr (s2, out) \<Rightarrow>
               Inr (s2, [feedback sock (''Room '' @ apos @ trimmedName @ apos
                                          @ '' created successfully! PIN: '' @ trimmedPin),
                         broadcastRoomList s1] @ out)))"

definition findRoomByPin :: "(rid \<times> room) list \<Rightarrow> string \<Rightarrow> rid option" where
  "findRoomByPin rs p = map_option fst (find (\<lambda>e. r_pin (snd e) = Some p) rs)"

definition on_join_room_by_pin :: "state \<Rightarrow> sid \<Rightarrow> string \<Rightarrow> nat \<Rightarrow> error + state \<times> emit list" where
  "on_join_room_by_pin s sock pin now =
     (let trimmedPin = trim pin in
      if trimmedPin = [] then Inr (s, [feedback sock ''PIN cannot be empty.''])
      else if truthy (findRoomByPin (rooms s) trimmedPin)
      then joinRoom s sock (js_null (findRoomByPin (rooms s) trimmedPin)) None now
      else Inr (s, [feedback sock ''No room found with that PIN.'']))"

definition on_switch_room :: "state \<Rightarrow> sid \<Rightarrow> rid \<Rightarrow> nat \<Rightarrow> error + state \<times> emit list" where
  "on_switch_room s sock newRoomId now = joinRoom s sock newRoomId None now"

definition on_leave_current_room :: "state \<Rightarrow> sid \<Rightarrow> nat \<Rightarrow> error + state \<times> emit list" where
  "on_leave_current_room s sock now =
     (case map_of (users s) sock of
        None \<Rightarrow> Inr (s, [feedback sock ''You are not currently in a room to leave.''])
      | Some userData \<Rightarrow>
          if truthy (currentRoomId userData) \<and> currentRoomId userData \<noteq> Some GENERAL_ROOM_ID
          then
            (case leaveRoom s sock (js_null (currentRoomId userData)) False now of
               Inl e \<Rightarrow> Inl e
             | Inr (s1, out1) \<Rightarrow>
                 (case joinRoom s1 sock GENERAL_ROOM_ID None now of
                    Inl e \<Rightarrow> Inl e
                  | Inr (s2, out2) \<Rightarrow> Inr (s2, out1 @ out2)))
          else if currentRoomId userData = Some GENERAL_ROOM_ID
          then Inr (s, [feedback sock
                 ''You cannot leave the General room. You can only switch to another room.''])
          else Inr (s, [feedback sock ''You are not currently in a room to leave.'']))"

text \<open>
  The handlers of \<^verbatim>\<open>chat message\<close> and \<^verbatim>\<open>chat action\<close> differ in the type of the event and
  the name of the notification only.
\<close>

definition post :: "kind \<Rightarrow> (event \<Rightarrow> payload) \<Rightarrow> state \<Rightarrow> sid \<Rightarrow> string \<Rightarrow> int \<Rightarrow> error + state \<times> emit list" where
  "post k notify s sock txt ts =
     (case map_of (users s) sock of
        None \<Rightarrow> Inr (s, [])
      | Some userData \<Rightarrow>
          if truthy (currentRoomId userData) \<and> truthy (username userData)
          then
            (case map_of (rooms s) (js_null (currentRoomId userData)) of
               None \<Rightarrow> Inr (s, [])
             | Some rm \<Rightarrow>
                 let messageData = \<lparr>ev_room = currentRoomId userData, ev_user = username userData,
                                     ev_text = txt, ev_timestamp = ts, ev_type = Some k\<rparr>;
                     s' = s\<lparr>rooms := AList.update (js_null (currentRoomId userData))
                                (rm\<lparr>r_history := r_history rm @ [messageData]\<rparr>) (rooms s)\<rparr>
                 in Inr (s', [(io_to (io_sockets s') (js_null (currentRoomId userData)), notify messageData)]))
          else Inr (s, []))"

definition on_chat_message :: "state \<Rightarrow> sid \<Rightarrow> string \<Rightarrow> int \<Rightarrow> error + state \<times> emit list" where
  "on_chat_message = post Message ChatMessage"

definition on_chat_action :: "state \<Rightarrow> sid \<Rightarrow> string \<Rightarrow> int \<Rightarrow> error + state \<times> emit list" where
  "on_chat_action = post Action ChatAction"

definition typing_signal :: "(string \<Rightarrow> rid \<Rightarrow> payload) \<Rightarrow> state \<Rightarrow> sid \<Rightarrow> rid \<Rightarrow> error + state \<times> emit list" where
  "typing_signal notify s sock roomId =
     (case map_of (users s) sock of
        None \<Rightarrow> Inr (s, [])
      | Some userData \<Rightarrow>
          if truthy (username userData) \<and> currentRoomId userData = Some roomId
          then Inr (s, [(socket_to (io_sockets s) sock roomId, notify (js_null (username userData)) roomId)])
          else Inr (s, []))"

definition on_typing :: "state \<Rightarrow> sid \<Rightarrow> rid \<Rightarrow> error + state \<times> emit list" where
  "on_typing = typing_signal UserTyping"

definition on_stop_typing :: "state \<Rightarrow> sid \<Rightarrow> rid \<Rightarrow> error + state \<times> emit list" where
  "on_stop_typing = typing_signal UserStopTyping"

definition forget :: "sid \<Rightarrow> state \<Rightarrow> state" where
  "forget sock s = s\<lparr>users := AList.delete sock (users s),
                      userSocketRooms := AList.delete sock (userSocketRooms s)\<rparr>"

definition on_disconnect :: "state \<Rightarrow> sid \<Rightarrow> nat \<Rightarrow> error + state \<times> emit list" where
  "on_disconnect s sock now =
     (let s0 = s\<lparr>io_sockets := AList.delete sock (io_sockets s)\<rparr> in
      case map_of (users s0) sock of
        None \<Rightarrow> Inr (forget sock s0, [])
      | Some userData \<Rightarrow>
          if truthy (currentRoomId userData)
          then
            (case leaveRoom s0 sock (js_null (currentRoomId userData)) True now of
               Inl e \<Rightarrow> Inl e
             | Inr (s1, out) \<Rightarrow> Inr (forget sock s1, out))
          else Inr (forget sock s0, []))"

text \<open>The inbound events of a connection, and a run of the server on a list of them.\<close>

datatype inbound =
    Connection sid
  | SetInitialUsername sid string nat
  | ChangeUsername sid string nat
  | CreateRoom sid string string nat
  | JoinRoomByPin sid string nat
  | SwitchRoom sid rid nat
  | LeaveCurrentRoom sid nat
  | ChatMessageIn sid string int
  | ChatActionIn sid string int
  | Typing sid rid
  | StopTyping sid rid
  | Disconnect sid nat

fun handle :: "state \<Rightarrow> inbound \<Rightarrow> error + state \<times> emit list" where
  "handle s (Connection k) = on_connection s k"
| "handle s (SetInitialUsername k n now) = on_set_initial_username s k n now"
| "handle s (ChangeUsername k n now) = on_change_username s k n now"
| "handle s (CreateRoom k n p now) = on_create_room s k n p now"
| "handle s (JoinRoomByPin k p now) = on_join_room_by_pin s k p now"
| "handle s (SwitchRoom k r now) = on_switch_room s k r now"
| "handle s (LeaveCurrentRoom k now) = on_leave_current_room s k now"
| "handle s (ChatMessageIn k t ts) = on_chat_message s k t ts"
| "handle s (ChatActionIn k t ts) = on_chat_action s k t ts"
| "handle s (Typing k r) = on_typing s k r"
| "handle s (StopTyping k r) = on_stop_typing s k r"
| "handle s (Disconnect k now) = on_disconnect s k now"

fun run :: "state \<Rightarrow> inbound list \<Rightarrow> error + state" where
  "run s [] = Inr s"
| "run s (e # es) = (case handle s e of Inl x \<Rightarrow> Inl x | Inr (s', out) \<Rightarrow> run s' es)"

section \<open>The second server (part_000)\<close>

text \<open>
  This variant keeps \<^verbatim>\<open>username\<close> and \<^verbatim>\<open>currentRoomId\<close> as properties of the socket object,
  a global array \<^verbatim>\<open>users\<close> of \<^verbatim>\<open>{id, username}\<close> entries, and rooms whose \<^verbatim>\<open>users\<close> set
  holds socket ids. The sockets of \<^verbatim>\<open>io.sockets.sockets\<close> are kept with their two properties
  and the Socket.IO rooms they are in, the first of which is the room named by the id of the
  socket.
\<close>

record p0_socket =
  sk_username :: "string option"
  sk_currentRoomId :: "rid option"
  sk_rooms :: "rid list"

record p0_room =
  p_id :: rid
  p_name :: string
  p_pin :: "string option"
  p_history :: "event list"
  p_users :: "sid list"

record p0_state =
  p0_users :: "(sid \<times> string) list"
  p0_rooms :: "(rid \<times> p0_room) list"
  p0_sockets :: "(sid \<times> p0_socket) list"

definition p0_init :: p0_state where
  "p0_init = \<lparr>p0_users = [],
      p0_rooms = [(''general'', \<lparr>p_id = ''general'', p_name = ''General'', p_pin = None,
                                  p_history = [], p_users = []\<rparr>)],
      p0_sockets = []\<rparr>"

definition p0_io :: "p0_state \<Rightarrow> (sid \<times> rid list) list" where
  "p0_io s = map (\<lambda>e. (fst e, sk_rooms (snd e))) (p0_sockets s)"

definition getRoomList :: "p0_state \<Rightarrow> room_summary list" where
  "getRoomList s =
     map (\<lambda>rm. \<lparr>sum_id = p_id rm, sum_name = p_name rm, hasPin = truthy (p_pin rm)\<rparr>)
       (map snd (p0_rooms s))"

text \<open>\<^verbatim>\<open>Array.from(room.users).map(id => io.sockets.sockets.get(id).username)\<close>\<close>

fun names_of :: "(sid \<times> p0_socket) list \<Rightarrow> sid list \<Rightarrow> error + string option list" where
  "names_of socks [] = Inr []"
| "names_of socks (k # ks) =
     (case map_of socks k of
        None \<Rightarrow> Inl TypeError
      | Some sk \<Rightarrow>
          (case names_of socks ks of
             Inl e \<Rightarrow> Inl e
           | Inr ns \<Rightarrow> Inr (sk_username sk # ns)))"

definition p0_on_connection :: "p0_state \<Rightarrow> sid \<Rightarrow> error + p0_state \<times> emit list" where
  "p0_on_connection s sock =
     (let s' = s\<lparr>p0_sockets := AList.update sock
                    \<lparr>sk_username = None, sk_currentRoomId = None, sk_rooms = [sock]\<rparr> (p0_sockets s)\<rparr>
      in Inr (s', [([sock], UpdateRoomList (getRoomList s'))]))"

definition p0_on_set_initial_username :: "p0_state \<Rightarrow> sid \<Rightarrow> string \<Rightarrow> error + p0_state \<times> emit list" where
  "p0_on_set_initial_username s sock newUsername =
     (case map_of (p0_sockets s) sock of
        None \<Rightarrow> Inr (s, [])
      | Some sk \<Rightarrow>
          let trimmedUsername = trim newUsername in
          if trimmedUsername \<noteq> [] \<and> \<not> list_ex (\<lambda>u. snd u = trimmedUsername) (p0_users s)
          then
            let s' = s\<lparr>p0_sockets := AList.update sock (sk\<lparr>sk_username := Some trimmedUsername\<rparr>) (p0_sockets s),
                       p0_users := p0_users s @ [(sock, trimmedUsername)]\<rparr>
            in Inr (s', [([sock], UsernameAccepted trimmedUsername),
                         (io_all (p0_io s'), UpdateRoomList (getRoomList s'))])
          else Inr (s, [([sock], UsernameRejected ''Username is empty or already taken.'')]))"

text \<open>
  The loop of the \<^verbatim>\<open>change username\<close> handler over the rooms: each room that holds the
  socket gets a history entry, and its members a chat message and the user list (read from
  the sockets while \<^verbatim>\<open>socket.username\<close> is still the old name).
\<close>

fun rename_rooms :: "(sid \<times> p0_socket) list \<Rightarrow> sid \<Rightarrow> string \<Rightarrow> nat \<Rightarrow> (rid \<times> p0_room) list
    \<Rightarrow> error + (rid \<times> p0_room) list \<times> emit list" where
  "rename_rooms socks sock txt now [] = Inr ([], [])"
| "rename_rooms socks sock txt now (e # rest) =
     (if sock \<in> set (p_users (snd e))
      then
        (case names_of socks (p_users (snd e)) of
           Inl x \<Rightarrow> Inl x
         | Inr ns \<Rightarrow>
             (case rename_rooms socks sock txt now rest of
                Inl x \<Rightarrow> Inl x
              | Inr (rest', out) \<Rightarrow>
                  Inr ((fst e, (snd e)\<lparr>p_history := p_history (snd e) @
                          [\<lparr>ev_room = None, ev_user = None, ev_text = txt,
                            ev_timestamp = int now, ev_type = Some System\<rparr>]\<rparr>) # rest',
                       [(io_to (map (\<lambda>e. (fst e, sk_rooms (snd e))) socks) (fst e),
                         ChatMessage \<lparr>ev_room = Some (fst e), ev_user = Some ''System'', ev_text = txt,
                                      ev_timestamp = int now, ev_type = None\<rparr>),
                        (io_to (map (\<lambda>e. (fst e, sk_rooms (snd e))) socks) (fst e),
                         UpdateUserNames ns)] @ out)))
      else
        (case rename_rooms socks sock txt now rest of
           Inl x \<Rightarrow> Inl x
         | Inr (rest', out) \<Rightarrow> Inr (e # rest', out)))"

definition p0_on_change_username :: "p0_state \<Rightarrow> sid \<Rightarrow> string \<Rightarrow> nat \<Rightarrow> error + p0_state \<times> emit list" where
  "p0_on_change_username s sock newUsername now =
     (case map_of (p0_sockets s) sock of
        None \<Rightarrow> Inr (s, [])
      | Some sk \<Rightarrow>
          let trimmedNewUsername = trim newUsername in
          if trimmedNewUsername = [] then Inr (s, [feedback sock ''Username cannot be empty.''])
          else if list_ex (\<lambda>u. snd u = trimmedNewUsername \<and> fst u \<noteq> sock) (p0_users s)
          then Inr (s, [feedback sock (''Username '' @ dquote @ trimmedNewUsername @ dquote
                                         @ '' is already taken.'')])
          else if truthy (sk_username sk)
          then
            (case rename_rooms (p0_sockets s) sock
                    (js_undefined (sk_username sk) @ '' is now '' @ trimmedNewUsername @ ''.'')
                    now (p0_rooms s) of
               Inl x \<Rightarrow> Inl x
             | Inr (rooms', out) \<Rightarrow>
                 Inr (s\<lparr>p0_users := AList.map_entry sock (\<lambda>_. trimmedNewUsername) (p0_users s),
                        p0_rooms := rooms',
                        p0_sockets := AList.update sock (sk\<lparr>sk_username := Some trimmedNewUsername\<rparr>)
                                        (p0_sockets s)\<rparr>,
                      out @ [([sock], UsernameUpdated trimmedNewUsername)]))
          else Inr (s, [feedback sock ''You must set an initial username first.'']))"

text \<open>
  The block ``leave current room if in one'' that the handlers of \<^verbatim>\<open>create room\<close>,
  \<^verbatim>\<open>join room by pin\<close> and \<^verbatim>\<open>switch room\<close> repeat: it takes the socket out of the old
  room and tells the old room; it appends nothing to the history, deletes no room and does
  not clear \<^verbatim>\<open>socket.currentRoomId\<close>.
\<close>

definition p0_left_event :: "p0_socket \<Rightarrow> rid \<Rightarrow> string \<Rightarrow> nat \<Rightarrow> event" where
  "p0_left_event sk cur verb now =
     \<lparr>ev_room = Some cur, ev_user = Some ''System'',
      ev_text = js_undefined (sk_username sk) @ verb,
      ev_timestamp = int now, ev_type = None\<rparr>"

definition p0_leave_old :: "p0_state \<Rightarrow> sid \<Rightarrow> p0_socket \<Rightarrow> nat \<Rightarrow> error + p0_state \<times> emit list" where
  "p0_leave_old s sock sk now =
     (if truthy (sk_currentRoomId sk)
      then
        (case map_of (p0_rooms s) (js_undefined (sk_currentRoomId sk)) of
           None \<Rightarrow> Inr (s, [])
         | Some oldRoom \<Rightarrow>
             let cur = js_undefined (sk_currentRoomId sk);
                 s1 = s\<lparr>p0_rooms := AList.update cur
                           (oldRoom\<lparr>p_users := set_delete sock (p_users oldRoom)\<rparr>) (p0_rooms s),
                        p0_sockets := AList.update sock
                           (sk\<lparr>sk_rooms := set_delete cur (sk_rooms sk)\<rparr>) (p0_sockets s)\<rparr>
             in
             (case names_of (p0_sockets s1) (set_delete sock (p_users oldRoom)) of
                Inl x \<Rightarrow> Inl x
              | Inr ns \<Rightarrow>
                  Inr (s1, [(io_to (p0_io s1) cur, ChatMessage (p0_left_event sk cur '' has left the room.'' now)),
                            (io_to (p0_io s1) cur, UpdateUserNames ns)])))
      else Inr (s, []))"

text \<open>
  The block that enters a room, repeated by the same three handlers: \<^verbatim>\<open>socket.join\<close>, add
  the socket id to the room, set \<^verbatim>\<open>socket.currentRoomId\<close>, append the system entry to the
  history, send \<^verbatim>\<open>room joined success\<close> to the socket and the user list to the room.
\<close>

definition p0_entry :: "p0_socket \<Rightarrow> string \<Rightarrow> nat \<Rightarrow> event" where
  "p0_entry sk verb now =
     \<lparr>ev_room = None, ev_user = None, ev_text = js_undefined (sk_username sk) @ verb,
      ev_timestamp = int now, ev_type = Some System\<rparr>"

definition p0_enter :: "p0_state \<Rightarrow> sid \<Rightarrow> rid \<Rightarrow> p0_room \<Rightarrow> string \<Rightarrow> nat \<Rightarrow> error + p0_state \<times> emit list" where
  "p0_enter s sock roomId rm verb now =
     (case map_of (p0_sockets s) sock of
        None \<Rightarrow> Inr (s, [])
      | Some sk \<Rightarrow>
          let rm' = rm\<lparr>p_users := set_add sock (p_users rm),
                        p_history := p_history rm @ [p0_entry sk verb now]\<rparr>;
              s' = s\<lparr>p0_rooms := AList.update roomId rm' (p0_rooms s),
                     p0_sockets := AList.update sock
                        (sk\<lparr>sk_rooms := set_add roomId (sk_rooms sk), sk_currentRoomId := Some roomId\<rparr>)
                        (p0_sockets s)\<rparr>
          in
          (case names_of (p0_sockets s') (p_users rm') of
             Inl x \<Rightarrow> Inl x
           | Inr ns \<Rightarrow>
               Inr (s', [([sock], RoomJoinedSuccessNames (p_name rm') (p_id rm') (p_history rm') ns),
                         (io_to (p0_io s') roomId, UpdateUserNames ns)])))"

definition p0_on_create_room :: "p0_state \<Rightarrow> sid \<Rightarrow> string \<Rightarrow> string option \<Rightarrow> nat \<Rightarrow> error + p0_state \<times> emit list" where
  "p0_on_create_room s sock nm pin now =
     (case map_of (p0_sockets s) sock of
        None \<Rightarrow> Inr (s, [])
      | Some sk \<Rightarrow>
          if \<not> truthy (sk_username sk) then Inr (s, [feedback sock ''Please set your username first.''])
          else
            let trimmedName = trim nm;
                trimmedPin = (if truthy pin then Some (trim (js_undefined pin)) else None)
            in
            if trimmedName = [] \<or> \<not> truthy trimmedPin
            then Inr (s, [feedback sock ''Room name and PIN cannot be empty.''])
            else if map_of (p0_rooms s) (js_undefined trimmedPin) \<noteq> None
            then Inr (s, [feedback sock (''Room with PIN '' @ dquote @ js_undefined trimmedPin @ dquote
                                           @ '' already exists.'')])
            else
              (case p0_leave_old s sock sk now of
                 Inl x \<Rightarrow> Inl x
               | Inr (s1, out1) \<Rightarrow>
                   (case p0_enter s1 sock (js_undefined trimmedPin)
                           \<lparr>p_id = js_undefined trimmedPin, p_name = trimmedName, p_pin = trimmedPin,
                            p_history = [], p_users = []\<rparr>
                           '' created and joined the room.'' now of
                      Inl x \<Rightarrow> Inl x
                    | Inr (s2, out2) \<Rightarrow>
                        Inr (s2, out1 @ out2 @ [(io_all (p0_io s2), UpdateRoomList (getRoomList s2))]))))"

definition p0_on_join_room_by_pin :: "p0_state \<Rightarrow> sid \<Rightarrow> string \<Rightarrow> nat \<Rightarrow> error + p0_state \<times> emit list" where
  "p0_on_join_room_by_pin s sock pin now =
     (case map_of (p0_sockets s) sock of
        None \<Rightarrow> Inr (s, [])
      | Some sk \<Rightarrow>
          if \<not> truthy (sk_username sk) then Inr (s, [feedback sock ''Please set your username first.''])
          else
            let trimmedPin = trim pin in
            if trimmedPin = [] then Inr (s, [feedback sock ''Please enter a room PIN/ID.''])
            else
              (case map_of (p0_rooms s) trimmedPin of
                 None \<Rightarrow> Inr (s, [feedback sock ''Room not found with that PIN.''])
               | Some roomToJoin \<Rightarrow>
                   if sk_currentRoomId sk = Some trimmedPin
                   then Inr (s, [feedback sock ''You are already in this room.''])
                   else
                     (case p0_leave_old s sock sk now of
                        Inl x \<Rightarrow> Inl x
                      | Inr (s1, out1) \<Rightarrow>
                          (case p0_enter s1 sock trimmedPin roomToJoin '' has joined the room.'' now of
                             Inl x \<Rightarrow> Inl x
                           | Inr (s2, out2) \<Rightarrow> Inr (s2, out1 @ out2)))))"

definition p0_on_switch_room :: "p0_state \<Rightarrow> sid \<Rightarrow> rid \<Rightarrow> nat \<Rightarrow> error + p0_state \<times> emit list" where
  "p0_on_switch_room s sock newRoomId now =
     (case map_of (p0_sockets s) sock of
        None \<Rightarrow> Inr (s, [])
      | Some sk \<Rightarrow>
          if \<not> truthy (sk_username sk) then Inr (s, [feedback sock ''Please set your username first.''])
          else
            (case map_of (p0_rooms s) newRoomId of
               None \<Rightarrow> Inr (s, [feedback sock ''Room not found.''])
             | Some roomToSwitchTo \<Rightarrow>
                 if sk_currentRoomId sk = Some newRoomId
                 then Inr (s, [feedback sock ''You are already in this room.''])
                 else
                   (case p0_leave_old s sock sk now of
                      Inl x \<Rightarrow> Inl x
                    | Inr (s1, out1) \<Rightarrow>
                        (case p0_enter s1 sock newRoomId roomToSwitchTo '' has joined the room.'' now of
                           Inl x \<Rightarrow> Inl x
                         | Inr (s2, out2) \<Rightarrow> Inr (s2, out1 @ out2)))))"

definition p0_on_leave_current_room :: "p0_state \<Rightarrow> sid \<Rightarrow> nat \<Rightarrow> error + p0_state \<times> emit list" where
  "p0_on_leave_current_room s sock now =
     (case map_of (p0_sockets s) sock of
        None \<Rightarrow> Inr (s, [])
      | Some sk \<Rightarrow>
          if truthy (sk_currentRoomId sk) \<and> map_of (p0_rooms s) (js_undefined (sk_currentRoomId sk)) \<noteq> None
          then
            (case p0_leave_old s sock sk now of
               Inl x \<Rightarrow> Inl x
             | Inr (s1, out1) \<Rightarrow>
                 Inr (s1\<lparr>p0_sockets := AList.map_entry sock (\<lambda>k. k\<lparr>sk_currentRoomId := None\<rparr>) (p0_sockets s1)\<rparr>,
                      out1 @ [([sock], EnteredLobby)]))
          else Inr (s, [feedback sock ''You are not currently in a room.'']))"

text \<open>
  The handlers of \<^verbatim>\<open>chat message\<close> and \<^verbatim>\<open>chat action\<close>: the payload \<^verbatim>\<open>data\<close> carries the
  fields \<^verbatim>\<open>room\<close>, \<^verbatim>\<open>text\<close> and \<^verbatim>\<open>timestamp\<close>.
\<close>

definition p0_post :: "kind \<Rightarrow> (event \<Rightarrow> payload) \<Rightarrow> p0_state \<Rightarrow> sid \<Rightarrow> rid \<Rightarrow> string \<Rightarrow> int
    \<Rightarrow> error + p0_state \<times> emit list" where
  "p0_post k notify s sock data_room data_text data_timestamp =
     (case map_of (p0_sockets s) sock of
        None \<Rightarrow> Inr (s, [])
      | Some sk \<Rightarrow>
          if truthy (sk_username sk) \<and> truthy (sk_currentRoomId sk)
          then
            (case map_of (p0_rooms s) (js_undefined (sk_currentRoomId sk)) of
               None \<Rightarrow> Inr (s, [])
             | Some rm \<Rightarrow>
                 let messageData = \<lparr>ev_room = Some data_room, ev_user = sk_username sk,
                                     ev_text = data_text, ev_timestamp = data_timestamp, ev_type = Some k\<rparr>;
                     s' = s\<lparr>p0_rooms := AList.update (js_undefined (sk_currentRoomId sk))
                                (rm\<lparr>p_history := p_history rm @ [messageData]\<rparr>) (p0_rooms s)\<rparr>
                 in Inr (s', [(io_to (p0_io s') data_room, notify messageData)]))
          else Inr (s, []))"

definition p0_on_chat_message :: "p0_state \<Rightarrow> sid \<Rightarrow> rid \<Rightarrow> string \<Rightarrow> int \<Rightarrow> error + p0_state \<times> emit list" where
  "p0_on_chat_message = p0_post Message ChatMessage"

definition p0_on_chat_action :: "p0_state \<Rightarrow> sid \<Rightarrow> rid \<Rightarrow> string \<Rightarrow> int \<Rightarrow> error + p0_state \<times> emit list" where
  "p0_on_chat_action = p0_post Action ChatAction"

definition p0_typing_signal :: "(string \<Rightarrow> rid \<Rightarrow> payload) \<Rightarrow> p0_state \<Rightarrow> sid \<Rightarrow> rid \<Rightarrow> error + p0_state \<times> emit list" where
  "p0_typing_signal notify s sock roomId =
     (case map_of (p0_sockets s) sock of
        None \<Rightarrow> Inr (s, [])
      | Some sk \<Rightarrow>
          if truthy (sk_username sk) \<and> sk_currentRoomId sk = Some roomId \<and> map_of (p0_rooms s) roomId \<noteq> None
          then Inr (s, [(socket_to (p0_io s) sock roomId, notify (js_undefined (sk_username sk)) roomId)])
          else Inr (s, []))"

definition p0_on_typing :: "p0_state \<Rightarrow> sid \<Rightarrow> rid \<Rightarrow> error + p0_state \<times> emit list" where
  "p0_on_typing = p0_typing_signal UserTyping"

definition p0_on_stop_typing :: "p0_state \<Rightarrow> sid \<Rightarrow> rid \<Rightarrow> error + p0_state \<times> emit list" where
  "p0_on_stop_typing = p0_typing_signal UserStopTyping"

text \<open>\<^verbatim>\<open>findIndex\<close> and \<^verbatim>\<open>splice(userIndex, 1)\<close>: the first entry of the socket goes.\<close>

fun splice_first :: "sid \<Rightarrow> (sid \<times> string) list \<Rightarrow> (sid \<times> string) list" where
  "splice_first k [] = []"
| "splice_first k (u # us) = (if fst u = k then us else u # splice_first k us)"

definition p0_on_disconnect :: "p0_state \<Rightarrow> sid \<Rightarrow> nat \<Rightarrow> error + p0_state \<times> emit list" where
  "p0_on_disconnect s sock now =
     (case map_of (p0_sockets s) sock of
        None \<Rightarrow> Inr (s, [])
      | Some sk \<Rightarrow>
          let s0 = s\<lparr>p0_sockets := AList.delete sock (p0_sockets s),
                     p0_users := splice_first sock (p0_users s)\<rparr>
          in
          if truthy (sk_currentRoomId sk)
          then
            (case map_of (p0_rooms s0) (js_undefined (sk_currentRoomId sk)) of
               None \<Rightarrow> Inr (s0, [])
             | Some rm \<Rightarrow>
                 let cur = js_undefined (sk_currentRoomId sk);
                     rm' = rm\<lparr>p_users := set_delete sock (p_users rm)\<rparr>;
                     s1 = s0\<lparr>p0_rooms := AList.update cur rm' (p0_rooms s0)\<rparr>
                 in
                 (case names_of (p0_sockets s1) (p_users rm') of
                    Inl x \<Rightarrow> Inl x
                  | Inr ns \<Rightarrow>
                      let out1 = [(io_to (p0_io s1) cur, ChatMessage (p0_left_event sk cur '' has disconnected.'' now)),
                                  (io_to (p0_io s1) cur, UpdateUserNames ns)]
                      in
                      if p_users rm' = [] \<and> p_id rm' \<noteq> ''general''
                      then
                        let s2 = s1\<lparr>p0_rooms := AList.delete (p_id rm') (p0_rooms s1)\<rparr>
                        in Inr (s2, out1 @ [(io_all (p0_io s2), UpdateRoomList (getRoomList s2))])
                      else Inr (s1, out1)))
          else Inr (s0, []))"

datatype p0_inbound =
    P0_Connection sid
  | P0_SetInitialUsername sid string
  | P0_ChangeUsername sid string nat
  | P0_CreateRoom sid string "string option" nat
  | P0_JoinRoomByPin sid string nat
  | P0_SwitchRoom sid rid nat
  | P0_LeaveCurrentRoom sid nat
  | P0_ChatMessageIn sid rid string int
  | P0_ChatActionIn sid rid string int
  | P0_Typing sid rid
  | P0_StopTyping sid rid
  | P0_Disconnect sid nat

fun p0_handle :: "p0_state \<Rightarrow> p0_inbound \<Rightarrow> error + p0_state \<times> emit list" where
  "p0_handle s (P0_Connection k) = p0_on_connection s k"
| "p0_handle s (P0_SetInitialUsername k n) = p0_on_set_initial_username s k n"
| "p0_handle s (P0_ChangeUsername k n now) = p0_on_change_username s k n now"
| "p0_handle s (P0_CreateRoom k n p now) = p0_on_create_room s k n p now"
| "p0_handle s (P0_JoinRoomByPin k p now) = p0_on_join_room_by_pin s k p now"
| "p0_handle s (P0_SwitchRoom k r now) = p0_on_switch_room s k r now"
| "p0_handle s (P0_LeaveCurrentRoom k now) = p0_on_leave_current_room s k now"
| "p0_handle s (P0_ChatMessageIn k r t ts) = p0_on_chat_message s k r t ts"
| "p0_handle s (P0_ChatActionIn k r t ts) = p0_on_chat_action s k r t ts"
| "p0_handle s (P0_Typing k r) = p0_on_typing s k r"
| "p0_handle s (P0_StopTyping k r) = p0_on_stop_typing s k r"
| "p0_handle s (P0_Disconnect k now) = p0_on_disconnect s k now"

fun p0_run :: "p0_state \<Rightarrow> p0_inbound list \<Rightarrow> error + p0_state" where
  "p0_run s [] = Inr s"
| "p0_run s (e # es) = (case p0_handle s e of Inl x \<Rightarrow> Inl x | Inr (s', out) \<Rightarrow> p0_run s' es)"

section \<open>Properties and concrete states\<close>

text \<open>
  The names of the sessions of \<^verbatim>\<open>server.js\<close> whose current room is \<open>roomId\<close>, and the
  membership invariant of the data model: the member set of every room is exactly that set
  of names.
\<close>

definition sessionNames :: "state \<Rightarrow> rid \<Rightarrow> string list" where
  "sessionNames s roomId =
     List.map_filter (\<lambda>u. if currentRoomId u = Some roomId then username u else None)
       (map snd (users s))"

definition members_exact :: "state \<Rightarrow> bool" where
  "members_exact s =
     list_all (\<lambda>e. set (usersInRoom (snd e)) = set (sessionNames s (fst e))) (rooms s)"

text \<open>The same for the second server, whose rooms hold socket ids.\<close>

definition p0_sessions_in :: "p0_state \<Rightarrow> rid \<Rightarrow> sid list" where
  "p0_sessions_in s roomId =
     map fst (filter (\<lambda>e. sk_currentRoomId (snd e) = Some roomId) (p0_sockets s))"

definition p0_members_exact :: "p0_state \<Rightarrow> bool" where
  "p0_members_exact s =
     list_all (\<lambda>e. set (p_users (snd e)) = set (p0_sessions_in s (fst e))) (p0_rooms s)"

text \<open>Every member of a room of the second server is a connected socket.\<close>

definition p0_members_connected :: "p0_state \<Rightarrow> bool" where
  "p0_members_connected s =
     list_all (\<lambda>e. list_all (\<lambda>m. map_of (p0_sockets s) m \<noteq> None) (p_users (snd e))) (p0_rooms s)"

text \<open>Whether a session of \<^verbatim>\<open>server.js\<close> has a display name.\<close>

definition named :: "state \<Rightarrow> sid \<Rightarrow> bool" where
  "named s k = truthy (case map_of (users s) k of None \<Rightarrow> None | Some u \<Rightarrow> username u)"

text \<open>Whether a notification carries a given event as a chat message.\<close>

definition carries :: "event \<Rightarrow> emit \<Rightarrow> bool" where
  "carries ev e = (snd e = ChatMessage ev)"

subsection \<open>States of server.js\<close>

definition general_empty :: room where
  "general_empty = \<lparr>r_name = ''General'', r_pin = None, r_history = [], usersInRoom = []\<rparr>"

definition alice_joined :: event where
  "alice_joined = \<lparr>ev_room = Some ''general'', ev_user = None,
      ev_text = ''<strong>alice</strong> has joined the room.'', ev_timestamp = 1,
      ev_type = Some System\<rparr>"

definition general_alice :: room where
  "general_alice = \<lparr>r_name = ''General'', r_pin = None, r_history = [alice_joined],
      usersInRoom = [''alice'']\<rparr>"

definition plans :: room where
  "plans = \<lparr>r_name = ''Plans'', r_pin = Some ''1234'', r_history = [], usersInRoom = []\<rparr>"

text \<open>One connection \<open>A\<close>, which has not claimed a name.\<close>

definition s_anon :: state where
  "s_anon = \<lparr>users = [(''A'', \<lparr>username = None, currentRoomId = None\<rparr>)],
      rooms = [(''general'', general_empty)],
      userSocketRooms = [(''A'', [])], io_sockets = [(''A'', [''A''])]\<rparr>"

text \<open>\<open>A\<close> has claimed the name alice and was put in the default room.\<close>

definition s_alice :: state where
  "s_alice = \<lparr>users = [(''A'', \<lparr>username = Some ''alice'', currentRoomId = Some ''general''\<rparr>)],
      rooms = [(''general'', general_alice)],
      userSocketRooms = [(''A'', [''general''])], io_sockets = [(''A'', [''A'', ''general''])]\<rparr>"

text \<open>\<open>A\<close> has then sent \<^verbatim>\<open>set initial username\<close> again, with the name bob.\<close>

definition s_ghost :: state where
  "s_ghost = s_alice\<lparr>users := [(''A'', \<lparr>username = Some ''bob'', currentRoomId = Some ''general''\<rparr>)]\<rparr>"

text \<open>alice has created the room Plans with the PIN 1234 when the clock read 5.\<close>

definition s_plans :: state where
  "s_plans = s_alice\<lparr>rooms := [(''general'', general_alice), (''room-5'', plans)]\<rparr>"

text \<open>
  alice in the default room, and a second connection \<open>B\<close> that got the name bob through
  \<^verbatim>\<open>change username\<close> and is in no room.
\<close>

definition s_guest :: state where
  "s_guest = \<lparr>users = [(''A'', \<lparr>username = Some ''alice'', currentRoomId = Some ''general''\<rparr>),
                        (''B'', \<lparr>username = Some ''bob'', currentRoomId = None\<rparr>)],
      rooms = [(''general'', general_alice)],
      userSocketRooms = [(''A'', [''general'']), (''B'', [])],
      io_sockets = [(''A'', [''A'', ''general'']), (''B'', [''B''])]\<rparr>"

subsection \<open>States of the second server\<close>

definition p_general :: p0_room where
  "p_general = \<lparr>p_id = ''general'', p_name = ''General'', p_pin = None, p_history = [], p_users = []\<rparr>"

definition p_created :: event where
  "p_created = \<lparr>ev_room = None, ev_user = None, ev_text = ''alice created and joined the room.'',
      ev_timestamp = 5, ev_type = Some System\<rparr>"

definition p_plans :: p0_room where
  "p_plans = \<lparr>p_id = ''1234'', p_name = ''Plans'', p_pin = Some ''1234'', p_history = [p_created],
      p_users = [''A'']\<rparr>"

definition p_bob_joined :: event where
  "p_bob_joined = \<lparr>ev_room = None, ev_user = None, ev_text = ''bob has joined the room.'',
      ev_timestamp = 6, ev_type = Some System\<rparr>"

text \<open>alice has claimed her name and is in the lobby; \<open>B\<close> has connected.\<close>

definition p_lobby :: p0_state where
  "p_lobby = \<lparr>p0_users = [(''A'', ''alice'')],
      p0_rooms = [(''general'', p_general)],
      p0_sockets = [(''A'', \<lparr>sk_username = Some ''alice'', sk_currentRoomId = None, sk_rooms = [''A'']\<rparr>),
                    (''B'', \<lparr>sk_username = None, sk_currentRoomId = None, sk_rooms = [''B'']\<rparr>)]\<rparr>"

text \<open>alice alone, in the room she created with the PIN 1234.\<close>

definition p_alone :: p0_state where
  "p_alone = \<lparr>p0_users = [(''A'', ''alice'')],
      p0_rooms = [(''general'', p_general), (''1234'', p_plans)],
      p0_sockets = [(''A'', \<lparr>sk_username = Some ''alice'', sk_currentRoomId = Some ''1234'',
                              sk_rooms = [''A'', ''1234'']\<rparr>)]\<rparr>"

text \<open>alice in her room Plans, bob in the default room.\<close>

definition p_two :: p0_state where
  "p_two = \<lparr>p0_users = [(''A'', ''alice''), (''B'', ''bob'')],
      p0_rooms = [(''general'', p_general\<lparr>p_history := [p_bob_joined], p_users := [''B'']\<rparr>),
                  (''1234'', p_plans)],
      p0_sockets = [(''A'', \<lparr>sk_username = Some ''alice'', sk_currentRoomId = Some ''1234'',
                              sk_rooms = [''A'', ''1234'']\<rparr>),
                    (''B'', \<lparr>sk_username = Some ''bob'', sk_currentRoomId = Some ''general'',
                              sk_rooms = [''B'', ''general'']\<rparr>)]\<rparr>"

text \<open>alice in her room Plans, bob named and in the lobby.\<close>

definition p_pair :: p0_state where
  "p_pair = \<lparr>p0_users = [(''A'', ''alice''), (''B'', ''bob'')],
      p0_rooms = [(''general'', p_general), (''1234'', p_plans)],
      p0_sockets = [(''A'', \<lparr>sk_username = Some ''alice'', sk_currentRoomId = Some ''1234'',
                              sk_rooms = [''A'', ''1234'']\<rparr>),
                    (''B'', \<lparr>sk_username = Some ''bob'', sk_currentRoomId = None, sk_rooms = [''B'']\<rparr>)]\<rparr>"

text \<open>alice and bob, both named and in the lobby.\<close>

definition p_both :: p0_state where
  "p_both = \<lparr>p0_users = [(''A'', ''alice''), (''B'', ''bob'')],
      p0_rooms = [(''general'', p_general)],
      p0_sockets = [(''A'', \<lparr>sk_username = Some ''alice'', sk_currentRoomId = None, sk_rooms = [''A'']\<rparr>),
                    (''B'', \<lparr>sk_username = Some ''bob'', sk_currentRoomId = None, sk_rooms = [''B'']\<rparr>)]\<rparr>"

text \<open>alice has disconnected from \<open>p_pair\<close>: her room is gone, bob is in the lobby.\<close>

definition p_bob :: p0_state where
  "p_bob = \<lparr>p0_users = [(''B'', ''bob'')],
      p0_rooms = [(''general'', p_general)],
      p0_sockets = [(''B'', \<lparr>sk_username = Some ''bob'', sk_currentRoomId = None, sk_rooms = [''B'']\<rparr>)]\<rparr>"

text \<open>bob has joined the room of alice from \<open>p_pair\<close>, by its PIN, when the clock read 7.\<close>

definition p_bob_joined_plans :: event where
  "p_bob_joined_plans = \<lparr>ev_room = None, ev_user = None, ev_text = ''bob has joined the room.'',
      ev_timestamp = 7, ev_type = Some System\<rparr>"

definition p_joined :: p0_state where
  "p_joined = \<lparr>p0_users = [(''A'', ''alice''), (''B'', ''bob'')],
      p0_rooms = [(''general'', p_general),
                  (''1234'', p_plans\<lparr>p_history := [p_created, p_bob_joined_plans],
                                      p_users := [''A'', ''B'']\<rparr>)],
      p0_sockets = [(''A'', \<lparr>sk_username = Some ''alice'', sk_currentRoomId = Some ''1234'',
                              sk_rooms = [''A'', ''1234'']\<rparr>),
                    (''B'', \<lparr>sk_username = Some ''bob'', sk_currentRoomId = Some ''1234'',
                              sk_rooms = [''B'', ''1234'']\<rparr>)]\<rparr>"


text \<open>
  Two connections of \<^verbatim>\<open>server.js\<close> in the lobby: \<open>A\<close> without a name, \<open>B\<close> with the name
  bob, which it got through \<^verbatim>\<open>change username\<close>.
\<close>

definition s_pair :: state where
  "s_pair = \<lparr>users = [(''A'', \<lparr>username = None, currentRoomId = None\<rparr>),
                       (''B'', \<lparr>username = Some ''bob'', currentRoomId = None\<rparr>)],
      rooms = [(''general'', general_empty)],
      userSocketRooms = [(''A'', []), (''B'', [])],
      io_sockets = [(''A'', [''A'']), (''B'', [''B''])]\<rparr>"
section \<open>Runs and invariants\<close>

text \<open>
  Socket.IO gives every connection a socket id of its own and delivers the events of a
  socket between its \<^verbatim>\<open>connection\<close> and its \<^verbatim>\<open>disconnect\<close>: an inbound event is admissible
  in a state when it is the connection of a socket id that is not connected, or comes
  from a connected socket. A state is reachable when a run of admissible events, none of
  which throws, leads to it from the initial state.
\<close>

fun p0_sender :: "p0_inbound \<Rightarrow> sid" where
  "p0_sender (P0_Connection k) = k"
| "p0_sender (P0_SetInitialUsername k n) = k"
| "p0_sender (P0_ChangeUsername k n now) = k"
| "p0_sender (P0_CreateRoom k n p now) = k"
| "p0_sender (P0_JoinRoomByPin k p now) = k"
| "p0_sender (P0_SwitchRoom k r now) = k"
| "p0_sender (P0_LeaveCurrentRoom k now) = k"
| "p0_sender (P0_ChatMessageIn k r t ts) = k"
| "p0_sender (P0_ChatActionIn k r t ts) = k"
| "p0_sender (P0_Typing k r) = k"
| "p0_sender (P0_StopTyping k r) = k"
| "p0_sender (P0_Disconnect k now) = k"

definition p0_admissible :: "p0_state \<Rightarrow> p0_inbound \<Rightarrow> bool" where
  "p0_admissible s e =
     (case e of
        P0_Connection k \<Rightarrow> map_of (p0_sockets s) k = None
      | _ \<Rightarrow> map_of (p0_sockets s) (p0_sender e) \<noteq> None)"

inductive p0_reachable :: "p0_state \<Rightarrow> bool" where
  p0_reachable_init: "p0_reachable p0_init"
| p0_reachable_step: "p0_reachable s \<Longrightarrow> p0_admissible s e \<Longrightarrow> p0_handle s e = Inr (s', out)
    \<Longrightarrow> p0_reachable s'"

text \<open>
  The invariant of the second server, on the maps that the two lists stand for: the keys
  are distinct, every room is stored under its own id, its members are exactly the
  connected sockets whose current room it is, and the current room of every socket exists.
\<close>

definition p0_room_ok :: "(sid \<rightharpoonup> p0_socket) \<Rightarrow> rid \<Rightarrow> p0_room \<Rightarrow> bool" where
  "p0_room_ok S r rm =
     (r \<noteq> [] \<and> p_id rm = r
      \<and> set (p_users rm) = {k. \<exists>sk. S k = Some sk \<and> sk_currentRoomId sk = Some r})"

definition p0_inv :: "p0_state \<Rightarrow> bool" where
  "p0_inv s =
     (distinct (map fst (p0_sockets s)) \<and> distinct (map fst (p0_rooms s))
      \<and> (\<forall>r rm. map_of (p0_rooms s) r = Some rm \<longrightarrow> p0_room_ok (map_of (p0_sockets s)) r rm)
      \<and> (\<forall>k sk c. map_of (p0_sockets s) k = Some sk \<longrightarrow> sk_currentRoomId sk = Some c \<longrightarrow>
            map_of (p0_rooms s) c \<noteq> None))"


text \<open>A run all of whose events are admissible where they arrive, and none of which throws.\<close>

fun p0_admissible_run :: "p0_state \<Rightarrow> p0_inbound list \<Rightarrow> bool" where
  "p0_admissible_run s [] = True"
| "p0_admissible_run s (e # es) =
     (p0_admissible s e
      \<and> (case p0_handle s e of Inl x \<Rightarrow> False | Inr (s', out) \<Rightarrow> p0_admissible_run s' es))"

subsection \<open>The rooms created in a run\<close>

text \<open>
  A \<^verbatim>\<open>create room\<close> event is a successful creation when its handler returns and the room
  with the id it generated is registered afterwards and was not before. \<open>created\<close> is the
  list of the ids so registered by one event, which is empty or holds the one id, and
  \<open>created_ids\<close> collects them along a run, in order.
\<close>

definition created :: "state \<Rightarrow> inbound \<Rightarrow> rid list" where
  "created s e =
     (case e of
        CreateRoom k nm pin now \<Rightarrow>
          (case on_create_room s k nm pin now of
             Inl x \<Rightarrow> []
           | Inr (s', out) \<Rightarrow>
               if map_of (rooms s) (room_id_of now) = None \<and> map_of (rooms s') (room_id_of now) \<noteq> None
               then [room_id_of now] else [])
      | _ \<Rightarrow> [])"




subsection \<open>An invariant of server.js\<close>

text \<open>
  Every room of \<^verbatim>\<open>server.js\<close> other than the default room has a PIN, and every session is in
  the lobby or in the default room.
\<close>

definition pin_ok :: "rid \<times> room \<Rightarrow> bool" where
  "pin_ok e = (fst e = GENERAL_ROOM_ID \<or> truthy (r_pin (snd e)))"

definition lobby_or_general :: "sid \<times> user \<Rightarrow> bool" where
  "lobby_or_general e =
     (currentRoomId (snd e) = None \<or> currentRoomId (snd e) = Some GENERAL_ROOM_ID)"

definition srv_inv :: "state \<Rightarrow> bool" where
  "srv_inv s = (list_all pin_ok (rooms s) \<and> list_all lobby_or_general (users s))"
section \<open>The concrete states are reachable\<close>

lemma reach_s_anon: "run init [Connection ''A''] = Inr s_anon"
  by code_simp

lemma reach_s_alice: "run init [Connection ''A'', SetInitialUsername ''A'' ''alice'' 1] = Inr s_alice"
  by code_simp

lemma reach_s_plans:
  "run init [Connection ''A'', SetInitialUsername ''A'' ''alice'' 1,
             CreateRoom ''A'' ''Plans'' ''1234'' 5] = Inr s_plans"
  by code_simp

lemma reach_s_guest:
  "run init [Connection ''A'', SetInitialUsername ''A'' ''alice'' 1, Connection ''B'',
             ChangeUsername ''B'' ''bob'' 2] = Inr s_guest"
  by code_simp

lemma reach_s_pair:
  "run init [Connection ''A'', Connection ''B'', ChangeUsername ''B'' ''bob'' 2] = Inr s_pair"
  by code_simp

lemma reach_p_lobby:
  "p0_run p0_init [P0_Connection ''A'', P0_SetInitialUsername ''A'' ''alice'', P0_Connection ''B'']
     = Inr p_lobby"
  by code_simp

lemma reach_p_alone:
  "p0_run p0_init [P0_Connection ''A'', P0_SetInitialUsername ''A'' ''alice'',
                   P0_CreateRoom ''A'' ''Plans'' (Some ''1234'') 5] = Inr p_alone"
  by code_simp

lemma reach_p_both:
  "p0_run p0_init [P0_Connection ''A'', P0_Connection ''B'', P0_SetInitialUsername ''A'' ''alice'',
                   P0_SetInitialUsername ''B'' ''bob''] = Inr p_both"
  by code_simp

lemma reach_p_pair:
  "p0_run p_both [P0_CreateRoom ''A'' ''Plans'' (Some ''1234'') 5] = Inr p_pair"
  by code_simp

lemma reach_p_two:
  "p0_run p_pair [P0_SwitchRoom ''B'' ''general'' 6] = Inr p_two"
  by code_simp

lemma reach_p_bob:
  "p0_run p_pair [P0_Disconnect ''A'' 6] = Inr p_bob"
  by code_simp

subsection \<open>Values at the concrete inputs\<close>

lemma trim_alice_spaces: "trim '' alice '' = ''alice''"
  by code_simp

lemma trim_alice: "trim ''alice'' = ''alice''"
  by code_simp

lemma trim_bob: "trim ''bob'' = ''bob''"
  by code_simp


lemma trim_nbsp: "trim [CHR 0xA0, CHR ''a'', CHR 0xA0] = ''a'' \<and> trim [CHR 0xA0] = []"
  by code_simp

lemma trim_blank: "trim ''  '' = []"
  by code_simp

lemma trim_Plans: "trim ''Plans'' = ''Plans''"
  by code_simp

lemma trim_1234: "trim ''1234'' = ''1234''"
  by code_simp


lemma room_id_5: "room_id_of 5 = ''room-5''"
  by code_simp


lemma connected_p_pair: "p0_members_connected p_pair"
  by code_simp

lemma connected_p_both: "p0_members_connected p_both"
  by code_simp

lemma connected_p_lobby: "p0_members_connected p_lobby"
  by code_simp

section \<open>Lemmas on the maps\<close>

lemma update_fresh: "map_of al k = None \<Longrightarrow> AList.update k v al = al @ [(k, v)]"
  by (induction al) (auto split: if_splits)

lemma list_all_set_delete: "list_all P xs \<Longrightarrow> list_all P (set_delete x xs)"
  by (simp add: set_delete_def list_all_iff)

section \<open>Lemmas on server.js\<close>

lemma room_id_not_general: "room_id_of now \<noteq> GENERAL_ROOM_ID"
  by (simp add: room_id_of_def GENERAL_ROOM_ID_def)

lemma joinRoom_pin_rejects:
  assumes "map_of (rooms s) r = Some rm" "truthy (r_pin rm)" "r \<noteq> GENERAL_ROOM_ID"
  shows "joinRoom s k r None now =
         Inr (s, [feedback k (if named s k then ''Incorrect PIN for this room.''
                              else ''Please set your username first.'')])"
  using assms
  by (auto simp: joinRoom_def truthy_def named_def split: option.splits)

lemma leaveRoom_ok:
  assumes "map_of (userSocketRooms s) k = Some js"
  shows "\<exists>s1 out1. leaveRoom s k c d now = Inr (s1, out1)"
  using assms by (simp add: leaveRoom_def Let_def split: option.splits)

lemma leaveRoom_userSocketRooms:
  assumes "leaveRoom s k c d now = Inr (s1, out1)" "map_of (userSocketRooms s) k \<noteq> None"
  shows "map_of (userSocketRooms s1) k \<noteq> None"
  using assms
  by (auto simp: leaveRoom_def Let_def update_conv' split: option.splits if_splits)

lemma leaveRoom_rooms:
  assumes "leaveRoom s k c d now = Inr (s1, out1)" "r \<noteq> c"
  shows "map_of (rooms s1) r = map_of (rooms s) r"
  using assms
  by (auto simp: leaveRoom_def Let_def update_conv' delete_conv' split: option.splits if_splits)

lemma leaveRoom_silent:
  assumes "leaveRoom s k c d now = Inr (s1, out1)" "ev_room ev \<noteq> Some c"
  shows "list_all (\<lambda>e. \<not> carries ev e) out1"
  using assms
  by (auto simp: leaveRoom_def Let_def carries_def leaveMessage_def broadcastUserList_def
        broadcastRoomList_def split: option.splits if_splits)

lemma leave_previous_ok:
  assumes "map_of (userSocketRooms s) k = Some js"
  shows "\<exists>s1 out1. leave_previous s k c now = Inr (s1, out1)"
  using assms leaveRoom_ok [OF assms]
  by (auto simp: leave_previous_def split: option.splits)

lemma leave_previous_userSocketRooms:
  assumes "leave_previous s k c now = Inr (s1, out1)" "map_of (userSocketRooms s) k \<noteq> None"
  shows "map_of (userSocketRooms s1) k \<noteq> None"
  using assms leaveRoom_userSocketRooms
  by (auto simp: leave_previous_def split: option.splits if_splits)

lemma leave_previous_silent:
  assumes "leave_previous s k c now = Inr (s1, out1)" "ev_room ev \<noteq> c"
  shows "list_all (\<lambda>e. \<not> carries ev e) out1"
  using assms leaveRoom_silent [of s k _ False now s1 out1 ev]
  by (auto simp: leave_previous_def split: option.splits if_splits)

lemma enterRoom_ok:
  assumes "map_of (userSocketRooms s) k = Some js"
  shows "\<exists>s2. enterRoom s k t r rm now =
      Inr (s2, [([k], RoomJoinedSuccess (r_name rm) r (r_history rm @ [joinMessage t r now])
                         (set_add t (usersInRoom rm))),
                (socket_to (io_sockets s2) k r, ChatMessage (joinMessage t r now)),
                (io_to (io_sockets s2) r, UpdateUserList r (set_add t (usersInRoom rm)))])
      \<and> map_of (users s2) k = Some \<lparr>username = Some t, currentRoomId = Some r\<rparr>
      \<and> map_of (rooms s2) r = Some (rm\<lparr>usersInRoom := set_add t (usersInRoom rm),
                                         r_history := r_history rm @ [joinMessage t r now]\<rparr>)"
  using assms
  by (simp add: enterRoom_def Let_def update_conv' getUsersInRoom_def broadcastUserList_def)

text \<open>
  The successful path of \<^const>\<open>joinRoom\<close>: the session is named, the room exists, the PIN
  check passes and the session is not in the room yet.
\<close>

lemma joinRoom_enters:
  assumes "map_of (users s) k = Some u" "username u = Some t" "t \<noteq> []"
    and "map_of (rooms s) r = Some rm"
    and "\<not> (truthy (r_pin rm) \<and> r_pin rm \<noteq> pin \<and> r \<noteq> GENERAL_ROOM_ID)"
    and "currentRoomId u \<noteq> Some r"
    and "map_of (userSocketRooms s) k = Some js"
  shows "\<exists>s1 out1 s2 out2. leave_previous s k (currentRoomId u) now = Inr (s1, out1)
           \<and> map_of (userSocketRooms s1) k \<noteq> None
           \<and> enterRoom s1 k t r rm now = Inr (s2, out2)
           \<and> joinRoom s k r pin now = Inr (s2, out1 @ out2)"
proof -
  obtain s1 out1 where l: "leave_previous s k (currentRoomId u) now = Inr (s1, out1)"
    using leave_previous_ok [OF assms(7)] by blast
  then have u1: "map_of (userSocketRooms s1) k \<noteq> None"
    using assms(7) by (auto dest: leave_previous_userSocketRooms)
  then obtain js1 where "map_of (userSocketRooms s1) k = Some js1" by auto
  then obtain s2 out2 where e: "enterRoom s1 k t r rm now = Inr (s2, out2)"
    using enterRoom_ok by blast
  have "joinRoom s k r pin now = Inr (s2, out1 @ out2)"
    using assms l e by (auto simp: joinRoom_def)
  with l e u1 show ?thesis by blast
qed



lemma server_create_fresh:
  assumes "trim nm \<noteq> []" "trim pin \<noteq> []" "map_of (rooms s) (room_id_of now) = None"
  shows "\<exists>out. on_create_room s k nm pin now =
           Inr (s\<lparr>rooms := rooms s @ [(room_id_of now,
                  \<lparr>r_name = trim nm, r_pin = Some (trim pin), r_history = [], usersInRoom = []\<rparr>)]\<rparr>, out)"
proof -
  let ?rm = "\<lparr>r_name = trim nm, r_pin = Some (trim pin), r_history = [], usersInRoom = []\<rparr>"
  let ?s1 = "s\<lparr>rooms := AList.update (room_id_of now) ?rm (rooms s)\<rparr>"
  have "map_of (rooms ?s1) (room_id_of now) = Some ?rm"
    by (simp add: update_conv')
  moreover have "truthy (r_pin ?rm)"
    using assms by (simp add: truthy_def)
  ultimately have "joinRoom ?s1 k (room_id_of now) None now =
      Inr (?s1, [feedback k (if named ?s1 k then ''Incorrect PIN for this room.''
                             else ''Please set your username first.'')])"
    using room_id_not_general by (rule joinRoom_pin_rejects)
  then show ?thesis
    using assms by (simp add: on_create_room_def Let_def update_fresh)
qed

section \<open>Lemmas on the second server\<close>

lemma names_of_ok:
  "list_all (\<lambda>m. map_of socks m \<noteq> None) ms \<Longrightarrow> \<exists>ns. names_of socks ms = Inr ns"
  by (induction ms) auto

lemma connected_update:
  "map_of socks k \<noteq> None \<Longrightarrow> list_all (\<lambda>m. map_of socks m \<noteq> None) ms
     \<Longrightarrow> list_all (\<lambda>m. map_of (AList.update k v socks) m \<noteq> None) ms"
  by (simp add: update_conv' list_all_iff)

lemma members_connectedD:
  "p0_members_connected s \<Longrightarrow> map_of (p0_rooms s) r = Some rm
     \<Longrightarrow> list_all (\<lambda>m. map_of (p0_sockets s) m \<noteq> None) (p_users rm)"
  by (auto simp: p0_members_connected_def list_all_iff dest!: map_of_SomeD)

lemma p0_leave_old_ok:
  assumes "p0_members_connected s" "map_of (p0_sockets s) k = Some sk"
  shows "\<exists>s1 out1. p0_leave_old s k sk now = Inr (s1, out1)"
proof (cases "truthy (sk_currentRoomId sk)")
  case False
  then show ?thesis by (simp add: p0_leave_old_def)
next
  case True
  show ?thesis
  proof (cases "map_of (p0_rooms s) (js_undefined (sk_currentRoomId sk))")
    case None
    then show ?thesis using True by (simp add: p0_leave_old_def)
  next
    case (Some oldRoom)
    let ?socks = "AList.update k
        (sk\<lparr>sk_rooms := set_delete (js_undefined (sk_currentRoomId sk)) (sk_rooms sk)\<rparr>) (p0_sockets s)"
    have "list_all (\<lambda>m. map_of (p0_sockets s) m \<noteq> None) (p_users oldRoom)"
      using assms(1) Some by (rule members_connectedD)
    then have "list_all (\<lambda>m. map_of ?socks m \<noteq> None) (set_delete k (p_users oldRoom))"
      using assms(2) by (intro connected_update list_all_set_delete) auto
    then obtain ns where "names_of ?socks (set_delete k (p_users oldRoom)) = Inr ns"
      using names_of_ok by blast
    then show ?thesis
      using True Some by (simp add: p0_leave_old_def Let_def)
  qed
qed

lemma p0_leave_old_socket:
  assumes "p0_leave_old s k sk now = Inr (s1, out1)" "map_of (p0_sockets s) k = Some sk"
  shows "\<exists>sk1. map_of (p0_sockets s1) k = Some sk1 \<and> sk_username sk1 = sk_username sk
            \<and> sk_currentRoomId sk1 = sk_currentRoomId sk"
  using assms
  by (auto simp: p0_leave_old_def Let_def update_conv' split: if_splits option.splits sum.splits)

lemma p0_leave_old_keys:
  assumes "p0_leave_old s k sk now = Inr (s1, out1)" "map_of (p0_sockets s) k = Some sk"
  shows "(map_of (p0_sockets s1) m = None) = (map_of (p0_sockets s) m = None)"
  using assms
  by (auto simp: p0_leave_old_def Let_def update_conv' split: if_splits option.splits sum.splits)

lemma p0_leave_old_silent:
  assumes "p0_leave_old s k sk now = Inr (s1, out1)" "ev_user ev = None"
  shows "list_all (\<lambda>e. \<not> carries ev e) out1"
  using assms
  by (auto simp: p0_leave_old_def Let_def carries_def p0_left_event_def
        split: if_splits option.splits sum.splits)

lemma p0_enter_ok:
  assumes "map_of (p0_sockets s) k = Some sk"
    and "list_all (\<lambda>m. map_of (p0_sockets s) m \<noteq> None) (p_users rm)"
  shows "\<exists>s' ns. p0_enter s k r rm verb now =
      Inr (s', [([k], RoomJoinedSuccessNames (p_name rm) (p_id rm)
                        (p_history rm @ [p0_entry sk verb now]) ns),
                (io_to (p0_io s') r, UpdateUserNames ns)])
      \<and> map_of (p0_sockets s') k =
          Some (sk\<lparr>sk_rooms := set_add r (sk_rooms sk), sk_currentRoomId := Some r\<rparr>)
      \<and> map_of (p0_rooms s') r =
          Some (rm\<lparr>p_users := set_add k (p_users rm),
                   p_history := p_history rm @ [p0_entry sk verb now]\<rparr>)"
proof -
  let ?socks = "AList.update k (sk\<lparr>sk_rooms := set_add r (sk_rooms sk), sk_currentRoomId := Some r\<rparr>)
                  (p0_sockets s)"
  have "list_all (\<lambda>m. map_of ?socks m \<noteq> None) (set_add k (p_users rm))"
    using assms by (auto simp: set_add_def update_conv' list_all_iff)
  then obtain ns where "names_of ?socks (set_add k (p_users rm)) = Inr ns"
    using names_of_ok by blast
  then show ?thesis
    using assms(1) by (simp add: p0_enter_def Let_def update_conv')
qed

text \<open>The two blocks in sequence, as the three joining handlers of the second server run them.\<close>

lemma p0_leave_enter_ok:
  assumes "p0_members_connected s" "map_of (p0_sockets s) k = Some sk"
    and "list_all (\<lambda>m. map_of (p0_sockets s) m \<noteq> None) (p_users rm)"
  shows "\<exists>s1 out1 s2 ns sk1. p0_leave_old s k sk now = Inr (s1, out1)
      \<and> sk_username sk1 = sk_username sk
      \<and> p0_enter s1 k r rm verb now =
          Inr (s2, [([k], RoomJoinedSuccessNames (p_name rm) (p_id rm)
                            (p_history rm @ [p0_entry sk verb now]) ns),
                    (io_to (p0_io s2) r, UpdateUserNames ns)])
      \<and> map_of (p0_sockets s2) k =
          Some (sk1\<lparr>sk_rooms := set_add r (sk_rooms sk1), sk_currentRoomId := Some r\<rparr>)
      \<and> map_of (p0_rooms s2) r =
          Some (rm\<lparr>p_users := set_add k (p_users rm),
                   p_history := p_history rm @ [p0_entry sk verb now]\<rparr>)"
proof -
  obtain s1 out1 where l: "p0_leave_old s k sk now = Inr (s1, out1)"
    using p0_leave_old_ok [OF assms(1,2)] by blast
  obtain sk1 where sk1: "map_of (p0_sockets s1) k = Some sk1" "sk_username sk1 = sk_username sk"
    using p0_leave_old_socket [OF l assms(2)] by blast
  have "list_all (\<lambda>m. map_of (p0_sockets s1) m \<noteq> None) (p_users rm)"
    using assms(3) p0_leave_old_keys [OF l assms(2)] by (simp add: list_all_iff)
  from p0_enter_ok [OF sk1(1) this, of r verb now]
  obtain s2 ns where "p0_enter s1 k r rm verb now =
      Inr (s2, [([k], RoomJoinedSuccessNames (p_name rm) (p_id rm)
                        (p_history rm @ [p0_entry sk1 verb now]) ns),
                (io_to (p0_io s2) r, UpdateUserNames ns)])"
    "map_of (p0_sockets s2) k =
          Some (sk1\<lparr>sk_rooms := set_add r (sk_rooms sk1), sk_currentRoomId := Some r\<rparr>)"
    "map_of (p0_rooms s2) r =
          Some (rm\<lparr>p_users := set_add k (p_users rm),
                   p_history := p_history rm @ [p0_entry sk1 verb now]\<rparr>)"
    by blast
  moreover have "p0_entry sk1 verb now = p0_entry sk verb now"
    using sk1(2) by (simp add: p0_entry_def)
  ultimately show ?thesis
    using l sk1(2) by auto
qed

text \<open>
  The successful path of \<^verbatim>\<open>create room\<close> in the second server: the room is registered
  under its trimmed PIN, which is also its \<^verbatim>\<open>id\<close>, with the creator as its only member.
\<close>

lemma p0_create_ok:
  assumes "map_of (p0_sockets p) k = Some sk" "truthy (sk_username sk)"
    and "trim nm \<noteq> []" "pin \<noteq> []" "trim pin \<noteq> []"
    and "map_of (p0_rooms p) (trim pin) = None" "p0_members_connected p"
  shows "\<exists>p' out. p0_on_create_room p k nm (Some pin) now = Inr (p', out)
      \<and> map_of (p0_rooms p') (trim pin) =
          Some \<lparr>p_id = trim pin, p_name = trim nm, p_pin = Some (trim pin),
                p_history = [p0_entry sk '' created and joined the room.'' now], p_users = [k]\<rparr>"
proof -
  let ?rm = "\<lparr>p_id = trim pin, p_name = trim nm, p_pin = Some (trim pin), p_history = [], p_users = []\<rparr>"
  have "list_all (\<lambda>m. map_of (p0_sockets p) m \<noteq> None) (p_users ?rm)"
    by simp
  with assms obtain s1 out1 s2 ns where l: "p0_leave_old p k sk now = Inr (s1, out1)"
      "p0_enter s1 k (trim pin) ?rm '' created and joined the room.'' now =
          Inr (s2, [([k], RoomJoinedSuccessNames (p_name ?rm) (p_id ?rm)
                            (p_history ?rm @ [p0_entry sk '' created and joined the room.'' now]) ns),
                    (io_to (p0_io s2) (trim pin), UpdateUserNames ns)])"
      "map_of (p0_rooms s2) (trim pin) =
          Some (?rm\<lparr>p_users := set_add k (p_users ?rm),
                    p_history := p_history ?rm @ [p0_entry sk '' created and joined the room.'' now]\<rparr>)"
    using p0_leave_enter_ok [of p k sk ?rm now "trim pin" "'' created and joined the room.''"] by blast
  have "\<exists>out. p0_on_create_room p k nm (Some pin) now = Inr (s2, out)"
    using assms l(1,2) by (simp add: p0_on_create_room_def truthy_def js_undefined_def Let_def)
  with l(3) show ?thesis
    by (auto simp: set_add_def)
qed


lemma rename_rooms_ok:
  "list_all (\<lambda>e. list_all (\<lambda>m. map_of socks m \<noteq> None) (p_users (snd e))) rs
     \<Longrightarrow> \<exists>rs' out. rename_rooms socks k txt now rs = Inr (rs', out)"
proof (induction rs)
  case Nil
  then show ?case by simp
next
  case (Cons e rs)
  then obtain rs' out where r: "rename_rooms socks k txt now rs = Inr (rs', out)"
    by auto
  from Cons.prems obtain ns where "names_of socks (p_users (snd e)) = Inr ns"
    using names_of_ok [of socks "p_users (snd e)"] by auto
  with r show ?case by simp
qed

section \<open>The invariant of server.js\<close>






lemma srv_inv_cong: "rooms t = rooms s \<Longrightarrow> users t = users s \<Longrightarrow> srv_inv t = srv_inv s"
  by (simp add: srv_inv_def)




















section \<open>The invariant of the second server\<close>

lemma room_ok_other:
  assumes "p0_room_ok S r rm" "\<And>sk. S k = Some sk \<Longrightarrow> sk_currentRoomId sk \<noteq> Some r"
    and "sk_currentRoomId sk' \<noteq> Some r"
  shows "p0_room_ok (S(k \<mapsto> sk')) r rm"
  using assms unfolding p0_room_ok_def by auto

lemma room_ok_same:
  assumes "p0_room_ok S r rm" "S k = Some sk" "sk_currentRoomId sk' = sk_currentRoomId sk"
  shows "p0_room_ok (S(k \<mapsto> sk')) r rm"
  using assms unfolding p0_room_ok_def by auto

lemma room_ok_leave:
  assumes "p0_room_ok S r rm" "sk_currentRoomId sk' \<noteq> Some r"
  shows "p0_room_ok (S(k \<mapsto> sk')) r (rm\<lparr>p_users := set_delete k (p_users rm)\<rparr>)"
  using assms unfolding p0_room_ok_def set_delete_def by auto

lemma room_ok_gone:
  assumes "p0_room_ok S r rm"
  shows "p0_room_ok (S(k := None)) r (rm\<lparr>p_users := set_delete k (p_users rm)\<rparr>)"
  using assms unfolding p0_room_ok_def set_delete_def by auto

lemma room_ok_gone_other:
  assumes "p0_room_ok S r rm" "\<And>sk. S k = Some sk \<Longrightarrow> sk_currentRoomId sk \<noteq> Some r"
  shows "p0_room_ok (S(k := None)) r rm"
  using assms unfolding p0_room_ok_def by auto

lemma room_ok_enter:
  assumes "p0_room_ok S r rm" "sk_currentRoomId sk' = Some r"
  shows "p0_room_ok (S(k \<mapsto> sk')) r (rm\<lparr>p_users := set_add k (p_users rm), p_history := h\<rparr>)"
  using assms unfolding p0_room_ok_def set_add_def by auto

lemma room_ok_history:
  assumes "p0_room_ok S r rm"
  shows "p0_room_ok S r (rm\<lparr>p_history := h\<rparr>)"
  using assms unfolding p0_room_ok_def by auto

lemma room_ok_new:
  assumes "r \<noteq> []" "p_id rm = r" "p_users rm = []"
    and "\<And>k sk. S k = Some sk \<Longrightarrow> sk_currentRoomId sk \<noteq> Some r"
  shows "p0_room_ok S r rm"
  using assms unfolding p0_room_ok_def by auto

lemma p0_inv_init: "p0_inv p0_init"
  by (simp add: p0_inv_def p0_init_def p0_room_ok_def)

lemma p0_leave_old_state:
  assumes "p0_leave_old s k sk now = Inr (s1, out1)"
  shows "s1 = (if truthy (sk_currentRoomId sk) then
               (case map_of (p0_rooms s) (js_undefined (sk_currentRoomId sk)) of
                  None \<Rightarrow> s
                | Some oldRoom \<Rightarrow>
                    s\<lparr>p0_rooms := AList.update (js_undefined (sk_currentRoomId sk))
                           (oldRoom\<lparr>p_users := set_delete k (p_users oldRoom)\<rparr>) (p0_rooms s),
                      p0_sockets := AList.update k
                           (sk\<lparr>sk_rooms := set_delete (js_undefined (sk_currentRoomId sk)) (sk_rooms sk)\<rparr>)
                           (p0_sockets s)\<rparr>)
             else s)"
  using assms
  by (auto simp: p0_leave_old_def Let_def split: if_splits option.splits sum.splits)

lemma p0_enter_state:
  assumes "p0_enter s k r rm verb now = Inr (s', out)" "map_of (p0_sockets s) k = Some sk"
  shows "s' = s\<lparr>p0_rooms := AList.update r
                   (rm\<lparr>p_users := set_add k (p_users rm),
                       p_history := p_history rm @ [p0_entry sk verb now]\<rparr>) (p0_rooms s),
                 p0_sockets := AList.update k
                   (sk\<lparr>sk_rooms := set_add r (sk_rooms sk), sk_currentRoomId := Some r\<rparr>) (p0_sockets s)\<rparr>"
  using assms
  by (auto simp: p0_enter_def Let_def split: if_splits option.splits sum.splits)

text \<open>
  The current room of a connected socket, under the invariant: none, or a room of the
  registry whose key is not empty.
\<close>

lemma p0_inv_current:
  assumes "p0_inv s" "map_of (p0_sockets s) k = Some sk"
  shows "sk_currentRoomId sk = None
     \<or> (\<exists>c oldRoom. sk_currentRoomId sk = Some c \<and> c \<noteq> [] \<and> map_of (p0_rooms s) c = Some oldRoom)"
proof (cases "sk_currentRoomId sk")
  case None
  then show ?thesis by simp
next
  case (Some c)
  then obtain oldRoom where o: "map_of (p0_rooms s) c = Some oldRoom"
    using assms by (fastforce simp: p0_inv_def)
  then have "c \<noteq> []"
    using assms(1) by (auto simp: p0_inv_def p0_room_ok_def)
  with Some o show ?thesis by simp
qed

text \<open>The state after the block that leaves the old room, under the invariant.\<close>

lemma p0_leave_old_cases:
  assumes inv: "p0_inv s" and sk: "map_of (p0_sockets s) k = Some sk"
    and l: "p0_leave_old s k sk now = Inr (s1, out1)"
  shows "(sk_currentRoomId sk = None \<and> s1 = s)
     \<or> (\<exists>c oldRoom. sk_currentRoomId sk = Some c \<and> c \<noteq> [] \<and> map_of (p0_rooms s) c = Some oldRoom
          \<and> s1 = s\<lparr>p0_rooms := AList.update c (oldRoom\<lparr>p_users := set_delete k (p_users oldRoom)\<rparr>) (p0_rooms s),
                    p0_sockets := AList.update k (sk\<lparr>sk_rooms := set_delete c (sk_rooms sk)\<rparr>) (p0_sockets s)\<rparr>)"
  using p0_inv_current [OF inv sk] p0_leave_old_state [OF l]
  by (auto simp: truthy_def js_undefined_def)

text \<open>Leaving the old room and entering another one keeps the invariant.\<close>

lemma p0_inv_move:
  assumes inv: "p0_inv s" and sk: "map_of (p0_sockets s) k = Some sk"
    and l: "p0_leave_old s k sk now = Inr (s1, out1)"
    and e: "p0_enter s1 k r rm verb now = Inr (s2, out2)"
    and r: "sk_currentRoomId sk \<noteq> Some r"
    and rm: "map_of (p0_rooms s) r = Some rm
             \<or> (map_of (p0_rooms s) r = None \<and> r \<noteq> [] \<and> p_id rm = r \<and> p_users rm = [])"
  shows "p0_inv s2"
proof -
  let ?S = "map_of (p0_sockets s)" and ?R = "map_of (p0_rooms s)"
  have ok: "\<And>r' rm'. ?R r' = Some rm' \<Longrightarrow> p0_room_ok ?S r' rm'"
    and ex: "\<And>k' sk' c. ?S k' = Some sk' \<Longrightarrow> sk_currentRoomId sk' = Some c \<Longrightarrow> ?R c \<noteq> None"
    and ds: "distinct (map fst (p0_sockets s))" and dr: "distinct (map fst (p0_rooms s))"
    using inv unfolding p0_inv_def by blast+
  have target: "p0_room_ok ?S r rm"
    using rm
  proof
    assume "?R r = Some rm"
    then show ?thesis by (rule ok)
  next
    assume n: "?R r = None \<and> r \<noteq> [] \<and> p_id rm = r \<and> p_users rm = []"
    have "sk_currentRoomId sk' \<noteq> Some r" if "?S k' = Some sk'" for k' sk'
      using ex [OF that] n by auto
    with n show ?thesis by (intro room_ok_new) auto
  qed
  from p0_leave_old_cases [OF inv sk l] show ?thesis
  proof (elim disjE conjE exE)
    assume n: "sk_currentRoomId sk = None" and s1: "s1 = s"
    let ?sk2 = "sk\<lparr>sk_rooms := set_add r (sk_rooms sk), sk_currentRoomId := Some r\<rparr>"
    let ?rm2 = "rm\<lparr>p_users := set_add k (p_users rm), p_history := p_history rm @ [p0_entry sk verb now]\<rparr>"
    have s2: "s2 = s\<lparr>p0_rooms := AList.update r ?rm2 (p0_rooms s),
                      p0_sockets := AList.update k ?sk2 (p0_sockets s)\<rparr>"
      using p0_enter_state [OF e [unfolded s1] sk] .
    have S2: "map_of (p0_sockets s2) = ?S(k \<mapsto> ?sk2)" and R2: "map_of (p0_rooms s2) = ?R(r \<mapsto> ?rm2)"
      unfolding s2 by (simp_all add: update_conv')
    have "p0_room_ok (?S(k \<mapsto> ?sk2)) r' rm'" if h: "(?R(r \<mapsto> ?rm2)) r' = Some rm'" for r' rm'
    proof (cases "r' = r")
      case True
      then have "rm' = ?rm2" using h by simp
      with True show ?thesis using target by (simp add: room_ok_enter)
    next
      case False
      then have "?R r' = Some rm'" using h by simp
      then have "p0_room_ok ?S r' rm'" by (rule ok)
      then show ?thesis
        using sk n False by (intro room_ok_other) auto
    qed
    moreover have "(?R(r \<mapsto> ?rm2)) c \<noteq> None"
      if "(?S(k \<mapsto> ?sk2)) k' = Some sk'" "sk_currentRoomId sk' = Some c" for k' sk' c
      using that ex [of k' sk' c] by (cases "k' = k") auto
    ultimately show ?thesis
      unfolding p0_inv_def S2 R2 using ds dr unfolding s2 by (simp add: distinct_update)
  next
    fix c oldRoom
    assume c: "sk_currentRoomId sk = Some c" "c \<noteq> []" "?R c = Some oldRoom"
      and s1: "s1 = s\<lparr>p0_rooms := AList.update c (oldRoom\<lparr>p_users := set_delete k (p_users oldRoom)\<rparr>) (p0_rooms s),
                    p0_sockets := AList.update k (sk\<lparr>sk_rooms := set_delete c (sk_rooms sk)\<rparr>) (p0_sockets s)\<rparr>"
    let ?sk1 = "sk\<lparr>sk_rooms := set_delete c (sk_rooms sk)\<rparr>"
    let ?old = "oldRoom\<lparr>p_users := set_delete k (p_users oldRoom)\<rparr>"
    let ?sk2 = "?sk1\<lparr>sk_rooms := set_add r (sk_rooms ?sk1), sk_currentRoomId := Some r\<rparr>"
    let ?rm2 = "rm\<lparr>p_users := set_add k (p_users rm), p_history := p_history rm @ [p0_entry ?sk1 verb now]\<rparr>"
    have cr: "c \<noteq> r" using c(1) r by auto
    have sk1: "map_of (p0_sockets s1) k = Some ?sk1"
      unfolding s1 by (simp add: update_conv')
    have s2: "s2 = s1\<lparr>p0_rooms := AList.update r ?rm2 (p0_rooms s1),
                       p0_sockets := AList.update k ?sk2 (p0_sockets s1)\<rparr>"
      using p0_enter_state [OF e sk1] .
    have S2: "map_of (p0_sockets s2) = ?S(k \<mapsto> ?sk2)"
      and R2: "map_of (p0_rooms s2) = ?R(c \<mapsto> ?old, r \<mapsto> ?rm2)"
      unfolding s2 s1 by (simp_all add: update_conv')
    have "p0_room_ok (?S(k \<mapsto> ?sk2)) r' rm'" if h: "(?R(c \<mapsto> ?old, r \<mapsto> ?rm2)) r' = Some rm'" for r' rm'
    proof -
      consider "r' = r" | "r' = c" | "r' \<noteq> r" "r' \<noteq> c" by blast
      then show ?thesis
      proof cases
        case 1
        then have "rm' = ?rm2" using h by simp
        with 1 show ?thesis using target by (simp add: room_ok_enter)
      next
        case 2
        then have "rm' = ?old" using h cr by simp
        moreover have "p0_room_ok ?S c oldRoom" using c(3) by (rule ok)
        ultimately show ?thesis
          using 2 cr by (simp add: room_ok_leave)
      next
        case 3
        then have "?R r' = Some rm'" using h by simp
        then have "p0_room_ok ?S r' rm'" by (rule ok)
        then show ?thesis
          using sk c(1) 3 by (intro room_ok_other) auto
      qed
    qed
    moreover have "(?R(c \<mapsto> ?old, r \<mapsto> ?rm2)) c' \<noteq> None"
      if "(?S(k \<mapsto> ?sk2)) k' = Some sk'" "sk_currentRoomId sk' = Some c'" for k' sk' c'
      using that ex [of k' sk' c'] by (cases "k' = k") auto
    ultimately show ?thesis
      unfolding p0_inv_def S2 R2 using ds dr unfolding s2 s1 by (simp add: distinct_update)
  qed
qed

lemma p0_inv_cong: "p0_sockets t = p0_sockets s \<Longrightarrow> p0_rooms t = p0_rooms s \<Longrightarrow> p0_inv t = p0_inv s"
  by (simp add: p0_inv_def)

lemma p0_inv_connection:
  assumes inv: "p0_inv s" and k: "map_of (p0_sockets s) k = None"
    and h: "p0_on_connection s k = Inr (s', out)"
  shows "p0_inv s'"
proof -
  let ?S = "map_of (p0_sockets s)" and ?R = "map_of (p0_rooms s)"
  let ?sk = "\<lparr>sk_username = None, sk_currentRoomId = None, sk_rooms = [k]\<rparr>"
  have s': "s' = s\<lparr>p0_sockets := AList.update k ?sk (p0_sockets s)\<rparr>"
    using h by (auto simp: p0_on_connection_def Let_def)
  have ok: "\<And>r' rm'. ?R r' = Some rm' \<Longrightarrow> p0_room_ok ?S r' rm'"
    and ex: "\<And>k' sk' c. ?S k' = Some sk' \<Longrightarrow> sk_currentRoomId sk' = Some c \<Longrightarrow> ?R c \<noteq> None"
    and ds: "distinct (map fst (p0_sockets s))" and dr: "distinct (map fst (p0_rooms s))"
    using inv unfolding p0_inv_def by blast+
  have "p0_room_ok (?S(k \<mapsto> ?sk)) r' rm'" if "?R r' = Some rm'" for r' rm'
    using ok [OF that] k by (intro room_ok_other) auto
  moreover have "?R c \<noteq> None" if "(?S(k \<mapsto> ?sk)) k' = Some sk'" "sk_currentRoomId sk' = Some c" for k' sk' c
    using that ex [of k' sk' c] by (cases "k' = k") auto
  ultimately show ?thesis
    unfolding p0_inv_def s' using ds dr by (simp add: update_conv' distinct_update)
qed

text \<open>A change of a socket that keeps its current room, with the rooms as they are.\<close>

lemma p0_inv_socket_same_room:
  assumes inv: "p0_inv s" and sk: "map_of (p0_sockets s) k = Some sk"
    and c: "sk_currentRoomId sk' = sk_currentRoomId sk"
  shows "p0_inv (s\<lparr>p0_sockets := AList.update k sk' (p0_sockets s), p0_users := us\<rparr>)"
proof -
  let ?S = "map_of (p0_sockets s)" and ?R = "map_of (p0_rooms s)"
  have ok: "\<And>r' rm'. ?R r' = Some rm' \<Longrightarrow> p0_room_ok ?S r' rm'"
    and ex: "\<And>k' sk' c. ?S k' = Some sk' \<Longrightarrow> sk_currentRoomId sk' = Some c \<Longrightarrow> ?R c \<noteq> None"
    and ds: "distinct (map fst (p0_sockets s))" and dr: "distinct (map fst (p0_rooms s))"
    using inv unfolding p0_inv_def by blast+
  have "p0_room_ok (?S(k \<mapsto> sk')) r' rm'" if "?R r' = Some rm'" for r' rm'
    using ok [OF that] sk c by (rule room_ok_same)
  moreover have "?R c' \<noteq> None" if "(?S(k \<mapsto> sk')) k' = Some sk''" "sk_currentRoomId sk'' = Some c'" for k' sk'' c'
    using that ex [of k' sk'' c'] ex [OF sk, of c'] c by (cases "k' = k") auto
  ultimately show ?thesis
    unfolding p0_inv_def using ds dr by (simp add: update_conv' distinct_update)
qed

lemma p0_inv_set_initial_username:
  assumes inv: "p0_inv s" and h: "p0_on_set_initial_username s k n = Inr (s', out)"
  shows "p0_inv s'"
proof (cases "map_of (p0_sockets s) k")
  case None
  then show ?thesis using h inv by (simp add: p0_on_set_initial_username_def)
next
  case (Some sk)
  show ?thesis
  proof (cases "trim n \<noteq> [] \<and> \<not> list_ex (\<lambda>u. snd u = trim n) (p0_users s)")
    case True
    then have "s' = s\<lparr>p0_sockets := AList.update k (sk\<lparr>sk_username := Some (trim n)\<rparr>) (p0_sockets s),
                       p0_users := p0_users s @ [(k, trim n)]\<rparr>"
      using h Some by (auto simp: p0_on_set_initial_username_def Let_def)
    then show ?thesis
      using p0_inv_socket_same_room [OF inv Some, of "sk\<lparr>sk_username := Some (trim n)\<rparr>"] by simp
  next
    case False
    then have "s' = s"
      using h Some by (auto simp: p0_on_set_initial_username_def Let_def)
    with inv show ?thesis by simp
  qed
qed

text \<open>A change of the histories of the rooms.\<close>

lemma p0_inv_histories:
  assumes inv: "p0_inv s" and keys: "map fst rs' = map fst (p0_rooms s)"
    and same: "\<And>r rm'. map_of rs' r = Some rm' \<Longrightarrow>
        \<exists>rm h. map_of (p0_rooms s) r = Some rm \<and> rm' = rm\<lparr>p_history := h\<rparr>"
  shows "p0_inv (s\<lparr>p0_rooms := rs'\<rparr>)"
proof -
  let ?S = "map_of (p0_sockets s)" and ?R = "map_of (p0_rooms s)"
  have ok: "\<And>r' rm'. ?R r' = Some rm' \<Longrightarrow> p0_room_ok ?S r' rm'"
    and ex: "\<And>k' sk' c. ?S k' = Some sk' \<Longrightarrow> sk_currentRoomId sk' = Some c \<Longrightarrow> ?R c \<noteq> None"
    and ds: "distinct (map fst (p0_sockets s))" and dr: "distinct (map fst (p0_rooms s))"
    using inv unfolding p0_inv_def by blast+
  have "p0_room_ok ?S r rm'" if "map_of rs' r = Some rm'" for r rm'
    using same [OF that] ok by (auto simp: room_ok_history)
  moreover have "map_of rs' c \<noteq> None" if "?S k' = Some sk'" "sk_currentRoomId sk' = Some c" for k' sk' c
  proof -
    have "c \<in> fst ` set (p0_rooms s)"
      using ex [OF that] by (simp add: map_of_eq_None_iff)
    then have "c \<in> fst ` set rs'"
      using keys by (metis set_map)
    then show ?thesis by (simp add: map_of_eq_None_iff)
  qed
  ultimately show ?thesis
    unfolding p0_inv_def using ds dr keys by simp
qed

lemma rename_rooms_keys:
  "rename_rooms socks k txt now rs = Inr (rs', out) \<Longrightarrow> map fst rs' = map fst rs"
  by (induction rs arbitrary: rs' out) (auto split: if_splits sum.splits)

lemma rename_rooms_same:
  "rename_rooms socks k txt now rs = Inr (rs', out) \<Longrightarrow> map_of rs' r = Some rm'
     \<Longrightarrow> \<exists>rm h. map_of rs r = Some rm \<and> rm' = rm\<lparr>p_history := h\<rparr>"
proof (induction rs arbitrary: rs' out)
  case Nil
  then show ?case by simp
next
  case (Cons e rs)
  obtain rest out0 where rest: "rename_rooms socks k txt now rs = Inr (rest, out0)"
    using Cons.prems(1) by (auto split: if_splits sum.splits)
  show ?case
  proof (cases "r = fst e")
    case True
    then have "rm' = snd e \<or> (\<exists>h. rm' = (snd e)\<lparr>p_history := h\<rparr>)"
      using Cons.prems rest by (auto split: if_splits sum.splits)
    moreover have "snd e = (snd e)\<lparr>p_history := p_history (snd e)\<rparr>"
      by simp
    ultimately have "\<exists>h. rm' = (snd e)\<lparr>p_history := h\<rparr>"
      by metis
    with True show ?thesis by auto
  next
    case False
    then have "map_of rest r = Some rm'"
      using Cons.prems rest by (auto split: if_splits sum.splits)
    from Cons.IH [OF rest this] False show ?thesis by auto
  qed
qed

lemma p0_inv_change_username:
  assumes inv: "p0_inv s" and h: "p0_on_change_username s k n now = Inr (s', out)"
  shows "p0_inv s'"
proof (cases "map_of (p0_sockets s) k")
  case None
  then show ?thesis using h inv by (simp add: p0_on_change_username_def)
next
  case (Some sk)
  let ?txt = "js_undefined (sk_username sk) @ '' is now '' @ trim n @ ''.''"
  show ?thesis
  proof (cases "trim n \<noteq> [] \<and> \<not> list_ex (\<lambda>u. snd u = trim n \<and> fst u \<noteq> k) (p0_users s)
                \<and> truthy (sk_username sk)")
    case False
    then have "s' = s"
      using h Some by (auto simp: p0_on_change_username_def Let_def split: if_splits)
    with inv show ?thesis by simp
  next
    case True
    then obtain rs' out0 where r: "rename_rooms (p0_sockets s) k ?txt now (p0_rooms s) = Inr (rs', out0)"
      and s': "s' = s\<lparr>p0_users := AList.map_entry k (\<lambda>_. trim n) (p0_users s), p0_rooms := rs',
                      p0_sockets := AList.update k (sk\<lparr>sk_username := Some (trim n)\<rparr>) (p0_sockets s)\<rparr>"
      using h Some by (auto simp: p0_on_change_username_def Let_def split: sum.splits)
    have "p0_inv (s\<lparr>p0_rooms := rs'\<rparr>)"
      using inv rename_rooms_keys [OF r] rename_rooms_same [OF r] by (rule p0_inv_histories)
    moreover have "map_of (p0_sockets (s\<lparr>p0_rooms := rs'\<rparr>)) k = Some sk"
      using Some by simp
    ultimately have "p0_inv (s\<lparr>p0_rooms := rs'\<rparr>\<lparr>p0_sockets := AList.update k (sk\<lparr>sk_username := Some (trim n)\<rparr>)
                                 (p0_sockets (s\<lparr>p0_rooms := rs'\<rparr>)),
                              p0_users := AList.map_entry k (\<lambda>_. trim n) (p0_users s)\<rparr>)"
      by (rule p0_inv_socket_same_room) simp
    moreover have "p0_inv s' = p0_inv (s\<lparr>p0_rooms := rs'\<rparr>\<lparr>p0_sockets := AList.update k (sk\<lparr>sk_username := Some (trim n)\<rparr>)
                                 (p0_sockets (s\<lparr>p0_rooms := rs'\<rparr>)),
                              p0_users := AList.map_entry k (\<lambda>_. trim n) (p0_users s)\<rparr>)"
      unfolding s' by (rule p0_inv_cong) simp_all
    ultimately show ?thesis by simp
  qed
qed

lemma update_keys_present: "map_of al k = Some v0 \<Longrightarrow> map fst (AList.update k v al) = map fst al"
  by (induction al) (auto split: if_splits)

lemma p0_inv_create_room:
  assumes inv: "p0_inv s" and h: "p0_on_create_room s k nm pin now = Inr (s', out)"
  shows "p0_inv s'"
proof (cases "map_of (p0_sockets s) k")
  case None
  then show ?thesis using h inv by (simp add: p0_on_create_room_def)
next
  case (Some sk)
  let ?tp = "if truthy pin then Some (trim (js_undefined pin)) else None"
  show ?thesis
  proof (cases "truthy (sk_username sk) \<and> trim nm \<noteq> [] \<and> truthy ?tp
                \<and> map_of (p0_rooms s) (js_undefined ?tp) = None")
    case False
    then have "s' = s"
      using h Some by (auto simp: p0_on_create_room_def Let_def split: if_splits)
    with inv show ?thesis by simp
  next
    case True
    let ?r = "js_undefined ?tp"
    let ?rm = "\<lparr>p_id = ?r, p_name = trim nm, p_pin = ?tp, p_history = [], p_users = []\<rparr>"
    from True obtain s1 out1 out2 where l: "p0_leave_old s k sk now = Inr (s1, out1)"
        and e: "p0_enter s1 k ?r ?rm '' created and joined the room.'' now = Inr (s', out2)"
      using h Some by (auto simp: p0_on_create_room_def Let_def split: sum.splits)
    have r: "?r \<noteq> []"
      using True by (auto simp: truthy_def js_undefined_def split: if_splits)
    have "sk_currentRoomId sk \<noteq> Some ?r"
      using p0_inv_current [OF inv Some] True by auto
    moreover have "map_of (p0_rooms s) ?r = Some ?rm
             \<or> (map_of (p0_rooms s) ?r = None \<and> ?r \<noteq> [] \<and> p_id ?rm = ?r \<and> p_users ?rm = [])"
      using True r by simp
    ultimately show ?thesis
      by (rule p0_inv_move [OF inv Some l e])
  qed
qed

lemma p0_inv_join_room_by_pin:
  assumes inv: "p0_inv s" and h: "p0_on_join_room_by_pin s k pin now = Inr (s', out)"
  shows "p0_inv s'"
proof (cases "map_of (p0_sockets s) k")
  case None
  then show ?thesis using h inv by (simp add: p0_on_join_room_by_pin_def)
next
  case (Some sk)
  show ?thesis
  proof (cases "truthy (sk_username sk) \<and> trim pin \<noteq> [] \<and> map_of (p0_rooms s) (trim pin) \<noteq> None
                \<and> sk_currentRoomId sk \<noteq> Some (trim pin)")
    case False
    then have "s' = s"
      using h Some by (auto simp: p0_on_join_room_by_pin_def Let_def split: if_splits option.splits)
    with inv show ?thesis by simp
  next
    case True
    then obtain rm where rm: "map_of (p0_rooms s) (trim pin) = Some rm"
      by auto
    with True obtain s1 out1 out2 where l: "p0_leave_old s k sk now = Inr (s1, out1)"
        and e: "p0_enter s1 k (trim pin) rm '' has joined the room.'' now = Inr (s', out2)"
      using h Some by (auto simp: p0_on_join_room_by_pin_def Let_def split: sum.splits)
    show ?thesis
      using True rm by (intro p0_inv_move [OF inv Some l e]) auto
  qed
qed

lemma p0_inv_switch_room:
  assumes inv: "p0_inv s" and h: "p0_on_switch_room s k r now = Inr (s', out)"
  shows "p0_inv s'"
proof (cases "map_of (p0_sockets s) k")
  case None
  then show ?thesis using h inv by (simp add: p0_on_switch_room_def)
next
  case (Some sk)
  show ?thesis
  proof (cases "truthy (sk_username sk) \<and> map_of (p0_rooms s) r \<noteq> None \<and> sk_currentRoomId sk \<noteq> Some r")
    case False
    then have "s' = s"
      using h Some by (auto simp: p0_on_switch_room_def Let_def split: if_splits option.splits)
    with inv show ?thesis by simp
  next
    case True
    then obtain rm where rm: "map_of (p0_rooms s) r = Some rm"
      by auto
    with True obtain s1 out1 out2 where l: "p0_leave_old s k sk now = Inr (s1, out1)"
        and e: "p0_enter s1 k r rm '' has joined the room.'' now = Inr (s', out2)"
      using h Some by (auto simp: p0_on_switch_room_def Let_def split: sum.splits)
    show ?thesis
      using True rm by (intro p0_inv_move [OF inv Some l e]) auto
  qed
qed

lemma p0_inv_leave_current_room:
  assumes inv: "p0_inv s" and h: "p0_on_leave_current_room s k now = Inr (s', out)"
  shows "p0_inv s'"
proof (cases "map_of (p0_sockets s) k")
  case None
  then show ?thesis using h inv by (simp add: p0_on_leave_current_room_def)
next
  case (Some sk)
  show ?thesis
  proof (cases "truthy (sk_currentRoomId sk) \<and> map_of (p0_rooms s) (js_undefined (sk_currentRoomId sk)) \<noteq> None")
    case False
    then have "s' = s"
      using h Some by (auto simp: p0_on_leave_current_room_def split: if_splits)
    with inv show ?thesis by simp
  next
    case True
    then obtain s1 out1 where l: "p0_leave_old s k sk now = Inr (s1, out1)"
        and s': "s' = s1\<lparr>p0_sockets := AList.map_entry k (\<lambda>x. x\<lparr>sk_currentRoomId := None\<rparr>) (p0_sockets s1)\<rparr>"
      using h Some by (auto simp: p0_on_leave_current_room_def split: sum.splits)
    let ?S = "map_of (p0_sockets s)" and ?R = "map_of (p0_rooms s)"
    have ok: "\<And>r' rm'. ?R r' = Some rm' \<Longrightarrow> p0_room_ok ?S r' rm'"
      and ex: "\<And>k' sk' c. ?S k' = Some sk' \<Longrightarrow> sk_currentRoomId sk' = Some c \<Longrightarrow> ?R c \<noteq> None"
      and ds: "distinct (map fst (p0_sockets s))" and dr: "distinct (map fst (p0_rooms s))"
      using inv unfolding p0_inv_def by blast+
    from p0_leave_old_cases [OF inv Some l] True
    obtain c oldRoom where c: "sk_currentRoomId sk = Some c" "c \<noteq> []" "?R c = Some oldRoom"
      and s1: "s1 = s\<lparr>p0_rooms := AList.update c (oldRoom\<lparr>p_users := set_delete k (p_users oldRoom)\<rparr>) (p0_rooms s),
                    p0_sockets := AList.update k (sk\<lparr>sk_rooms := set_delete c (sk_rooms sk)\<rparr>) (p0_sockets s)\<rparr>"
      by (auto simp: truthy_def)
    let ?old = "oldRoom\<lparr>p_users := set_delete k (p_users oldRoom)\<rparr>"
    let ?sk2 = "sk\<lparr>sk_rooms := set_delete c (sk_rooms sk), sk_currentRoomId := None\<rparr>"
    have S': "map_of (p0_sockets s') = ?S(k \<mapsto> ?sk2)" and R': "map_of (p0_rooms s') = ?R(c \<mapsto> ?old)"
      unfolding s' s1 by (simp_all add: update_conv' map_of_map_entry)
    have "p0_room_ok (?S(k \<mapsto> ?sk2)) r' rm'" if hh: "(?R(c \<mapsto> ?old)) r' = Some rm'" for r' rm'
    proof (cases "r' = c")
      case True
      then have "rm' = ?old" using hh by simp
      moreover have "p0_room_ok ?S c oldRoom" using c(3) by (rule ok)
      ultimately show ?thesis using True by (simp add: room_ok_leave)
    next
      case False
      then have "?R r' = Some rm'" using hh by simp
      then have "p0_room_ok ?S r' rm'" by (rule ok)
      then show ?thesis
        using Some c(1) False by (intro room_ok_other) auto
    qed
    moreover have "(?R(c \<mapsto> ?old)) c' \<noteq> None"
      if "(?S(k \<mapsto> ?sk2)) k' = Some sk'" "sk_currentRoomId sk' = Some c'" for k' sk' c'
      using that ex [of k' sk' c'] by (cases "k' = k") auto
    moreover have "distinct (map fst (p0_sockets s'))" "distinct (map fst (p0_rooms s'))"
      unfolding s' s1 using ds dr by (simp_all add: distinct_update distinct_map_entry)
    ultimately show ?thesis
      unfolding p0_inv_def S' R' by simp
  qed
qed

lemma p0_inv_post:
  assumes inv: "p0_inv s" and h: "p0_post kd notify s k dr txt ts = Inr (s', out)"
  shows "p0_inv s'"
proof (cases "\<exists>sk rm. map_of (p0_sockets s) k = Some sk \<and> truthy (sk_username sk) \<and> truthy (sk_currentRoomId sk)
                \<and> map_of (p0_rooms s) (js_undefined (sk_currentRoomId sk)) = Some rm")
  case False
  then have "s' = s"
    using h by (auto simp: p0_post_def Let_def split: if_splits option.splits)
  with inv show ?thesis by simp
next
  case True
  then obtain sk rm where sk: "map_of (p0_sockets s) k = Some sk" "truthy (sk_username sk)"
      "truthy (sk_currentRoomId sk)" "map_of (p0_rooms s) (js_undefined (sk_currentRoomId sk)) = Some rm"
    by blast
  let ?c = "js_undefined (sk_currentRoomId sk)"
  obtain ev where s': "s' = s\<lparr>p0_rooms := AList.update ?c (rm\<lparr>p_history := p_history rm @ [ev]\<rparr>) (p0_rooms s)\<rparr>"
    using h sk by (auto simp: p0_post_def Let_def)
  have "map fst (AList.update ?c (rm\<lparr>p_history := p_history rm @ [ev]\<rparr>) (p0_rooms s)) = map fst (p0_rooms s)"
    using sk(4) by (rule update_keys_present)
  moreover have "\<exists>rm0 hh. map_of (p0_rooms s) r = Some rm0 \<and> rm' = rm0\<lparr>p_history := hh\<rparr>"
    if "map_of (AList.update ?c (rm\<lparr>p_history := p_history rm @ [ev]\<rparr>) (p0_rooms s)) r = Some rm'" for r rm'
  proof (cases "r = ?c")
    case True
    then show ?thesis using that sk(4) by (auto simp: update_conv')
  next
    case False
    then have "map_of (p0_rooms s) r = Some rm'" using that by (simp add: update_conv')
    then show ?thesis
      by (intro exI [of _ rm'] exI [of _ "p_history rm'"]) simp
  qed
  ultimately show ?thesis
    unfolding s' by (rule p0_inv_histories [OF inv])
qed

lemma p0_inv_typing:
  assumes inv: "p0_inv s" and h: "p0_typing_signal notify s k r = Inr (s', out)"
  shows "p0_inv s'"
proof -
  have "s' = s"
    using h by (auto simp: p0_typing_signal_def split: if_splits option.splits)
  with inv show ?thesis by simp
qed

lemma p0_inv_disconnect:
  assumes inv: "p0_inv s" and h: "p0_on_disconnect s k now = Inr (s', out)"
  shows "p0_inv s'"
proof (cases "map_of (p0_sockets s) k")
  case None
  then show ?thesis using h inv by (simp add: p0_on_disconnect_def)
next
  case (Some sk)
  let ?S = "map_of (p0_sockets s)" and ?R = "map_of (p0_rooms s)"
  have ok: "\<And>r' rm'. ?R r' = Some rm' \<Longrightarrow> p0_room_ok ?S r' rm'"
    and ex: "\<And>k' sk' c. ?S k' = Some sk' \<Longrightarrow> sk_currentRoomId sk' = Some c \<Longrightarrow> ?R c \<noteq> None"
    and ds: "distinct (map fst (p0_sockets s))" and dr: "distinct (map fst (p0_rooms s))"
    using inv unfolding p0_inv_def by blast+
  from p0_inv_current [OF inv Some] show ?thesis
  proof (elim disjE exE conjE)
    assume n: "sk_currentRoomId sk = None"
    then have s': "s' = s\<lparr>p0_sockets := AList.delete k (p0_sockets s), p0_users := splice_first k (p0_users s)\<rparr>"
      using h Some by (simp add: p0_on_disconnect_def Let_def truthy_def)
    have "p0_room_ok (?S(k := None)) r' rm'" if "?R r' = Some rm'" for r' rm'
      using ok [OF that] by (rule room_ok_gone_other) (use Some n in auto)
    moreover have "?R c \<noteq> None" if "(?S(k := None)) k' = Some sk'" "sk_currentRoomId sk' = Some c" for k' sk' c
      using that ex [of k' sk' c] by (cases "k' = k") auto
    ultimately show ?thesis
      unfolding p0_inv_def s' using ds dr by (simp add: delete_conv' distinct_delete)
  next
    fix c rm
    assume c: "sk_currentRoomId sk = Some c" "c \<noteq> []" "?R c = Some rm"
    let ?rm' = "rm\<lparr>p_users := set_delete k (p_users rm)\<rparr>"
    have okc: "p0_room_ok ?S c rm" using c(3) by (rule ok)
    then have id: "p_id rm = c" by (simp add: p0_room_ok_def)
    have gone: "p0_room_ok (?S(k := None)) c ?rm'"
      using okc by (rule room_ok_gone)
    have others: "p0_room_ok (?S(k := None)) r' rm'" if "?R r' = Some rm'" "r' \<noteq> c" for r' rm'
      using ok [OF that(1)] by (rule room_ok_gone_other) (use Some c(1) that(2) in auto)
    show ?thesis
    proof (cases "set_delete k (p_users rm) = [] \<and> c \<noteq> ''general''")
      case True
      then have s': "s' = s\<lparr>p0_sockets := AList.delete k (p0_sockets s), p0_users := splice_first k (p0_users s),
                            p0_rooms := AList.delete c (AList.update c ?rm' (p0_rooms s))\<rparr>"
        using h Some c id
        by (auto simp: p0_on_disconnect_def Let_def truthy_def js_undefined_def split: sum.splits)
      have R': "map_of (p0_rooms s') = ?R(c := None)" and S': "map_of (p0_sockets s') = ?S(k := None)"
        unfolding s' by (simp_all add: delete_conv' update_conv')
      have nobody: "sk_currentRoomId sk' \<noteq> Some c" if "(?S(k := None)) k' = Some sk'" for k' sk'
        using gone True that by (auto simp: p0_room_ok_def)
      have "p0_room_ok (?S(k := None)) r' rm'" if "(?R(c := None)) r' = Some rm'" for r' rm'
        using that others [of r' rm'] by (cases "r' = c") auto
      moreover have "(?R(c := None)) c' \<noteq> None"
        if "(?S(k := None)) k' = Some sk'" "sk_currentRoomId sk' = Some c'" for k' sk' c'
        using that ex [of k' sk' c'] nobody [of k' sk'] by (cases "k' = k") auto
      moreover have "distinct (map fst (p0_sockets s'))" "distinct (map fst (p0_rooms s'))"
        unfolding s' using ds dr by (simp_all add: distinct_delete distinct_update)
      ultimately show ?thesis
        unfolding p0_inv_def S' R' by simp
    next
      case False
      then have s': "s' = s\<lparr>p0_sockets := AList.delete k (p0_sockets s), p0_users := splice_first k (p0_users s),
                            p0_rooms := AList.update c ?rm' (p0_rooms s)\<rparr>"
        using h Some c id
        by (auto simp: p0_on_disconnect_def Let_def truthy_def js_undefined_def split: sum.splits if_splits)
      have R': "map_of (p0_rooms s') = ?R(c \<mapsto> ?rm')" and S': "map_of (p0_sockets s') = ?S(k := None)"
        unfolding s' by (simp_all add: delete_conv' update_conv')
      have "p0_room_ok (?S(k := None)) r' rm'" if "(?R(c \<mapsto> ?rm')) r' = Some rm'" for r' rm'
        using that others [of r' rm'] gone by (cases "r' = c") auto
      moreover have "(?R(c \<mapsto> ?rm')) c' \<noteq> None"
        if "(?S(k := None)) k' = Some sk'" "sk_currentRoomId sk' = Some c'" for k' sk' c'
        using that ex [of k' sk' c'] by (cases "k' = k") auto
      moreover have "distinct (map fst (p0_sockets s'))" "distinct (map fst (p0_rooms s'))"
        unfolding s' using ds dr by (simp_all add: distinct_delete distinct_update)
      ultimately show ?thesis
        unfolding p0_inv_def S' R' by simp
    qed
  qed
qed

text \<open>Every admissible event that does not throw keeps the invariant.\<close>

lemma p0_inv_handle:
  assumes inv: "p0_inv s" and adm: "p0_admissible s e" and h: "p0_handle s e = Inr (s', out)"
  shows "p0_inv s'"
proof (cases e)
  case (P0_Connection k)
  with adm have "map_of (p0_sockets s) k = None"
    by (simp add: p0_admissible_def)
  moreover have "p0_on_connection s k = Inr (s', out)"
    using h P0_Connection by simp
  ultimately show ?thesis
    by (rule p0_inv_connection [OF inv])
next
  case (P0_SetInitialUsername k n)
  with h have "p0_on_set_initial_username s k n = Inr (s', out)" by simp
  then show ?thesis by (rule p0_inv_set_initial_username [OF inv])
next
  case (P0_ChangeUsername k n now)
  with h have "p0_on_change_username s k n now = Inr (s', out)" by simp
  then show ?thesis by (rule p0_inv_change_username [OF inv])
next
  case (P0_CreateRoom k n p now)
  with h have "p0_on_create_room s k n p now = Inr (s', out)" by simp
  then show ?thesis by (rule p0_inv_create_room [OF inv])
next
  case (P0_JoinRoomByPin k p now)
  with h have "p0_on_join_room_by_pin s k p now = Inr (s', out)" by simp
  then show ?thesis by (rule p0_inv_join_room_by_pin [OF inv])
next
  case (P0_SwitchRoom k r now)
  with h have "p0_on_switch_room s k r now = Inr (s', out)" by simp
  then show ?thesis by (rule p0_inv_switch_room [OF inv])
next
  case (P0_LeaveCurrentRoom k now)
  with h have "p0_on_leave_current_room s k now = Inr (s', out)" by simp
  then show ?thesis by (rule p0_inv_leave_current_room [OF inv])
next
  case (P0_ChatMessageIn k r t ts)
  with h have "p0_post Message ChatMessage s k r t ts = Inr (s', out)"
    by (simp add: p0_on_chat_message_def)
  then show ?thesis by (rule p0_inv_post [OF inv])
next
  case (P0_ChatActionIn k r t ts)
  with h have "p0_post Action ChatAction s k r t ts = Inr (s', out)"
    by (simp add: p0_on_chat_action_def)
  then show ?thesis by (rule p0_inv_post [OF inv])
next
  case (P0_Typing k r)
  with h have "p0_typing_signal UserTyping s k r = Inr (s', out)"
    by (simp add: p0_on_typing_def)
  then show ?thesis by (rule p0_inv_typing [OF inv])
next
  case (P0_StopTyping k r)
  with h have "p0_typing_signal UserStopTyping s k r = Inr (s', out)"
    by (simp add: p0_on_stop_typing_def)
  then show ?thesis by (rule p0_inv_typing [OF inv])
next
  case (P0_Disconnect k now)
  with h have "p0_on_disconnect s k now = Inr (s', out)" by simp
  then show ?thesis by (rule p0_inv_disconnect [OF inv])
qed

lemma p0_reachable_inv: "p0_reachable s \<Longrightarrow> p0_inv s"
proof (induction rule: p0_reachable.induct)
  case p0_reachable_init
  show ?case by (rule p0_inv_init)
next
  case (p0_reachable_step s e s' out)
  from p0_reachable_step.IH p0_reachable_step.hyps(2,3) show ?case
    by (rule p0_inv_handle)
qed


text \<open>
  In every reachable state of the second server the members of every room are exactly
  the connected sockets whose current room it is, so the names shown for the room are
  exactly the names of the sessions in it.
\<close>

lemma keys_filter:
  assumes "distinct (map fst al)"
  shows "set (map fst (filter (\<lambda>e. P (snd e)) al)) = {k. \<exists>v. map_of al k = Some v \<and> P v}"
proof (intro set_eqI iffI)
  fix k
  assume "k \<in> set (map fst (filter (\<lambda>e. P (snd e)) al))"
  then obtain v where "(k, v) \<in> set al" "P v"
    by auto
  then show "k \<in> {k. \<exists>v. map_of al k = Some v \<and> P v}"
    using assms by auto
next
  fix k
  assume "k \<in> {k. \<exists>v. map_of al k = Some v \<and> P v}"
  then obtain v where "map_of al k = Some v" "P v"
    by auto
  then have "(k, v) \<in> set al"
    by (auto dest: map_of_SomeD)
  with \<open>P v\<close> show "k \<in> set (map fst (filter (\<lambda>e. P (snd e)) al))"
    by force
qed

lemma p0_inv_members_exact:
  assumes "p0_inv s"
  shows "p0_members_exact s"
proof -
  have d: "distinct (map fst (p0_sockets s))" and dr: "distinct (map fst (p0_rooms s))"
    and ok: "\<And>r rm. map_of (p0_rooms s) r = Some rm \<Longrightarrow> p0_room_ok (map_of (p0_sockets s)) r rm"
    using assms unfolding p0_inv_def by blast+
  have "set (p_users rm) = set (p0_sessions_in s r)" if "(r, rm) \<in> set (p0_rooms s)" for r rm
  proof -
    have "map_of (p0_rooms s) r = Some rm"
      using that dr by simp
    then have "set (p_users rm) = {k. \<exists>sk. map_of (p0_sockets s) k = Some sk \<and> sk_currentRoomId sk = Some r}"
      using ok by (simp add: p0_room_ok_def)
    also have "\<dots> = set (p0_sessions_in s r)"
      unfolding p0_sessions_in_def using keys_filter [OF d, of "\<lambda>v. sk_currentRoomId v = Some r"] by simp
    finally show ?thesis .
  qed
  then show ?thesis
    unfolding p0_members_exact_def list_all_iff by auto
qed

lemma p0_inv_members_connected:
  assumes "p0_inv s"
  shows "p0_members_connected s"
proof -
  have dr: "distinct (map fst (p0_rooms s))"
    and ok: "\<And>r rm. map_of (p0_rooms s) r = Some rm \<Longrightarrow> p0_room_ok (map_of (p0_sockets s)) r rm"
    using assms unfolding p0_inv_def by blast+
  have "map_of (p0_sockets s) m \<noteq> None" if "(r, rm) \<in> set (p0_rooms s)" "m \<in> set (p_users rm)" for r rm m
  proof -
    have "map_of (p0_rooms s) r = Some rm"
      using that dr by simp
    then have "set (p_users rm) = {k. \<exists>sk. map_of (p0_sockets s) k = Some sk \<and> sk_currentRoomId sk = Some r}"
      using ok by (simp add: p0_room_ok_def)
    with that(2) show ?thesis by auto
  qed
  then show ?thesis
    unfolding p0_members_connected_def list_all_iff by auto
qed

theorem p0_reachable_members_exact: "p0_reachable s \<Longrightarrow> p0_members_exact s"
  by (rule p0_inv_members_exact) (rule p0_reachable_inv)

theorem p0_reachable_members_connected: "p0_reachable s \<Longrightarrow> p0_members_connected s"
  by (rule p0_inv_members_connected) (rule p0_reachable_inv)

text \<open>The states used at the claims are reachable.\<close>

lemma p0_run_reachable:
  "p0_reachable s \<Longrightarrow> p0_admissible_run s es \<Longrightarrow> p0_run s es = Inr s' \<Longrightarrow> p0_reachable s'"
proof (induction es arbitrary: s)
  case Nil
  then show ?case by simp
next
  case (Cons e es)
  from Cons.prems(2) have adm: "p0_admissible s e"
    by simp
  show ?case
  proof (cases "p0_handle s e")
    case (Inl x)
    with Cons.prems(3) show ?thesis by simp
  next
    case (Inr p)
    obtain t out where p: "p = (t, out)"
      by (cases p)
    have "p0_reachable t"
      using Cons.prems(1) adm Inr p by (auto intro: p0_reachable_step)
    moreover have "p0_admissible_run t es"
      using Cons.prems(2) Inr p by simp
    moreover have "p0_run t es = Inr s'"
      using Cons.prems(3) Inr p by simp
    ultimately show ?thesis
      by (rule Cons.IH)
  qed
qed

lemma p0_reachable_p_both: "p0_reachable p_both"
proof (rule p0_run_reachable [OF p0_reachable_init _ reach_p_both])
  show "p0_admissible_run p0_init [P0_Connection ''A'', P0_Connection ''B'',
          P0_SetInitialUsername ''A'' ''alice'', P0_SetInitialUsername ''B'' ''bob'']"
    by code_simp
qed

lemma p0_reachable_p_pair: "p0_reachable p_pair"
proof (rule p0_run_reachable [OF p0_reachable_p_both _ reach_p_pair])
  show "p0_admissible_run p_both [P0_CreateRoom ''A'' ''Plans'' (Some ''1234'') 5]"
    by code_simp
qed

lemma p0_reachable_members_exact_p_pair: "p0_members_exact p_pair"
  using p0_reachable_members_exact [OF p0_reachable_p_pair] .

lemma p0_reachable_members_connected_p_both: "p0_members_connected p_both"
  using p0_reachable_members_connected [OF p0_reachable_p_both] .
section \<open>The membership invariant\<close>

text \<open>
  C1. The claim: in every reachable state the member set of every room is exactly the set
  of display names of the sessions whose current room it is. In \<^verbatim>\<open>server.js\<close> a session
  that is in the default room under the name alice and sends \<^verbatim>\<open>set initial username\<close> again
  with the name bob is renamed, while the member set of the room keeps alice: the handler
  of \<^verbatim>\<open>change username\<close> swaps the name in the member set, this one does not.
\<close>

theorem C1_server_ghost_member:
  "run init [Connection ''A'', SetInitialUsername ''A'' ''alice'' 1, SetInitialUsername ''A'' ''bob'' 2]
     = Inr s_ghost
   \<and> getUsersInRoom s_ghost ''general'' = [''alice'']
   \<and> sessionNames s_ghost ''general'' = [''bob'']
   \<and> members_exact s_ghost = False"
  by code_simp

theorem C1_server_ghost_member_witness:
  "\<exists>s. run init [Connection ''A'', SetInitialUsername ''A'' ''alice'' 1, SetInitialUsername ''A'' ''bob'' 2]
         = Inr s \<and> set (getUsersInRoom s ''general'') \<noteq> set (sessionNames s ''general'')"
  using C1_server_ghost_member by auto

text \<open>
  A second run of \<^verbatim>\<open>server.js\<close> that breaks the invariant: \<open>B\<close> gets its name through
  \<^verbatim>\<open>change username\<close> and stays in the lobby, \<open>A\<close> claims the same name and joins the default
  room, \<open>B\<close> switches to the default room, and \<open>A\<close> disconnects, which takes the shared name
  out of the member set while \<open>B\<close> is still in the room.
\<close>

lemma server_shared_name_member_lost:
  "case run init [Connection ''A'', Connection ''B'', ChangeUsername ''B'' ''bob'' 1,
                  SetInitialUsername ''A'' ''bob'' 2, SwitchRoom ''B'' ''general'' 3, Disconnect ''A'' 4] of
     Inl x \<Rightarrow> False
   | Inr s \<Rightarrow> getUsersInRoom s ''general'' = [] \<and> sessionNames s ''general'' = [''bob'']
       \<and> members_exact s = False"
  by code_simp

section \<open>Deleting the room that its last member leaves\<close>

text \<open>
  C2. The claim: a room other than the default room is deleted, and gone from the room list,
  as soon as its last member leaves it by \<^verbatim>\<open>leave current room\<close>, by switching away or by
  disconnecting. In the second server only the \<^verbatim>\<open>disconnect\<close> handler deletes the room: when
  alice, alone in her room, leaves it or switches to the default room, the room stays in the
  registry and in the room list with no member.
\<close>

theorem C2_second_server_keeps_empty_room:
  "p0_on_leave_current_room p_alone ''A'' 6 =
     Inr (p_alone\<lparr>p0_rooms := [(''general'', p_general), (''1234'', p_plans\<lparr>p_users := []\<rparr>)],
                  p0_sockets := [(''A'', \<lparr>sk_username = Some ''alice'', sk_currentRoomId = None,
                                          sk_rooms = [''A'']\<rparr>)]\<rparr>,
          [([], ChatMessage \<lparr>ev_room = Some ''1234'', ev_user = Some ''System'',
                               ev_text = ''alice has left the room.'', ev_timestamp = 6, ev_type = None\<rparr>),
           ([], UpdateUserNames []),
           ([''A''], EnteredLobby)])
   \<and> (case p0_on_leave_current_room p_alone ''A'' 6 of
         Inl x \<Rightarrow> False
       | Inr r \<Rightarrow> getRoomList (fst r) =
           [\<lparr>sum_id = ''general'', sum_name = ''General'', hasPin = False\<rparr>,
            \<lparr>sum_id = ''1234'', sum_name = ''Plans'', hasPin = True\<rparr>])
   \<and> (case p0_on_switch_room p_alone ''A'' ''general'' 6 of
         Inl x \<Rightarrow> False
       | Inr r \<Rightarrow> map (\<lambda>e. (fst e, p_users (snd e))) (p0_rooms (fst r)) =
           [(''general'', [''A'']), (''1234'', [])])"
  by code_simp

theorem C2_second_server_keeps_empty_room_witness:
  "\<exists>s out. p0_on_leave_current_room p_alone ''A'' 6 = Inr (s, out)
     \<and> map_option p_users (map_of (p0_rooms s) ''1234'') = Some []"
  using C2_second_server_keeps_empty_room by simp

section \<open>Rejected transitions\<close>

text \<open>
  C3. The claim: a rejected transition leaves the registries as they were, and
  \<^verbatim>\<open>create room\<close> by a session without a display name is rejected. In \<^verbatim>\<open>server.js\<close> the
  handler of \<^verbatim>\<open>create room\<close> does not look at the session's name: for the unnamed
  connection \<open>A\<close> it registers the room, reports the creation and the new room list, and only
  the join that follows is rejected with ``Please set your username first.''. The room
  stays registered with no member.
\<close>

theorem C3_server_unnamed_create_registers:
  "map_of (users s_anon) ''A'' = Some \<lparr>username = None, currentRoomId = None\<rparr>
   \<and> on_create_room s_anon ''A'' ''Plans'' ''1234'' 5 =
       Inr (s_anon\<lparr>rooms := [(''general'', general_empty), (''room-5'', plans)]\<rparr>,
            [feedback ''A'' (''Room '' @ apos @ ''Plans'' @ apos @ '' created successfully! PIN: 1234''),
             ([''A''], UpdateRoomList
                [\<lparr>sum_id = ''general'', sum_name = ''General'', hasPin = False\<rparr>,
                 \<lparr>sum_id = ''room-5'', sum_name = ''Plans'', hasPin = True\<rparr>]),
             feedback ''A'' ''Please set your username first.''])"
  by code_simp

theorem C3_server_unnamed_create_registers_witness:
  "\<exists>s out. on_create_room s_anon ''A'' ''Plans'' ''1234'' 5 = Inr (s, out)
     \<and> last out = feedback ''A'' ''Please set your username first.''
     \<and> map_of (rooms s_anon) ''room-5'' = None \<and> map_of (rooms s) ''room-5'' = Some plans"
  using C3_server_unnamed_create_registers by (simp add: s_anon_def)

section \<open>Claiming a name\<close>




section \<open>Switching rooms\<close>

text \<open>
  C5, as amended. For a named session that is not in the target room and an existing room
  id: in the second server \<^verbatim>\<open>switch room\<close> succeeds, with no secret supplied or checked. In
  \<^verbatim>\<open>server.js\<close> \<^verbatim>\<open>switch room\<close> runs \<^const>\<open>joinRoom\<close> without a PIN, and \<^const>\<open>joinRoom\<close>
  compares the PIN of the room with the one it is given: the switch succeeds exactly when
  the target room has no PIN or is the default room, and is otherwise rejected with
  ``Incorrect PIN for this room.'' and no change of state.
\<close>

theorem C5_switch_room:
  "(map_of (users s) k = Some u \<and> username u = Some t \<and> t \<noteq> [] \<and> map_of (rooms s) r = Some rm
      \<and> currentRoomId u \<noteq> Some r \<and> map_of (userSocketRooms s) k \<noteq> None \<longrightarrow>
      (if truthy (r_pin rm) \<and> r \<noteq> GENERAL_ROOM_ID
       then on_switch_room s k r now = Inr (s, [feedback k ''Incorrect PIN for this room.''])
       else (\<exists>s' out. on_switch_room s k r now = Inr (s', out)
               \<and> map_of (users s') k = Some \<lparr>username = Some t, currentRoomId = Some r\<rparr>
               \<and> t \<in> set (getUsersInRoom s' r))))
   \<and> (map_of (p0_sockets p) k = Some sk \<and> truthy (sk_username sk) \<and> map_of (p0_rooms p) r = Some prm
      \<and> sk_currentRoomId sk \<noteq> Some r \<and> p0_members_connected p \<longrightarrow>
      (\<exists>p' out sk' prm'. p0_on_switch_room p k r now = Inr (p', out)
          \<and> map_of (p0_sockets p') k = Some sk' \<and> sk_currentRoomId sk' = Some r
          \<and> sk_username sk' = sk_username sk
          \<and> map_of (p0_rooms p') r = Some prm' \<and> k \<in> set (p_users prm')))"
proof (intro conjI impI)
  assume a: "map_of (users s) k = Some u \<and> username u = Some t \<and> t \<noteq> [] \<and> map_of (rooms s) r = Some rm
      \<and> currentRoomId u \<noteq> Some r \<and> map_of (userSocketRooms s) k \<noteq> None"
  show "if truthy (r_pin rm) \<and> r \<noteq> GENERAL_ROOM_ID
       then on_switch_room s k r now = Inr (s, [feedback k ''Incorrect PIN for this room.''])
       else (\<exists>s' out. on_switch_room s k r now = Inr (s', out)
               \<and> map_of (users s') k = Some \<lparr>username = Some t, currentRoomId = Some r\<rparr>
               \<and> t \<in> set (getUsersInRoom s' r))"
  proof (cases "truthy (r_pin rm) \<and> r \<noteq> GENERAL_ROOM_ID")
    case True
    moreover have "named s k"
      using a by (simp add: named_def truthy_def)
    ultimately show ?thesis
      using a joinRoom_pin_rejects [of s r rm k now] by (simp add: on_switch_room_def)
  next
    case False
    then have pin: "\<not> (truthy (r_pin rm) \<and> r_pin rm \<noteq> None \<and> r \<noteq> GENERAL_ROOM_ID)"
      by blast
    obtain js where js: "map_of (userSocketRooms s) k = Some js"
      using a by auto
    from a have "\<exists>s1 out1 s2 out2. leave_previous s k (currentRoomId u) now = Inr (s1, out1)
           \<and> map_of (userSocketRooms s1) k \<noteq> None
           \<and> enterRoom s1 k t r rm now = Inr (s2, out2)
           \<and> joinRoom s k r None now = Inr (s2, out1 @ out2)"
      by (intro joinRoom_enters [OF _ _ _ _ pin _ js]) auto
    then obtain s1 out1 s2 out2 where j: "map_of (userSocketRooms s1) k \<noteq> None"
        "enterRoom s1 k t r rm now = Inr (s2, out2)" "joinRoom s k r None now = Inr (s2, out1 @ out2)"
      by blast
    from j(1) obtain js1 where "map_of (userSocketRooms s1) k = Some js1" by auto
    from enterRoom_ok [OF this, of t r rm now] j(2)
    have "map_of (users s2) k = Some \<lparr>username = Some t, currentRoomId = Some r\<rparr>"
      and "map_of (rooms s2) r = Some (rm\<lparr>usersInRoom := set_add t (usersInRoom rm),
                                         r_history := r_history rm @ [joinMessage t r now]\<rparr>)"
      by auto
    then show ?thesis
      using False j(3) by (auto simp: on_switch_room_def getUsersInRoom_def set_add_def)
  qed
next
  assume a: "map_of (p0_sockets p) k = Some sk \<and> truthy (sk_username sk) \<and> map_of (p0_rooms p) r = Some prm
      \<and> sk_currentRoomId sk \<noteq> Some r \<and> p0_members_connected p"
  then have "list_all (\<lambda>m. map_of (p0_sockets p) m \<noteq> None) (p_users prm)"
    using members_connectedD [of p r prm] by blast
  with a obtain s1 out1 s2 ns sk1 where l: "p0_leave_old p k sk now = Inr (s1, out1)"
      "sk_username sk1 = sk_username sk"
      "p0_enter s1 k r prm '' has joined the room.'' now =
          Inr (s2, [([k], RoomJoinedSuccessNames (p_name prm) (p_id prm)
                            (p_history prm @ [p0_entry sk '' has joined the room.'' now]) ns),
                    (io_to (p0_io s2) r, UpdateUserNames ns)])"
      "map_of (p0_sockets s2) k =
          Some (sk1\<lparr>sk_rooms := set_add r (sk_rooms sk1), sk_currentRoomId := Some r\<rparr>)"
      "map_of (p0_rooms s2) r =
          Some (prm\<lparr>p_users := set_add k (p_users prm),
                    p_history := p_history prm @ [p0_entry sk '' has joined the room.'' now]\<rparr>)"
    using p0_leave_enter_ok [of p k sk prm now r "'' has joined the room.''"] by blast
  have "\<exists>out. p0_on_switch_room p k r now = Inr (s2, out)"
    using a l(1,3) by (simp add: p0_on_switch_room_def)
  with l(2,4,5) show "\<exists>p' out sk' prm'. p0_on_switch_room p k r now = Inr (p', out)
          \<and> map_of (p0_sockets p') k = Some sk' \<and> sk_currentRoomId sk' = Some r
          \<and> sk_username sk' = sk_username sk
          \<and> map_of (p0_rooms p') r = Some prm' \<and> k \<in> set (p_users prm')"
    by (auto simp: set_add_def)
qed

theorem C5_switch_room_witness:
  "on_switch_room s_plans ''A'' ''room-5'' 6 = Inr (s_plans, [feedback ''A'' ''Incorrect PIN for this room.''])
   \<and> (\<exists>s' out. on_switch_room s_guest ''B'' ''general'' 3 = Inr (s', out)
         \<and> map_of (users s') ''B'' = Some \<lparr>username = Some ''bob'', currentRoomId = Some ''general''\<rparr>
         \<and> ''bob'' \<in> set (getUsersInRoom s' ''general''))
   \<and> (\<exists>p' out sk' prm'. p0_on_switch_room p_pair ''B'' ''1234'' 7 = Inr (p', out)
         \<and> map_of (p0_sockets p') ''B'' = Some sk' \<and> sk_currentRoomId sk' = Some ''1234''
         \<and> map_of (p0_rooms p') ''1234'' = Some prm' \<and> p_pin prm' = Some ''1234''
         \<and> ''B'' \<in> set (p_users prm'))"
proof -
  have "on_switch_room s_plans ''A'' ''room-5'' 6 = Inr (s_plans, [feedback ''A'' ''Incorrect PIN for this room.''])"
    using C5_switch_room [where s = s_plans and k = "''A''" and r = "''room-5''" and now = 6
        and u = "\<lparr>username = Some ''alice'', currentRoomId = Some ''general''\<rparr>" and t = "''alice''"
        and rm = plans]
    by (simp add: s_plans_def s_alice_def plans_def truthy_def GENERAL_ROOM_ID_def)
  moreover have "\<exists>s' out. on_switch_room s_guest ''B'' ''general'' 3 = Inr (s', out)
         \<and> map_of (users s') ''B'' = Some \<lparr>username = Some ''bob'', currentRoomId = Some ''general''\<rparr>
         \<and> ''bob'' \<in> set (getUsersInRoom s' ''general'')"
    using C5_switch_room [where s = s_guest and k = "''B''" and r = "''general''" and now = 3
        and u = "\<lparr>username = Some ''bob'', currentRoomId = None\<rparr>" and t = "''bob''"
        and rm = general_alice]
    by (simp add: s_guest_def general_alice_def truthy_def GENERAL_ROOM_ID_def)
  moreover have "\<exists>p' out sk' prm'. p0_on_switch_room p_pair ''B'' ''1234'' 7 = Inr (p', out)
         \<and> map_of (p0_sockets p') ''B'' = Some sk' \<and> sk_currentRoomId sk' = Some ''1234''
         \<and> map_of (p0_rooms p') ''1234'' = Some prm' \<and> p_pin prm' = Some ''1234''
         \<and> ''B'' \<in> set (p_users prm')"
  proof -
    have "map_of (p0_sockets p_pair) ''B'' = Some \<lparr>sk_username = Some ''bob'', sk_currentRoomId = None, sk_rooms = [''B'']\<rparr>
        \<and> truthy (sk_username \<lparr>sk_username = Some ''bob'', sk_currentRoomId = None, sk_rooms = [''B'']\<rparr>)
        \<and> map_of (p0_rooms p_pair) ''1234'' = Some p_plans
        \<and> sk_currentRoomId \<lparr>sk_username = Some ''bob'', sk_currentRoomId = None, sk_rooms = [''B'']\<rparr> \<noteq> Some ''1234''
        \<and> p0_members_connected p_pair"
      using connected_p_pair by (simp add: p_pair_def truthy_def)
    with C5_switch_room [where p = p_pair and k = "''B''" and r = "''1234''" and now = 7
        and sk = "\<lparr>sk_username = Some ''bob'', sk_currentRoomId = None, sk_rooms = [''B'']\<rparr>" and prm = p_plans]
    obtain p' out sk' prm' where "p0_on_switch_room p_pair ''B'' ''1234'' 7 = Inr (p', out)"
      "map_of (p0_sockets p') ''B'' = Some sk'" "sk_currentRoomId sk' = Some ''1234''"
      "map_of (p0_rooms p') ''1234'' = Some prm'" "''B'' \<in> set (p_users prm')"
      by blast
    moreover have "p0_on_switch_room p_pair ''B'' ''1234'' 7 = Inr (p_joined,
        [([''B''], RoomJoinedSuccessNames ''Plans'' ''1234'' [p_created, p_bob_joined_plans]
                     [Some ''alice'', Some ''bob'']),
         ([''A'', ''B''], UpdateUserNames [Some ''alice'', Some ''bob''])])"
      by code_simp
    ultimately show ?thesis
      by (auto simp: p_joined_def p_plans_def)
  qed
  ultimately show ?thesis by blast
qed

text \<open>
  C5 as stated fails in \<^verbatim>\<open>server.js\<close>: alice is named and in the default room, the room
  \<^verbatim>\<open>room-5\<close> exists and has a PIN, and her \<^verbatim>\<open>switch room\<close> to it is rejected.
\<close>

theorem C5_counterexample:
  "map_of (users s_plans) ''A'' = Some \<lparr>username = Some ''alice'', currentRoomId = Some ''general''\<rparr>
   \<and> map_option r_pin (map_of (rooms s_plans) ''room-5'') = Some (Some ''1234'')
   \<and> on_switch_room s_plans ''A'' ''room-5'' 6 = Inr (s_plans, [feedback ''A'' ''Incorrect PIN for this room.''])"
  by code_simp

section \<open>The ids of created rooms\<close>




section \<open>Renaming\<close>

text \<open>
  C7, as amended. In \<^verbatim>\<open>server.js\<close>, \<^verbatim>\<open>change username\<close> is rejected when the trimmed new
  name is empty or is the current name of the session, and when a session that is in a
  room holds the new name; otherwise it sets the name of the session, also for a session
  that has no name yet: there is no rejection for a missing name. In the second server it
  is rejected when the trimmed new name is empty, when an entry of the \<^verbatim>\<open>users\<close> array of
  another socket holds it, and, after these, when the socket has no name; otherwise it
  sets the name, also when the new name is the current one.
\<close>

theorem C7_rename:
  "(trim n = [] \<longrightarrow>
      on_change_username s k n now = Inr (s, [feedback k ''New username cannot be empty.'']))
   \<and> (trim n \<noteq> [] \<and> map_of (users s) k = Some u \<and> username u = Some (trim n) \<longrightarrow>
      on_change_username s k n now = Inr (s, [feedback k ''That is already your username.'']))
   \<and> (trim n \<noteq> [] \<and> map_of (users s) k = Some u \<and> username u \<noteq> Some (trim n)
        \<and> (\<exists>e \<in> set (users s). username (snd e) = Some (trim n) \<and> currentRoomId (snd e) \<noteq> None) \<longrightarrow>
      on_change_username s k n now = Inr (s, [feedback k (taken_msg (trim n))]))
   \<and> (trim n \<noteq> [] \<and> map_of (users s) k = Some u \<and> username u \<noteq> Some (trim n)
        \<and> \<not> (\<exists>e \<in> set (users s). username (snd e) = Some (trim n) \<and> currentRoomId (snd e) \<noteq> None) \<longrightarrow>
      (\<exists>s' out. on_change_username s k n now = Inr (s', ([k], UsernameUpdated (trim n)) # out)
          \<and> map_of (users s') k = Some (u\<lparr>username := Some (trim n)\<rparr>)))
   \<and> (map_of (p0_sockets p) k = Some sk \<and> trim n = [] \<longrightarrow>
      p0_on_change_username p k n now = Inr (p, [feedback k ''Username cannot be empty.'']))
   \<and> (map_of (p0_sockets p) k = Some sk \<and> trim n \<noteq> []
        \<and> (\<exists>e \<in> set (p0_users p). snd e = trim n \<and> fst e \<noteq> k) \<longrightarrow>
      p0_on_change_username p k n now =
        Inr (p, [feedback k (''Username '' @ dquote @ trim n @ dquote @ '' is already taken.'')]))
   \<and> (map_of (p0_sockets p) k = Some sk \<and> trim n \<noteq> []
        \<and> \<not> (\<exists>e \<in> set (p0_users p). snd e = trim n \<and> fst e \<noteq> k) \<and> \<not> truthy (sk_username sk) \<longrightarrow>
      p0_on_change_username p k n now =
        Inr (p, [feedback k ''You must set an initial username first.'']))
   \<and> (map_of (p0_sockets p) k = Some sk \<and> trim n \<noteq> []
        \<and> \<not> (\<exists>e \<in> set (p0_users p). snd e = trim n \<and> fst e \<noteq> k) \<and> truthy (sk_username sk)
        \<and> p0_members_connected p \<longrightarrow>
      (\<exists>p' out. p0_on_change_username p k n now = Inr (p', out @ [([k], UsernameUpdated (trim n))])
          \<and> map_of (p0_sockets p') k = Some (sk\<lparr>sk_username := Some (trim n)\<rparr>)))"
proof (intro conjI impI)
  assume "trim n = []"
  then show "on_change_username s k n now = Inr (s, [feedback k ''New username cannot be empty.''])"
    by (simp add: on_change_username_def)
next
  assume "trim n \<noteq> [] \<and> map_of (users s) k = Some u \<and> username u = Some (trim n)"
  then show "on_change_username s k n now = Inr (s, [feedback k ''That is already your username.''])"
    by (simp add: on_change_username_def)
next
  assume "trim n \<noteq> [] \<and> map_of (users s) k = Some u \<and> username u \<noteq> Some (trim n)
        \<and> (\<exists>e \<in> set (users s). username (snd e) = Some (trim n) \<and> currentRoomId (snd e) \<noteq> None)"
  then show "on_change_username s k n now = Inr (s, [feedback k (taken_msg (trim n))])"
    by (force simp: on_change_username_def isNewUsernameTaken_def list_ex_iff Let_def)
next
  assume a: "trim n \<noteq> [] \<and> map_of (users s) k = Some u \<and> username u \<noteq> Some (trim n)
        \<and> \<not> (\<exists>e \<in> set (users s). username (snd e) = Some (trim n) \<and> currentRoomId (snd e) \<noteq> None)"
  then have "\<not> isNewUsernameTaken s (username u) (trim n)"
    by (auto simp: isNewUsernameTaken_def list_ex_iff)
  with a show "\<exists>s' out. on_change_username s k n now = Inr (s', ([k], UsernameUpdated (trim n)) # out)
          \<and> map_of (users s') k = Some (u\<lparr>username := Some (trim n)\<rparr>)"
    by (auto simp: on_change_username_def Let_def update_conv' split: option.splits)
next
  assume "map_of (p0_sockets p) k = Some sk \<and> trim n = []"
  then show "p0_on_change_username p k n now = Inr (p, [feedback k ''Username cannot be empty.''])"
    by (simp add: p0_on_change_username_def)
next
  assume "map_of (p0_sockets p) k = Some sk \<and> trim n \<noteq> []
        \<and> (\<exists>e \<in> set (p0_users p). snd e = trim n \<and> fst e \<noteq> k)"
  then show "p0_on_change_username p k n now =
        Inr (p, [feedback k (''Username '' @ dquote @ trim n @ dquote @ '' is already taken.'')])"
    by (force simp: p0_on_change_username_def list_ex_iff Let_def)
next
  assume "map_of (p0_sockets p) k = Some sk \<and> trim n \<noteq> []
        \<and> \<not> (\<exists>e \<in> set (p0_users p). snd e = trim n \<and> fst e \<noteq> k) \<and> \<not> truthy (sk_username sk)"
  then show "p0_on_change_username p k n now =
        Inr (p, [feedback k ''You must set an initial username first.''])"
    by (auto simp: p0_on_change_username_def list_ex_iff Let_def)
next
  assume a: "map_of (p0_sockets p) k = Some sk \<and> trim n \<noteq> []
        \<and> \<not> (\<exists>e \<in> set (p0_users p). snd e = trim n \<and> fst e \<noteq> k) \<and> truthy (sk_username sk)
        \<and> p0_members_connected p"
  then have "list_all (\<lambda>e. list_all (\<lambda>m. map_of (p0_sockets p) m \<noteq> None) (p_users (snd e))) (p0_rooms p)"
    by (simp add: p0_members_connected_def)
  then obtain rs' out where "rename_rooms (p0_sockets p) k
      (js_undefined (sk_username sk) @ '' is now '' @ trim n @ ''.'') now (p0_rooms p) = Inr (rs', out)"
    using rename_rooms_ok by blast
  moreover have "\<not> list_ex (\<lambda>u. snd u = trim n \<and> fst u \<noteq> k) (p0_users p)"
    using a by (auto simp: list_ex_iff)
  ultimately show "\<exists>p' out. p0_on_change_username p k n now =
        Inr (p', out @ [([k], UsernameUpdated (trim n))])
      \<and> map_of (p0_sockets p') k = Some (sk\<lparr>sk_username := Some (trim n)\<rparr>)"
    using a by (simp add: p0_on_change_username_def Let_def update_conv')
qed

theorem C7_rename_witness:
  "on_change_username s_guest ''B'' ''  '' 3 = Inr (s_guest, [feedback ''B'' ''New username cannot be empty.''])
   \<and> on_change_username s_guest ''B'' ''bob'' 3 = Inr (s_guest, [feedback ''B'' ''That is already your username.''])
   \<and> on_change_username s_guest ''B'' ''alice'' 3 = Inr (s_guest, [feedback ''B'' (taken_msg ''alice'')])
   \<and> (\<exists>s' out. on_change_username s_anon ''A'' ''bob'' 3 = Inr (s', ([''A''], UsernameUpdated ''bob'') # out)
         \<and> map_of (users s') ''A'' = Some \<lparr>username = Some ''bob'', currentRoomId = None\<rparr>)
   \<and> p0_on_change_username p_both ''B'' ''  '' 3 = Inr (p_both, [feedback ''B'' ''Username cannot be empty.''])
   \<and> p0_on_change_username p_both ''B'' ''alice'' 3
       = Inr (p_both, [feedback ''B'' (''Username '' @ dquote @ ''alice'' @ dquote @ '' is already taken.'')])
   \<and> p0_on_change_username p_lobby ''B'' ''bob'' 3
       = Inr (p_lobby, [feedback ''B'' ''You must set an initial username first.''])
   \<and> (\<exists>p' out. p0_on_change_username p_lobby ''A'' ''alice'' 3 = Inr (p', out @ [([''A''], UsernameUpdated ''alice'')])
         \<and> map_of (p0_sockets p') ''A''
             = Some \<lparr>sk_username = Some ''alice'', sk_currentRoomId = None, sk_rooms = [''A'']\<rparr>)"
proof -
  let ?uB = "\<lparr>username = Some ''bob'', currentRoomId = None\<rparr>"
  let ?skA = "\<lparr>sk_username = Some ''alice'', sk_currentRoomId = None, sk_rooms = [''A'']\<rparr>"
  let ?skB = "\<lparr>sk_username = Some ''bob'', sk_currentRoomId = None, sk_rooms = [''B'']\<rparr>"
  let ?sk0 = "\<lparr>sk_username = None, sk_currentRoomId = None, sk_rooms = [''B'']\<rparr>"
  have "on_change_username s_guest ''B'' ''  '' 3 = Inr (s_guest, [feedback ''B'' ''New username cannot be empty.''])"
    using C7_rename [where s = s_guest and k = "''B''" and n = "''  ''" and now = 3]
    by (simp add: trim_blank)
  moreover have "on_change_username s_guest ''B'' ''bob'' 3
      = Inr (s_guest, [feedback ''B'' ''That is already your username.''])"
    using C7_rename [where s = s_guest and k = "''B''" and n = "''bob''" and now = 3 and u = ?uB]
    by (simp add: trim_bob s_guest_def)
  moreover have "on_change_username s_guest ''B'' ''alice'' 3 = Inr (s_guest, [feedback ''B'' (taken_msg ''alice'')])"
    using C7_rename [where s = s_guest and k = "''B''" and n = "''alice''" and now = 3 and u = ?uB]
    by (simp add: trim_alice s_guest_def)
  moreover have "\<exists>s' out. on_change_username s_anon ''A'' ''bob'' 3 = Inr (s', ([''A''], UsernameUpdated ''bob'') # out)
         \<and> map_of (users s') ''A'' = Some \<lparr>username = Some ''bob'', currentRoomId = None\<rparr>"
    using C7_rename [where s = s_anon and k = "''A''" and n = "''bob''" and now = 3
        and u = "\<lparr>username = None, currentRoomId = None\<rparr>"]
    by (simp add: trim_bob s_anon_def)
  moreover have "p0_on_change_username p_both ''B'' ''  '' 3 = Inr (p_both, [feedback ''B'' ''Username cannot be empty.''])"
    using C7_rename [where p = p_both and k = "''B''" and n = "''  ''" and now = 3 and sk = ?skB]
    by (simp add: trim_blank p_both_def)
  moreover have "p0_on_change_username p_both ''B'' ''alice'' 3
       = Inr (p_both, [feedback ''B'' (''Username '' @ dquote @ ''alice'' @ dquote @ '' is already taken.'')])"
    using C7_rename [where p = p_both and k = "''B''" and n = "''alice''" and now = 3 and sk = ?skB]
    by (simp add: trim_alice p_both_def)
  moreover have "p0_on_change_username p_lobby ''B'' ''bob'' 3
       = Inr (p_lobby, [feedback ''B'' ''You must set an initial username first.''])"
    using C7_rename [where p = p_lobby and k = "''B''" and n = "''bob''" and now = 3 and sk = ?sk0]
    by (simp add: trim_bob p_lobby_def truthy_def)
  moreover have "\<exists>p' out. p0_on_change_username p_lobby ''A'' ''alice'' 3
           = Inr (p', out @ [([''A''], UsernameUpdated ''alice'')])
         \<and> map_of (p0_sockets p') ''A'' = Some ?skA"
    using C7_rename [where p = p_lobby and k = "''A''" and n = "''alice''" and now = 3 and sk = ?skA]
      connected_p_lobby
    by (simp add: trim_alice p_lobby_def truthy_def)
  ultimately show ?thesis by blast
qed

text \<open>
  C7 as stated fails. In \<^verbatim>\<open>server.js\<close> the connection \<open>A\<close>, which has no name, sends
  \<^verbatim>\<open>change username\<close> and gets the name bob. In the second server alice renames herself to
  alice and the request is accepted.
\<close>

theorem C7_counterexample:
  "map_of (users s_anon) ''A'' = Some \<lparr>username = None, currentRoomId = None\<rparr>
   \<and> on_change_username s_anon ''A'' ''bob'' 3
       = Inr (s_anon\<lparr>users := [(''A'', \<lparr>username = Some ''bob'', currentRoomId = None\<rparr>)]\<rparr>,
              [([''A''], UsernameUpdated ''bob'')])
   \<and> map_option sk_username (map_of (p0_sockets p_lobby) ''A'') = Some (Some ''alice'')
   \<and> p0_on_change_username p_lobby ''A'' ''alice'' 3 = Inr (p_lobby, [([''A''], UsernameUpdated ''alice'')])"
  by code_simp

section \<open>The room list\<close>

text \<open>
  C8, as amended. A summary of the room list has the three fields id, name and whether a
  PIN is required. In \<^verbatim>\<open>server.js\<close> the list is a function of the ids, the names and of
  which PINs are \<^verbatim>\<open>null\<close>, and the id of a created room is made from the clock, so the list
  shows the value of no PIN. In the second server the id of a created room is its PIN, so
  the id field of its summary is the secret.
\<close>

theorem C8_room_list:
  "(map (\<lambda>e. (fst e, r_name (snd e), r_pin (snd e) = None)) (rooms s)
      = map (\<lambda>e. (fst e, r_name (snd e), r_pin (snd e) = None)) (rooms s') \<longrightarrow>
      availableRooms s = availableRooms s')
   \<and> (trim nm \<noteq> [] \<and> trim pin \<noteq> [] \<and> map_of (rooms s) (room_id_of now) = None \<longrightarrow>
      (\<exists>s2 out. on_create_room s k nm pin now = Inr (s2, out)
         \<and> availableRooms s2 = availableRooms s @
             [\<lparr>sum_id = room_id_of now, sum_name = trim nm, hasPin = True\<rparr>]))
   \<and> (map_of (p0_sockets p) k = Some sk \<and> truthy (sk_username sk)
        \<and> trim nm \<noteq> [] \<and> pin \<noteq> [] \<and> trim pin \<noteq> [] \<and> map_of (p0_rooms p) (trim pin) = None
        \<and> p0_members_connected p \<longrightarrow>
      (\<exists>p' out prm. p0_on_create_room p k nm (Some pin) now = Inr (p', out)
         \<and> map_of (p0_rooms p') (trim pin) = Some prm \<and> p_pin prm = Some (trim pin)
         \<and> \<lparr>sum_id = trim pin, sum_name = trim nm, hasPin = True\<rparr> \<in> set (getRoomList p')))"
proof (intro conjI impI)
  assume "map (\<lambda>e. (fst e, r_name (snd e), r_pin (snd e) = None)) (rooms s)
      = map (\<lambda>e. (fst e, r_name (snd e), r_pin (snd e) = None)) (rooms s')"
  then have "map ((\<lambda>t. \<lparr>sum_id = fst t, sum_name = fst (snd t), hasPin = (\<not> snd (snd t))\<rparr>)
                   \<circ> (\<lambda>e. (fst e, r_name (snd e), r_pin (snd e) = None))) (rooms s)
           = map ((\<lambda>t. \<lparr>sum_id = fst t, sum_name = fst (snd t), hasPin = (\<not> snd (snd t))\<rparr>)
                   \<circ> (\<lambda>e. (fst e, r_name (snd e), r_pin (snd e) = None))) (rooms s')"
    by (metis map_map)
  then show "availableRooms s = availableRooms s'"
    by (simp add: availableRooms_def comp_def case_prod_unfold)
next
  assume "trim nm \<noteq> [] \<and> trim pin \<noteq> [] \<and> map_of (rooms s) (room_id_of now) = None"
  then have "\<exists>out. on_create_room s k nm pin now =
        Inr (s\<lparr>rooms := rooms s @ [(room_id_of now,
               \<lparr>r_name = trim nm, r_pin = Some (trim pin), r_history = [], usersInRoom = []\<rparr>)]\<rparr>, out)"
    by (intro server_create_fresh) auto
  then show "\<exists>s2 out. on_create_room s k nm pin now = Inr (s2, out)
         \<and> availableRooms s2 = availableRooms s @
             [\<lparr>sum_id = room_id_of now, sum_name = trim nm, hasPin = True\<rparr>]"
    by (auto simp: availableRooms_def)
next
  assume "map_of (p0_sockets p) k = Some sk \<and> truthy (sk_username sk)
        \<and> trim nm \<noteq> [] \<and> pin \<noteq> [] \<and> trim pin \<noteq> [] \<and> map_of (p0_rooms p) (trim pin) = None
        \<and> p0_members_connected p"
  then have "\<exists>p' out. p0_on_create_room p k nm (Some pin) now = Inr (p', out)
      \<and> map_of (p0_rooms p') (trim pin) =
          Some \<lparr>p_id = trim pin, p_name = trim nm, p_pin = Some (trim pin),
                p_history = [p0_entry sk '' created and joined the room.'' now], p_users = [k]\<rparr>"
    by (intro p0_create_ok) auto
  then obtain p' out where c: "p0_on_create_room p k nm (Some pin) now = Inr (p', out)"
      "map_of (p0_rooms p') (trim pin) =
          Some \<lparr>p_id = trim pin, p_name = trim nm, p_pin = Some (trim pin),
                p_history = [p0_entry sk '' created and joined the room.'' now], p_users = [k]\<rparr>"
    by blast
  from c(2) have "(trim pin, \<lparr>p_id = trim pin, p_name = trim nm, p_pin = Some (trim pin),
                p_history = [p0_entry sk '' created and joined the room.'' now], p_users = [k]\<rparr>)
              \<in> set (p0_rooms p')"
    by (rule map_of_SomeD)
  then have "\<lparr>sum_id = trim pin, sum_name = trim nm, hasPin = truthy (Some (trim pin))\<rparr> \<in> set (getRoomList p')"
    by (force simp: getRoomList_def)
  moreover have "truthy (Some (trim pin))"
    using \<open>map_of (p0_sockets p) k = Some sk \<and> truthy (sk_username sk)
        \<and> trim nm \<noteq> [] \<and> pin \<noteq> [] \<and> trim pin \<noteq> [] \<and> map_of (p0_rooms p) (trim pin) = None
        \<and> p0_members_connected p\<close> by (simp add: truthy_def)
  ultimately show "\<exists>p' out prm. p0_on_create_room p k nm (Some pin) now = Inr (p', out)
         \<and> map_of (p0_rooms p') (trim pin) = Some prm \<and> p_pin prm = Some (trim pin)
         \<and> \<lparr>sum_id = trim pin, sum_name = trim nm, hasPin = True\<rparr> \<in> set (getRoomList p')"
    using c by auto
qed

theorem C8_room_list_witness:
  "availableRooms s_plans
     = availableRooms (s_plans\<lparr>rooms := [(''general'', general_alice), (''room-5'', plans\<lparr>r_pin := Some ''4321''\<rparr>)]\<rparr>)
   \<and> (\<exists>s2 out. on_create_room s_alice ''A'' ''Plans'' ''1234'' 5 = Inr (s2, out)
         \<and> availableRooms s2 = availableRooms s_alice @
             [\<lparr>sum_id = ''room-5'', sum_name = ''Plans'', hasPin = True\<rparr>])
   \<and> (\<exists>p' out prm. p0_on_create_room p_both ''A'' ''Plans'' (Some ''1234'') 5 = Inr (p', out)
         \<and> map_of (p0_rooms p') ''1234'' = Some prm \<and> p_pin prm = Some ''1234''
         \<and> \<lparr>sum_id = ''1234'', sum_name = ''Plans'', hasPin = True\<rparr> \<in> set (getRoomList p'))"
proof -
  have "availableRooms s_plans
     = availableRooms (s_plans\<lparr>rooms := [(''general'', general_alice), (''room-5'', plans\<lparr>r_pin := Some ''4321''\<rparr>)]\<rparr>)"
    using C8_room_list [where s = s_plans
        and s' = "s_plans\<lparr>rooms := [(''general'', general_alice), (''room-5'', plans\<lparr>r_pin := Some ''4321''\<rparr>)]\<rparr>"]
    by (simp add: s_plans_def plans_def)
  moreover have "\<exists>s2 out. on_create_room s_alice ''A'' ''Plans'' ''1234'' 5 = Inr (s2, out)
         \<and> availableRooms s2 = availableRooms s_alice @
             [\<lparr>sum_id = ''room-5'', sum_name = ''Plans'', hasPin = True\<rparr>]"
    using C8_room_list [where s = s_alice and k = "''A''" and nm = "''Plans''" and pin = "''1234''" and now = 5]
    by (simp add: trim_Plans trim_1234 room_id_5 s_alice_def)
  moreover have "\<exists>p' out prm. p0_on_create_room p_both ''A'' ''Plans'' (Some ''1234'') 5 = Inr (p', out)
         \<and> map_of (p0_rooms p') ''1234'' = Some prm \<and> p_pin prm = Some ''1234''
         \<and> \<lparr>sum_id = ''1234'', sum_name = ''Plans'', hasPin = True\<rparr> \<in> set (getRoomList p')"
    using C8_room_list [where p = p_both and k = "''A''" and nm = "''Plans''" and pin = "''1234''" and now = 5
        and sk = "\<lparr>sk_username = Some ''alice'', sk_currentRoomId = None, sk_rooms = [''A'']\<rparr>"]
      connected_p_both
    by (simp add: trim_Plans trim_1234 p_both_def truthy_def)
  ultimately show ?thesis by blast
qed

text \<open>
  C8 as stated fails in the second server: the summary of the room of alice carries her
  PIN 1234 in its id field.
\<close>

theorem C8_counterexample:
  "getRoomList p_alone =
     [\<lparr>sum_id = ''general'', sum_name = ''General'', hasPin = False\<rparr>,
      \<lparr>sum_id = ''1234'', sum_name = ''Plans'', hasPin = True\<rparr>]
   \<and> map_option p_pin (map_of (p0_rooms p_alone) ''1234'') = Some (Some ''1234'')"
  by code_simp

section \<open>Posting a message\<close>

text \<open>
  C9. The claim: a message of a named session in a room is appended to the history of the
  session's current room and broadcast to every member of that room, the sender included.
  The second server appends the event to the history of the current room of the socket but
  emits it to the Socket.IO room named by the field \<^verbatim>\<open>room\<close> of the payload: alice, in her
  room Plans, sends a message whose payload names the default room; the event enters the
  history of Plans and is delivered to bob in the default room only, not to alice.
\<close>

theorem C9_second_server_misdirected_message:
  "p0_on_chat_message p_two ''A'' ''general'' ''hi'' 7 =
     Inr (p_two\<lparr>p0_rooms :=
            [(''general'', p_general\<lparr>p_history := [p_bob_joined], p_users := [''B'']\<rparr>),
             (''1234'', p_plans\<lparr>p_history := [p_created,
                 \<lparr>ev_room = Some ''general'', ev_user = Some ''alice'', ev_text = ''hi'',
                  ev_timestamp = 7, ev_type = Some Message\<rparr>]\<rparr>)]\<rparr>,
          [([''B''], ChatMessage \<lparr>ev_room = Some ''general'', ev_user = Some ''alice'', ev_text = ''hi'',
                                   ev_timestamp = 7, ev_type = Some Message\<rparr>)])"
  by code_simp

theorem C9_second_server_misdirected_message_witness:
  "\<exists>s out. p0_on_chat_message p_two ''A'' ''general'' ''hi'' 7 = Inr (s, out)
     \<and> p0_sessions_in p_two ''1234'' = [''A'']
     \<and> list_all (\<lambda>e. ''A'' \<notin> set (fst e)) out"
  using C9_second_server_misdirected_message by (simp add: p_two_def p0_sessions_in_def)

section \<open>The join event\<close>

text \<open>
  C10, as amended. On every successful join, in both servers, the join entry is appended to
  the history of the room before the snapshot is sent, so the history that the joining
  connection receives ends with its own join entry. In \<^verbatim>\<open>server.js\<close>, where every join runs
  \<^const>\<open>joinRoom\<close>, the same event is emitted exactly once as a chat message, to the sockets
  of the room other than the joining one. In the second server the join entry is not
  broadcast by any of the three handlers that join a room, \<^verbatim>\<open>join room by pin\<close>,
  \<^verbatim>\<open>switch room\<close> and \<^verbatim>\<open>create room\<close> (whose entry says ``created and joined''): after the
  notifications of the room that was left, the handler sends the snapshot to the joining
  socket and the new user list to the room, and \<^verbatim>\<open>create room\<close> the room list to all.
\<close>

theorem C10_join_event:
  "(map_of (users s) k = Some u \<and> username u = Some t \<and> t \<noteq> [] \<and> map_of (rooms s) r = Some rm
      \<and> \<not> (truthy (r_pin rm) \<and> r_pin rm \<noteq> pin \<and> r \<noteq> GENERAL_ROOM_ID)
      \<and> currentRoomId u \<noteq> Some r \<and> map_of (userSocketRooms s) k \<noteq> None \<longrightarrow>
      (\<exists>s1 out1 s2 out. leave_previous s k (currentRoomId u) now = Inr (s1, out1)
         \<and> joinRoom s k r pin now = Inr (s2, out)
         \<and> out = out1 @
             [([k], RoomJoinedSuccess (r_name rm) r (r_history rm @ [joinMessage t r now])
                      (set_add t (usersInRoom rm))),
              (socket_to (io_sockets s2) k r, ChatMessage (joinMessage t r now)),
              (io_to (io_sockets s2) r, UpdateUserList r (set_add t (usersInRoom rm)))]
         \<and> map_option r_history (map_of (rooms s2) r) = Some (r_history rm @ [joinMessage t r now])
         \<and> length (filter (carries (joinMessage t r now)) out) = 1
         \<and> set (socket_to (io_sockets s2) k r) = set (io_to (io_sockets s2) r) - {k}))
   \<and> (map_of (p0_sockets p) k = Some sk \<and> truthy (sk_username sk) \<and> trim pn \<noteq> []
      \<and> map_of (p0_rooms p) (trim pn) = Some prm \<and> sk_currentRoomId sk \<noteq> Some (trim pn)
      \<and> p0_members_connected p \<longrightarrow>
      (\<exists>p1 out1 p2 out ns. p0_leave_old p k sk now = Inr (p1, out1)
         \<and> p0_on_join_room_by_pin p k pn now = Inr (p2, out)
         \<and> out = out1 @
             [([k], RoomJoinedSuccessNames (p_name prm) (p_id prm)
                      (p_history prm @ [p0_entry sk '' has joined the room.'' now]) ns),
              (io_to (p0_io p2) (trim pn), UpdateUserNames ns)]
         \<and> map_option p_history (map_of (p0_rooms p2) (trim pn))
              = Some (p_history prm @ [p0_entry sk '' has joined the room.'' now])
         \<and> filter (carries (p0_entry sk '' has joined the room.'' now)) out = []))
   \<and> (map_of (p0_sockets p) k = Some sk \<and> truthy (sk_username sk)
      \<and> map_of (p0_rooms p) r = Some prm \<and> sk_currentRoomId sk \<noteq> Some r
      \<and> p0_members_connected p \<longrightarrow>
      (\<exists>p1 out1 p2 out ns. p0_leave_old p k sk now = Inr (p1, out1)
         \<and> p0_on_switch_room p k r now = Inr (p2, out)
         \<and> out = out1 @
             [([k], RoomJoinedSuccessNames (p_name prm) (p_id prm)
                      (p_history prm @ [p0_entry sk '' has joined the room.'' now]) ns),
              (io_to (p0_io p2) r, UpdateUserNames ns)]
         \<and> map_option p_history (map_of (p0_rooms p2) r)
              = Some (p_history prm @ [p0_entry sk '' has joined the room.'' now])
         \<and> filter (carries (p0_entry sk '' has joined the room.'' now)) out = []))
   \<and> (map_of (p0_sockets p) k = Some sk \<and> truthy (sk_username sk)
      \<and> trim nm \<noteq> [] \<and> pn \<noteq> [] \<and> trim pn \<noteq> [] \<and> map_of (p0_rooms p) (trim pn) = None
      \<and> p0_members_connected p \<longrightarrow>
      (\<exists>p1 out1 p2 out ns. p0_leave_old p k sk now = Inr (p1, out1)
         \<and> p0_on_create_room p k nm (Some pn) now = Inr (p2, out)
         \<and> out = out1 @
             [([k], RoomJoinedSuccessNames (trim nm) (trim pn)
                      [p0_entry sk '' created and joined the room.'' now] ns),
              (io_to (p0_io p2) (trim pn), UpdateUserNames ns),
              (io_all (p0_io p2), UpdateRoomList (getRoomList p2))]
         \<and> map_option p_history (map_of (p0_rooms p2) (trim pn))
              = Some [p0_entry sk '' created and joined the room.'' now]
         \<and> filter (carries (p0_entry sk '' created and joined the room.'' now)) out = []))"
proof (intro conjI impI)
  assume a: "map_of (users s) k = Some u \<and> username u = Some t \<and> t \<noteq> [] \<and> map_of (rooms s) r = Some rm
      \<and> \<not> (truthy (r_pin rm) \<and> r_pin rm \<noteq> pin \<and> r \<noteq> GENERAL_ROOM_ID)
      \<and> currentRoomId u \<noteq> Some r \<and> map_of (userSocketRooms s) k \<noteq> None"
  then obtain js where js: "map_of (userSocketRooms s) k = Some js"
    by auto
  from a have "\<exists>s1 out1 s2 out2. leave_previous s k (currentRoomId u) now = Inr (s1, out1)
           \<and> map_of (userSocketRooms s1) k \<noteq> None
           \<and> enterRoom s1 k t r rm now = Inr (s2, out2)
           \<and> joinRoom s k r pin now = Inr (s2, out1 @ out2)"
    by (intro joinRoom_enters [OF _ _ _ _ _ _ js]) auto
  then obtain s1 out1 s2 out2 where j: "leave_previous s k (currentRoomId u) now = Inr (s1, out1)"
      "map_of (userSocketRooms s1) k \<noteq> None"
      "enterRoom s1 k t r rm now = Inr (s2, out2)" "joinRoom s k r pin now = Inr (s2, out1 @ out2)"
    by blast
  from j(2) obtain js1 where "map_of (userSocketRooms s1) k = Some js1" by auto
  from enterRoom_ok [OF this, of t r rm now] j(3)
  have e: "out2 = [([k], RoomJoinedSuccess (r_name rm) r (r_history rm @ [joinMessage t r now])
                         (set_add t (usersInRoom rm))),
                (socket_to (io_sockets s2) k r, ChatMessage (joinMessage t r now)),
                (io_to (io_sockets s2) r, UpdateUserList r (set_add t (usersInRoom rm)))]"
      "map_of (rooms s2) r = Some (rm\<lparr>usersInRoom := set_add t (usersInRoom rm),
                                       r_history := r_history rm @ [joinMessage t r now]\<rparr>)"
    by auto
  have "ev_room (joinMessage t r now) \<noteq> currentRoomId u"
    using a by (auto simp: joinMessage_def)
  then have "list_all (\<lambda>e. \<not> carries (joinMessage t r now) e) out1"
    using j(1) by (intro leave_previous_silent)
  then have "filter (carries (joinMessage t r now)) out1 = []"
    by (simp add: filter_empty_conv list_all_iff)
  then have "length (filter (carries (joinMessage t r now)) (out1 @ out2)) = 1"
    using e(1) by (simp add: carries_def)
  moreover have "set (socket_to (io_sockets s2) k r) = set (io_to (io_sockets s2) r) - {k}"
    by (auto simp: socket_to_def)
  ultimately show "\<exists>s1 out1 s2 out. leave_previous s k (currentRoomId u) now = Inr (s1, out1)
         \<and> joinRoom s k r pin now = Inr (s2, out)
         \<and> out = out1 @
             [([k], RoomJoinedSuccess (r_name rm) r (r_history rm @ [joinMessage t r now])
                      (set_add t (usersInRoom rm))),
              (socket_to (io_sockets s2) k r, ChatMessage (joinMessage t r now)),
              (io_to (io_sockets s2) r, UpdateUserList r (set_add t (usersInRoom rm)))]
         \<and> map_option r_history (map_of (rooms s2) r) = Some (r_history rm @ [joinMessage t r now])
         \<and> length (filter (carries (joinMessage t r now)) out) = 1
         \<and> set (socket_to (io_sockets s2) k r) = set (io_to (io_sockets s2) r) - {k}"
    using j(1,4) e by auto
next
  assume a: "map_of (p0_sockets p) k = Some sk \<and> truthy (sk_username sk) \<and> trim pn \<noteq> []
      \<and> map_of (p0_rooms p) (trim pn) = Some prm \<and> sk_currentRoomId sk \<noteq> Some (trim pn)
      \<and> p0_members_connected p"
  let ?entry = "p0_entry sk '' has joined the room.'' now"
  from a have "list_all (\<lambda>m. map_of (p0_sockets p) m \<noteq> None) (p_users prm)"
    using members_connectedD [of p "trim pn" prm] by blast
  with a obtain p1 out1 p2 ns where l: "p0_leave_old p k sk now = Inr (p1, out1)"
      "p0_enter p1 k (trim pn) prm '' has joined the room.'' now =
          Inr (p2, [([k], RoomJoinedSuccessNames (p_name prm) (p_id prm) (p_history prm @ [?entry]) ns),
                    (io_to (p0_io p2) (trim pn), UpdateUserNames ns)])"
      "map_of (p0_rooms p2) (trim pn) =
          Some (prm\<lparr>p_users := set_add k (p_users prm), p_history := p_history prm @ [?entry]\<rparr>)"
    using p0_leave_enter_ok [of p k sk prm now "trim pn" "'' has joined the room.''"] by blast
  have j: "p0_on_join_room_by_pin p k pn now =
      Inr (p2, out1 @ [([k], RoomJoinedSuccessNames (p_name prm) (p_id prm) (p_history prm @ [?entry]) ns),
                       (io_to (p0_io p2) (trim pn), UpdateUserNames ns)])"
    using a l(1,2) by (simp add: p0_on_join_room_by_pin_def Let_def)
  have "ev_user ?entry = None"
    by (simp add: p0_entry_def)
  with l(1) have "list_all (\<lambda>e. \<not> carries ?entry e) out1"
    by (rule p0_leave_old_silent)
  then have "filter (carries ?entry) out1 = []"
    by (simp add: filter_empty_conv list_all_iff)
  then have "filter (carries ?entry)
      (out1 @ [([k], RoomJoinedSuccessNames (p_name prm) (p_id prm) (p_history prm @ [?entry]) ns),
               (io_to (p0_io p2) (trim pn), UpdateUserNames ns)]) = []"
    by (simp add: carries_def)
  with l(1,3) j show "\<exists>p1 out1 p2 out ns. p0_leave_old p k sk now = Inr (p1, out1)
         \<and> p0_on_join_room_by_pin p k pn now = Inr (p2, out)
         \<and> out = out1 @
             [([k], RoomJoinedSuccessNames (p_name prm) (p_id prm) (p_history prm @ [?entry]) ns),
              (io_to (p0_io p2) (trim pn), UpdateUserNames ns)]
         \<and> map_option p_history (map_of (p0_rooms p2) (trim pn)) = Some (p_history prm @ [?entry])
         \<and> filter (carries ?entry) out = []"
    by auto
next
  assume a: "map_of (p0_sockets p) k = Some sk \<and> truthy (sk_username sk)
      \<and> map_of (p0_rooms p) r = Some prm \<and> sk_currentRoomId sk \<noteq> Some r
      \<and> p0_members_connected p"
  let ?entry = "p0_entry sk '' has joined the room.'' now"
  from a have "list_all (\<lambda>m. map_of (p0_sockets p) m \<noteq> None) (p_users prm)"
    using members_connectedD [of p r prm] by blast
  with a obtain p1 out1 p2 ns where l: "p0_leave_old p k sk now = Inr (p1, out1)"
      "p0_enter p1 k r prm '' has joined the room.'' now =
          Inr (p2, [([k], RoomJoinedSuccessNames (p_name prm) (p_id prm) (p_history prm @ [?entry]) ns),
                    (io_to (p0_io p2) r, UpdateUserNames ns)])"
      "map_of (p0_rooms p2) r =
          Some (prm\<lparr>p_users := set_add k (p_users prm), p_history := p_history prm @ [?entry]\<rparr>)"
    using p0_leave_enter_ok [of p k sk prm now r "'' has joined the room.''"] by blast
  have j: "p0_on_switch_room p k r now =
      Inr (p2, out1 @ [([k], RoomJoinedSuccessNames (p_name prm) (p_id prm) (p_history prm @ [?entry]) ns),
                       (io_to (p0_io p2) r, UpdateUserNames ns)])"
    using a l(1,2) by (simp add: p0_on_switch_room_def)
  have "ev_user ?entry = None"
    by (simp add: p0_entry_def)
  with l(1) have "list_all (\<lambda>e. \<not> carries ?entry e) out1"
    by (rule p0_leave_old_silent)
  then have "filter (carries ?entry) out1 = []"
    by (simp add: filter_empty_conv list_all_iff)
  then have "filter (carries ?entry)
      (out1 @ [([k], RoomJoinedSuccessNames (p_name prm) (p_id prm) (p_history prm @ [?entry]) ns),
               (io_to (p0_io p2) r, UpdateUserNames ns)]) = []"
    by (simp add: carries_def)
  with l(1,3) j show "\<exists>p1 out1 p2 out ns. p0_leave_old p k sk now = Inr (p1, out1)
         \<and> p0_on_switch_room p k r now = Inr (p2, out)
         \<and> out = out1 @
             [([k], RoomJoinedSuccessNames (p_name prm) (p_id prm) (p_history prm @ [?entry]) ns),
              (io_to (p0_io p2) r, UpdateUserNames ns)]
         \<and> map_option p_history (map_of (p0_rooms p2) r) = Some (p_history prm @ [?entry])
         \<and> filter (carries ?entry) out = []"
    by auto
next
  assume a: "map_of (p0_sockets p) k = Some sk \<and> truthy (sk_username sk)
      \<and> trim nm \<noteq> [] \<and> pn \<noteq> [] \<and> trim pn \<noteq> [] \<and> map_of (p0_rooms p) (trim pn) = None
      \<and> p0_members_connected p"
  let ?entry = "p0_entry sk '' created and joined the room.'' now"
  let ?rm = "\<lparr>p_id = trim pn, p_name = trim nm, p_pin = Some (trim pn), p_history = [], p_users = []\<rparr>"
  have "list_all (\<lambda>m. map_of (p0_sockets p) m \<noteq> None) (p_users ?rm)"
    by simp
  with a obtain p1 out1 p2 ns where l: "p0_leave_old p k sk now = Inr (p1, out1)"
      "p0_enter p1 k (trim pn) ?rm '' created and joined the room.'' now =
          Inr (p2, [([k], RoomJoinedSuccessNames (p_name ?rm) (p_id ?rm) (p_history ?rm @ [?entry]) ns),
                    (io_to (p0_io p2) (trim pn), UpdateUserNames ns)])"
      "map_of (p0_rooms p2) (trim pn) =
          Some (?rm\<lparr>p_users := set_add k (p_users ?rm), p_history := p_history ?rm @ [?entry]\<rparr>)"
    using p0_leave_enter_ok [of p k sk ?rm now "trim pn" "'' created and joined the room.''"] by blast
  have j: "p0_on_create_room p k nm (Some pn) now =
      Inr (p2, out1 @ [([k], RoomJoinedSuccessNames (trim nm) (trim pn) [?entry] ns),
                       (io_to (p0_io p2) (trim pn), UpdateUserNames ns),
                       (io_all (p0_io p2), UpdateRoomList (getRoomList p2))])"
    using a l(1,2) by (simp add: p0_on_create_room_def truthy_def js_undefined_def Let_def)
  have "ev_user ?entry = None"
    by (simp add: p0_entry_def)
  with l(1) have "list_all (\<lambda>e. \<not> carries ?entry e) out1"
    by (rule p0_leave_old_silent)
  then have "filter (carries ?entry) out1 = []"
    by (simp add: filter_empty_conv list_all_iff)
  then have "filter (carries ?entry)
      (out1 @ [([k], RoomJoinedSuccessNames (trim nm) (trim pn) [?entry] ns),
               (io_to (p0_io p2) (trim pn), UpdateUserNames ns),
               (io_all (p0_io p2), UpdateRoomList (getRoomList p2))]) = []"
    by (simp add: carries_def)
  moreover have "map_option p_history (map_of (p0_rooms p2) (trim pn)) = Some [?entry]"
    using l(3) by simp
  ultimately show "\<exists>p1 out1 p2 out ns. p0_leave_old p k sk now = Inr (p1, out1)
         \<and> p0_on_create_room p k nm (Some pn) now = Inr (p2, out)
         \<and> out = out1 @
             [([k], RoomJoinedSuccessNames (trim nm) (trim pn) [?entry] ns),
              (io_to (p0_io p2) (trim pn), UpdateUserNames ns),
              (io_all (p0_io p2), UpdateRoomList (getRoomList p2))]
         \<and> map_option p_history (map_of (p0_rooms p2) (trim pn)) = Some [?entry]
         \<and> filter (carries ?entry) out = []"
    using l(1) j by auto
qed

theorem C10_join_event_witness:
  "(\<exists>s2 out. joinRoom s_guest ''B'' ''general'' None 3 = Inr (s2, out)
      \<and> out = [([''B''], RoomJoinedSuccess ''General'' ''general''
                   [alice_joined, joinMessage ''bob'' ''general'' 3] [''alice'', ''bob'']),
                ([''A''], ChatMessage (joinMessage ''bob'' ''general'' 3)),
                ([''A'', ''B''], UpdateUserList ''general'' [''alice'', ''bob''])]
      \<and> length (filter (carries (joinMessage ''bob'' ''general'' 3)) out) = 1)
   \<and> (\<exists>p2 out. p0_on_join_room_by_pin p_pair ''B'' ''1234'' 7 = Inr (p2, out)
      \<and> map_option p_history (map_of (p0_rooms p2) ''1234'') = Some [p_created, p_bob_joined_plans]
      \<and> filter (carries p_bob_joined_plans) out = [])
   \<and> (\<exists>p2 out. p0_on_switch_room p_pair ''B'' ''general'' 6 = Inr (p2, out)
      \<and> map_option p_history (map_of (p0_rooms p2) ''general'') = Some [p_bob_joined]
      \<and> filter (carries p_bob_joined) out = [])
   \<and> (\<exists>p2 out. p0_on_create_room p_both ''A'' ''Plans'' (Some ''1234'') 5 = Inr (p2, out)
      \<and> map_option p_history (map_of (p0_rooms p2) ''1234'') = Some [p_created]
      \<and> filter (carries p_created) out = [])"
proof -
  let ?uB = "\<lparr>username = Some ''bob'', currentRoomId = None\<rparr>"
  let ?skB = "\<lparr>sk_username = Some ''bob'', sk_currentRoomId = None, sk_rooms = [''B'']\<rparr>"
  have "\<exists>s2 out. joinRoom s_guest ''B'' ''general'' None 3 = Inr (s2, out)
      \<and> out = [([''B''], RoomJoinedSuccess ''General'' ''general''
                   [alice_joined, joinMessage ''bob'' ''general'' 3] [''alice'', ''bob'']),
                ([''A''], ChatMessage (joinMessage ''bob'' ''general'' 3)),
                ([''A'', ''B''], UpdateUserList ''general'' [''alice'', ''bob''])]
      \<and> length (filter (carries (joinMessage ''bob'' ''general'' 3)) out) = 1"
  proof -
    have h: "map_of (users s_guest) ''B'' = Some ?uB \<and> username ?uB = Some ''bob'' \<and> ''bob'' \<noteq> []
        \<and> map_of (rooms s_guest) ''general'' = Some general_alice
        \<and> \<not> (truthy (r_pin general_alice) \<and> r_pin general_alice \<noteq> None \<and> ''general'' \<noteq> GENERAL_ROOM_ID)
        \<and> currentRoomId ?uB \<noteq> Some ''general'' \<and> map_of (userSocketRooms s_guest) ''B'' \<noteq> None"
      by (simp add: s_guest_def general_alice_def truthy_def)
    from C10_join_event [where s = s_guest and k = "''B''" and r = "''general''" and now = 3
        and u = ?uB and t = "''bob''" and rm = general_alice and pin = None,
        THEN conjunct1, THEN mp, OF h]
    obtain s2 out where j: "joinRoom s_guest ''B'' ''general'' None 3 = Inr (s2, out)"
        "length (filter (carries (joinMessage ''bob'' ''general'' 3)) out) = 1"
      by blast
    moreover have "joinRoom s_guest ''B'' ''general'' None 3 =
        Inr (s_guest\<lparr>users := [(''A'', \<lparr>username = Some ''alice'', currentRoomId = Some ''general''\<rparr>),
                                (''B'', \<lparr>username = Some ''bob'', currentRoomId = Some ''general''\<rparr>)],
                     rooms := [(''general'', general_alice\<lparr>r_history := [alice_joined, joinMessage ''bob'' ''general'' 3],
                                                         usersInRoom := [''alice'', ''bob'']\<rparr>)],
                     userSocketRooms := [(''A'', [''general'']), (''B'', [''general''])],
                     io_sockets := [(''A'', [''A'', ''general'']), (''B'', [''B'', ''general''])]\<rparr>,
             [([''B''], RoomJoinedSuccess ''General'' ''general''
                   [alice_joined, joinMessage ''bob'' ''general'' 3] [''alice'', ''bob'']),
              ([''A''], ChatMessage (joinMessage ''bob'' ''general'' 3)),
              ([''A'', ''B''], UpdateUserList ''general'' [''alice'', ''bob''])])"
      by code_simp
    ultimately show ?thesis by simp
  qed
  moreover have "\<exists>p2 out. p0_on_join_room_by_pin p_pair ''B'' ''1234'' 7 = Inr (p2, out)
      \<and> map_option p_history (map_of (p0_rooms p2) ''1234'') = Some [p_created, p_bob_joined_plans]
      \<and> filter (carries p_bob_joined_plans) out = []"
  proof -
    have h: "map_of (p0_sockets p_pair) ''B'' = Some ?skB \<and> truthy (sk_username ?skB) \<and> trim ''1234'' \<noteq> []
        \<and> map_of (p0_rooms p_pair) (trim ''1234'') = Some p_plans \<and> sk_currentRoomId ?skB \<noteq> Some (trim ''1234'')
        \<and> p0_members_connected p_pair"
      using connected_p_pair by (simp add: trim_1234 p_pair_def truthy_def)
    have e: "p0_entry ?skB '' has joined the room.'' 7 = p_bob_joined_plans"
      by code_simp
    from C10_join_event [where p = p_pair and k = "''B''" and pn = "''1234''" and now = 7
        and sk = ?skB and prm = p_plans, THEN conjunct2, THEN conjunct1, THEN mp, OF h]
    obtain p2 out where "p0_on_join_room_by_pin p_pair ''B'' ''1234'' 7 = Inr (p2, out)"
        "map_option p_history (map_of (p0_rooms p2) (trim ''1234''))
           = Some (p_history p_plans @ [p0_entry ?skB '' has joined the room.'' 7])"
        "filter (carries (p0_entry ?skB '' has joined the room.'' 7)) out = []"
      by blast
    then show ?thesis
      by (simp add: trim_1234 e p_plans_def)
  qed
  moreover have "\<exists>p2 out. p0_on_switch_room p_pair ''B'' ''general'' 6 = Inr (p2, out)
      \<and> map_option p_history (map_of (p0_rooms p2) ''general'') = Some [p_bob_joined]
      \<and> filter (carries p_bob_joined) out = []"
  proof -
    have h: "map_of (p0_sockets p_pair) ''B'' = Some ?skB \<and> truthy (sk_username ?skB)
        \<and> map_of (p0_rooms p_pair) ''general'' = Some p_general \<and> sk_currentRoomId ?skB \<noteq> Some ''general''
        \<and> p0_members_connected p_pair"
      using connected_p_pair by (simp add: p_pair_def truthy_def)
    have e: "p0_entry ?skB '' has joined the room.'' 6 = p_bob_joined"
      by code_simp
    from C10_join_event [where p = p_pair and k = "''B''" and r = "''general''" and now = 6
        and sk = ?skB and prm = p_general, THEN conjunct2, THEN conjunct2, THEN conjunct1,
        THEN mp, OF h]
    obtain p2 out where "p0_on_switch_room p_pair ''B'' ''general'' 6 = Inr (p2, out)"
        "map_option p_history (map_of (p0_rooms p2) ''general'')
           = Some (p_history p_general @ [p0_entry ?skB '' has joined the room.'' 6])"
        "filter (carries (p0_entry ?skB '' has joined the room.'' 6)) out = []"
      by blast
    then show ?thesis
      by (simp add: e p_general_def)
  qed
  moreover have "\<exists>p2 out. p0_on_create_room p_both ''A'' ''Plans'' (Some ''1234'') 5 = Inr (p2, out)
      \<and> map_option p_history (map_of (p0_rooms p2) ''1234'') = Some [p_created]
      \<and> filter (carries p_created) out = []"
  proof -
    let ?skA = "\<lparr>sk_username = Some ''alice'', sk_currentRoomId = None, sk_rooms = [''A'']\<rparr>"
    have h: "map_of (p0_sockets p_both) ''A'' = Some ?skA \<and> truthy (sk_username ?skA)
        \<and> trim ''Plans'' \<noteq> [] \<and> ''1234'' \<noteq> [] \<and> trim ''1234'' \<noteq> []
        \<and> map_of (p0_rooms p_both) (trim ''1234'') = None \<and> p0_members_connected p_both"
      using connected_p_both by (simp add: trim_Plans trim_1234 p_both_def truthy_def)
    have e: "p0_entry ?skA '' created and joined the room.'' 5 = p_created"
      by code_simp
    from C10_join_event [where p = p_both and k = "''A''" and nm = "''Plans''" and pn = "''1234''"
        and now = 5 and sk = ?skA, THEN conjunct2, THEN conjunct2, THEN conjunct2, THEN mp, OF h]
    obtain p2 out where "p0_on_create_room p_both ''A'' ''Plans'' (Some ''1234'') 5 = Inr (p2, out)"
        "map_option p_history (map_of (p0_rooms p2) (trim ''1234''))
           = Some [p0_entry ?skA '' created and joined the room.'' 5]"
        "filter (carries (p0_entry ?skA '' created and joined the room.'' 5)) out = []"
      by blast
    then show ?thesis
      by (simp add: trim_1234 e)
  qed
  ultimately show ?thesis by blast
qed

text \<open>
  C10 as stated fails in the second server: when bob joins the room of alice, the handler
  emits the snapshot to bob and the user list to the room, and no chat message: alice, the
  other member, does not receive the join entry. The same holds when bob enters the room
  through \<^verbatim>\<open>switch room\<close>.
\<close>

theorem C10_counterexample:
  "p0_sessions_in p_pair ''1234'' = [''A'']
   \<and> p0_on_join_room_by_pin p_pair ''B'' ''1234'' 7 = Inr (p_joined,
        [([''B''], RoomJoinedSuccessNames ''Plans'' ''1234'' [p_created, p_bob_joined_plans]
                     [Some ''alice'', Some ''bob'']),
         ([''A'', ''B''], UpdateUserNames [Some ''alice'', Some ''bob''])])
   \<and> p0_on_switch_room p_pair ''B'' ''1234'' 7 = Inr (p_joined,
        [([''B''], RoomJoinedSuccessNames ''Plans'' ''1234'' [p_created, p_bob_joined_plans]
                     [Some ''alice'', Some ''bob'']),
         ([''A'', ''B''], UpdateUserNames [Some ''alice'', Some ''bob''])])"
  by code_simp

end
